theory Spec2Isabelle
  imports Complex_Main "HOL-Library.Log_Nat"
begin

section \<open>Data model\<close>

text \<open>
  The source is \<^verbatim>\<open>src/markerclusterer.ts\<close>.  Objects that the code shares by reference
  are kept in an explicit store: a marker is named by its identity (\<open>marker_id\<close>) and the
  store maps identities to the marker's current state.  The clusterer's array of markers
  and every cluster's array of members hold identities, so an update of a marker
  (\<^verbatim>\<open>isAdded\<close>, \<^verbatim>\<open>setMap\<close>) is seen through both.

  JavaScript numbers that carry coordinates, pixels and distances are IEEE-754 doubles
  (type \<open>double\<close>, section on numbers): every arithmetic operation of the code is the
  exact operation followed by rounding to the nearest double, and comparisons with
  \<^verbatim>\<open>NaN\<close> are false.  Counts and zoom levels, which the code keeps integral, are
  integers.  The loop of the default summary calculator, whose result is decided by
  underflow, keeps the doubles it divides as their numbers of units \<open>2 ^ -1074\<close>
  (section on the calculator); its division is shown to be the division of doubles.
  The platform's constructor \<^verbatim>\<open>new google.maps.LatLng(lat, lng)\<close> is the point with
  these coordinates: what the platform does to coordinates outside \<open>[-90, 90]\<close> and
  \<open>[-180, 180]\<close> is not part of the model.

  The host platform (Google Maps) is a record of the values and functions the code asks it
  for.  The DOM element of a cluster icon and the wiring of event listeners are rendering
  glue and are left out; the icon keeps the state the core decides (\<^verbatim>\<open>visible_\<close>,
  \<^verbatim>\<open>center_\<close>, \<^verbatim>\<open>sum_\<close>, the style in use and the map it is attached to).
\<close>

section \<open>JavaScript numbers\<close>

text \<open>
  A double is a finite value, an infinity or \<^verbatim>\<open>NaN\<close>.  A finite double is kept as
  the rational it denotes; the two zeros are not distinguished (the code never divides by
  a zero and has no other way to tell them apart).  \<open>round_to_double\<close> is the rounding of
  IEEE-754 binary64, to the nearest double with ties to the even significand: for
  \<open>2 ^ e \<le> \<bar>q\<bar> < 2 ^ (e + 1)\<close> the doubles near \<open>q\<close> are the multiples of
  \<open>2 ^ (e - 52)\<close>, or of \<open>2 ^ -1074\<close> in the subnormal range \<open>e < -1022\<close>, and a result
  of magnitude \<open>2 ^ 1024\<close> or more is an infinity.  \<open>ilog2 a\<close> is that exponent \<open>e\<close>.
  The operators \<^verbatim>\<open>+ - * /\<close> are \<open>dadd\<close>, \<open>dsub\<close>, \<open>dmul\<close> and \<open>ddiv\<close>,
  \<^verbatim>\<open><\<close> is \<open>dlt\<close> and \<^verbatim>\<open><=\<close> is \<open>dle\<close>; \<open>number_of_nat\<close> is the number that
  an array length is, and \<open>truthy_num\<close> is the truthiness of a number (zero and
  \<^verbatim>\<open>NaN\<close> are falsy).  \<open>dmin\<close> and \<open>dmax\<close> are the smaller and the larger of two
  numbers, for the rectangles of the example host.
\<close>

datatype double = Fin rat | PInf | NInf | NaN

definition round_half_even_rat :: "rat \<Rightarrow> int" where
  "round_half_even_rat x =
     (let f = \<lfloor>x\<rfloor>; r = x - of_int f
      in if r < 1 / 2 then f else if 1 / 2 < r then f + 1 else if even f then f else f + 1)"

definition ilog2 :: "rat \<Rightarrow> int" where
  "ilog2 a =
     (if 1 \<le> a then int (floorlog 2 (nat \<lfloor>a\<rfloor>)) - 1
      else - int (floorlog 2 (nat (\<lceil>1 / a\<rceil> - 1))))"

definition round_to_double :: "rat \<Rightarrow> double" where
  "round_to_double q =
     (if q = 0 then Fin 0
      else
        let a = \<bar>q\<bar>;
            e = max (ilog2 a) (- 1022);
            ulp = 2 powi (e - 52);
            r = of_int (round_half_even_rat (a / ulp)) * ulp
        in if 2 ^ 1024 \<le> r then (if 0 < q then PInf else NInf)
           else Fin (if 0 < q then r else - r))"

definition dneg :: "double \<Rightarrow> double" where
  "dneg a = (case a of Fin x \<Rightarrow> Fin (- x) | PInf \<Rightarrow> NInf | NInf \<Rightarrow> PInf | NaN \<Rightarrow> NaN)"

definition dadd :: "double \<Rightarrow> double \<Rightarrow> double" where
  "dadd a b =
     (case a of
        NaN \<Rightarrow> NaN
      | Fin x \<Rightarrow> (case b of Fin y \<Rightarrow> round_to_double (x + y) | PInf \<Rightarrow> PInf | NInf \<Rightarrow> NInf | NaN \<Rightarrow> NaN)
      | PInf \<Rightarrow> (case b of Fin y \<Rightarrow> PInf | PInf \<Rightarrow> PInf | NInf \<Rightarrow> NaN | NaN \<Rightarrow> NaN)
      | NInf \<Rightarrow> (case b of Fin y \<Rightarrow> NInf | PInf \<Rightarrow> NaN | NInf \<Rightarrow> NInf | NaN \<Rightarrow> NaN))"

definition dsub :: "double \<Rightarrow> double \<Rightarrow> double" where
  "dsub a b = dadd a (dneg b)"

definition dsign :: "double \<Rightarrow> int" where
  "dsign a = (case a of Fin x \<Rightarrow> (if 0 < x then 1 else if x < 0 then - 1 else 0)
              | PInf \<Rightarrow> 1 | NInf \<Rightarrow> - 1 | NaN \<Rightarrow> 0)"

definition dinf :: "int \<Rightarrow> double" where
  "dinf s = (if 0 < s then PInf else if s < 0 then NInf else NaN)"

definition dmul :: "double \<Rightarrow> double \<Rightarrow> double" where
  "dmul a b =
     (case a of
        NaN \<Rightarrow> NaN
      | Fin x \<Rightarrow> (case b of Fin y \<Rightarrow> round_to_double (x * y) | NaN \<Rightarrow> NaN
                  | PInf \<Rightarrow> dinf (dsign a) | NInf \<Rightarrow> dinf (- dsign a))
      | PInf \<Rightarrow> (case b of NaN \<Rightarrow> NaN | Fin y \<Rightarrow> dinf (dsign b) | PInf \<Rightarrow> PInf | NInf \<Rightarrow> NInf)
      | NInf \<Rightarrow> (case b of NaN \<Rightarrow> NaN | Fin y \<Rightarrow> dinf (- dsign b) | PInf \<Rightarrow> NInf | NInf \<Rightarrow> PInf))"

definition ddiv :: "double \<Rightarrow> double \<Rightarrow> double" where
  "ddiv a b =
     (case a of
        NaN \<Rightarrow> NaN
      | Fin x \<Rightarrow> (case b of
                    Fin y \<Rightarrow> (if y = 0 then dinf (dsign a) else round_to_double (x / y))
                  | NaN \<Rightarrow> NaN | PInf \<Rightarrow> Fin 0 | NInf \<Rightarrow> Fin 0)
      | PInf \<Rightarrow> (case b of Fin y \<Rightarrow> (if y < 0 then NInf else PInf) | other \<Rightarrow> NaN)
      | NInf \<Rightarrow> (case b of Fin y \<Rightarrow> (if y < 0 then PInf else NInf) | other \<Rightarrow> NaN))"

definition dlt :: "double \<Rightarrow> double \<Rightarrow> bool" where
  "dlt a b =
     (case a of
        NaN \<Rightarrow> False
      | Fin x \<Rightarrow> (case b of Fin y \<Rightarrow> x < y | PInf \<Rightarrow> True | other \<Rightarrow> False)
      | NInf \<Rightarrow> (case b of Fin y \<Rightarrow> True | PInf \<Rightarrow> True | other \<Rightarrow> False)
      | PInf \<Rightarrow> False)"

definition dle :: "double \<Rightarrow> double \<Rightarrow> bool" where
  "dle a b = (a \<noteq> NaN \<and> b \<noteq> NaN \<and> (a = b \<or> dlt a b))"

definition number_of_nat :: "nat \<Rightarrow> double" where
  "number_of_nat n = Fin (of_nat n)"

definition truthy_num :: "double \<Rightarrow> bool" where
  "truthy_num a = (a \<noteq> NaN \<and> a \<noteq> Fin 0)"

definition dmin :: "double \<Rightarrow> double \<Rightarrow> double" where
  "dmin a b = (if dlt b a then b else a)"

definition dmax :: "double \<Rightarrow> double \<Rightarrow> double" where
  "dmax a b = (if dlt a b then b else a)"

text \<open>\<^verbatim>\<open>Math.PI\<close>, the double nearest to \<open>\<pi>\<close>, is \<open>884279719003555 / 2 ^ 48\<close>.\<close>

definition Math_PI :: double where
  "Math_PI = Fin (884279719003555 / 281474976710656)"

section \<open>Objects\<close>

type_synonym marker_id = nat
type_synonym map_id = nat

datatype error = TypeError

record LatLng =
  lat :: double
  lng :: double

record Point =
  Point_x :: double
  Point_y :: double

record LatLngBounds =
  sw :: LatLng
  ne :: LatLng

record IconStyle =
  url :: "string option"
  height :: "double option"
  width :: "double option"
  anchor :: "double list option"
  textColor :: "string option"
  textSize :: "double option"
  backgroundPosition :: "string option"
  iconAnchor :: "double list option"

datatype str_or_num = Str string | Num nat

record Sum =
  sum_text :: str_or_num
  sum_index :: int

record ClusterMarker =
  position :: LatLng
  isAdded :: bool
  marker_map :: "map_id option"
  draggable :: bool

type_synonym store = "marker_id \<Rightarrow> ClusterMarker"

type_synonym SumCalculatorFunc = "ClusterMarker list \<Rightarrow> nat \<Rightarrow> Sum"

record host =
  map_getZoom :: int
  map_getBounds :: LatLngBounds
  fromLatLngToDivPixel :: "LatLng \<Rightarrow> Point"
  fromDivPixelToLatLng :: "Point \<Rightarrow> LatLng"
  bounds_extend :: "LatLngBounds \<Rightarrow> LatLng \<Rightarrow> LatLngBounds"
  bounds_contains :: "LatLngBounds \<Rightarrow> LatLng \<Rightarrow> bool"
  math_sin :: "rat \<Rightarrow> double"
  math_cos :: "rat \<Rightarrow> double"
  math_sqrt :: "rat \<Rightarrow> double"
  math_atan2 :: "double \<Rightarrow> double \<Rightarrow> double"

record ClusterIcon =
  icon_styles :: "IconStyle list"
  currentStyle :: "IconStyle option"
  icon_padding :: double
  icon_center :: "LatLng option"
  icon_map :: map_id
  icon_sum :: "Sum option"
  icon_visible :: bool
  icon_attached :: "map_id option"

record Cluster =
  c_map :: map_id
  c_gridSize :: double
  c_minClusterSize :: int
  c_averageCenter :: bool
  c_center :: "LatLng option"
  c_markers :: "marker_id list option"
  c_bounds :: "LatLngBounds option"
  c_clusterIcon :: ClusterIcon

record MarkerClusterer =
  gmap :: map_id
  markers :: "marker_id list"
  clusters :: "Cluster list"
  sizes :: "double list"
  ready :: bool
  prevZoom :: int
  sumCalculatorFunc :: SumCalculatorFunc
  gridSize :: double
  minClusterSize :: int
  maxZoom :: "int option"
  imagePath :: string
  imageExtension :: string
  zoomOnClick :: bool
  averageCenter :: bool
  styles :: "IconStyle list"

text \<open>
  A pluggable assignment strategy receives the marker, the cluster array and the owning
  clusterer; it may update clusters and markers.  The clusterer's field
  \<^verbatim>\<open>clusterizerFunc\<close> is passed to the engine operations as a parameter.
\<close>

type_synonym ClusterizerFunc =
  "host \<Rightarrow> marker_id \<Rightarrow> Cluster list \<Rightarrow> MarkerClusterer \<Rightarrow> store \<Rightarrow> error + (Cluster list \<times> store)"

section \<open>Markers\<close>

definition Marker_setMap :: "marker_id \<Rightarrow> map_id option \<Rightarrow> store \<Rightarrow> store" where
  "Marker_setMap m mp st = st(m := (st m)\<lparr>marker_map := mp\<rparr>)"

definition set_isAdded :: "marker_id \<Rightarrow> bool \<Rightarrow> store \<Rightarrow> store" where
  "set_isAdded m b st = st(m := (st m)\<lparr>isAdded := b\<rparr>)"

section \<open>ClusterIcon\<close>

definition ClusterIcon_constructor :: "map_id \<Rightarrow> IconStyle list \<Rightarrow> double \<Rightarrow> ClusterIcon" where
  "ClusterIcon_constructor cluster_map stys padding =
     \<lparr>icon_styles = stys, currentStyle = None, icon_padding = padding,
      icon_center = None, icon_map = cluster_map, icon_sum = None,
      icon_visible = False, icon_attached = Some cluster_map\<rparr>"

definition ClusterIcon_hide :: "ClusterIcon \<Rightarrow> ClusterIcon" where
  "ClusterIcon_hide ic = ic\<lparr>icon_visible := False\<rparr>"

definition ClusterIcon_show :: "ClusterIcon \<Rightarrow> ClusterIcon" where
  "ClusterIcon_show ic = ic\<lparr>icon_visible := True\<rparr>"

definition ClusterIcon_remove :: "ClusterIcon \<Rightarrow> ClusterIcon" where
  "ClusterIcon_remove ic = ic\<lparr>icon_attached := None\<rparr>"

definition useStyle :: "ClusterIcon \<Rightarrow> Sum \<Rightarrow> ClusterIcon" where
  "useStyle ic s =
     (let index0 = max 0 (sum_index s - 1);
          index1 = min (int (length (icon_styles ic)) - 1) index0
      in ic\<lparr>currentStyle :=
              (if 0 \<le> index1 \<and> index1 < int (length (icon_styles ic))
               then Some (icon_styles ic ! nat index1) else None)\<rparr>)"

definition setSum :: "ClusterIcon \<Rightarrow> Sum \<Rightarrow> ClusterIcon" where
  "setSum ic s = useStyle (ic\<lparr>icon_sum := Some s\<rparr>) s"

definition setCenter :: "ClusterIcon \<Rightarrow> LatLng option \<Rightarrow> ClusterIcon" where
  "setCenter ic c = ic\<lparr>icon_center := c\<rparr>"

section \<open>Cluster\<close>

definition Cluster_constructor :: "MarkerClusterer \<Rightarrow> Cluster" where
  "Cluster_constructor mc =
     \<lparr>c_map = gmap mc, c_gridSize = gridSize mc, c_minClusterSize = minClusterSize mc,
      c_averageCenter = averageCenter mc, c_center = None, c_markers = Some [],
      c_bounds = None,
      c_clusterIcon = ClusterIcon_constructor (gmap mc) (styles mc) (gridSize mc)\<rparr>"

definition isMarkerAlreadyAdded :: "Cluster \<Rightarrow> marker_id \<Rightarrow> error + bool" where
  "isMarkerAlreadyAdded c m =
     (case c_markers c of None \<Rightarrow> Inl TypeError | Some ms \<Rightarrow> Inr (m \<in> set ms))"

definition getExtendedBounds :: "host \<Rightarrow> MarkerClusterer \<Rightarrow> LatLngBounds \<Rightarrow> LatLngBounds" where
  "getExtendedBounds h mc bounds =
     (let tr = \<lparr>lat = lat (ne bounds), lng = lng (ne bounds)\<rparr>;
          bl = \<lparr>lat = lat (sw bounds), lng = lng (sw bounds)\<rparr>;
          trPix0 = fromLatLngToDivPixel h tr;
          trPix = \<lparr>Point_x = dadd (Point_x trPix0) (gridSize mc),
                   Point_y = dsub (Point_y trPix0) (gridSize mc)\<rparr>;
          blPix0 = fromLatLngToDivPixel h bl;
          blPix = \<lparr>Point_x = dsub (Point_x blPix0) (gridSize mc),
                   Point_y = dadd (Point_y blPix0) (gridSize mc)\<rparr>;
          ne1 = fromDivPixelToLatLng h trPix;
          sw1 = fromDivPixelToLatLng h blPix
      in bounds_extend h (bounds_extend h bounds ne1) sw1)"

definition calculateBounds :: "host \<Rightarrow> MarkerClusterer \<Rightarrow> LatLng \<Rightarrow> LatLngBounds" where
  "calculateBounds h mc center = getExtendedBounds h mc \<lparr>sw = center, ne = center\<rparr>"

definition Cluster_updateIcon ::
  "host \<Rightarrow> MarkerClusterer \<Rightarrow> Cluster \<times> store \<Rightarrow> error + (Cluster \<times> store)" where
  "Cluster_updateIcon h mc cs =
     (case cs of (c, st) \<Rightarrow>
        let zoom = map_getZoom h; mz = maxZoom mc in
        if (case mz of None \<Rightarrow> False | Some z \<Rightarrow> z \<noteq> 0 \<and> zoom > z) then
          (case c_markers c of
             None \<Rightarrow> Inl TypeError
           | Some ms \<Rightarrow> Inr (c, fold (\<lambda>marker. Marker_setMap marker (Some (c_map c))) ms st))
        else
          (case c_markers c of
             None \<Rightarrow> Inl TypeError
           | Some ms \<Rightarrow>
               if int (length ms) < c_minClusterSize c then
                 Inr (c\<lparr>c_clusterIcon := ClusterIcon_hide (c_clusterIcon c)\<rparr>, st)
               else
                 let numStyles = length (styles mc);
                     s = sumCalculatorFunc mc (map st ms) numStyles;
                     ic1 = setCenter (c_clusterIcon c) (c_center c);
                     ic2 = setSum ic1 s;
                     ic3 = ClusterIcon_show ic2
                 in Inr (c\<lparr>c_clusterIcon := ic3\<rparr>, st)))"

definition Cluster_addMarker ::
  "host \<Rightarrow> MarkerClusterer \<Rightarrow> marker_id \<Rightarrow> Cluster \<times> store \<Rightarrow> error + (bool \<times> Cluster \<times> store)" where
  "Cluster_addMarker h mc marker cs =
     (case cs of (c, st) \<Rightarrow>
        (case isMarkerAlreadyAdded c marker of
          Inl e \<Rightarrow> Inl e
        | Inr True \<Rightarrow> Inr (False, c, st)
        | Inr False \<Rightarrow>
           (case c_markers c of
              None \<Rightarrow> Inl TypeError
            | Some ms \<Rightarrow>
                let pos = position (st marker);
                    c1 = (case c_center c of
                            None \<Rightarrow> c\<lparr>c_center := Some pos, c_bounds := Some (calculateBounds h mc pos)\<rparr>
                          | Some ctr \<Rightarrow>
                              if c_averageCenter c then
                                let l = dadd (number_of_nat (length ms)) (Fin 1);
                                    lat1 = ddiv (dadd (dmul (lat ctr) (dsub l (Fin 1))) (lat pos)) l;
                                    lng1 = ddiv (dadd (dmul (lng ctr) (dsub l (Fin 1))) (lng pos)) l;
                                    ctr1 = \<lparr>lat = lat1, lng = lng1\<rparr>
                                in c\<lparr>c_center := Some ctr1, c_bounds := Some (calculateBounds h mc ctr1)\<rparr>
                              else c);
                    st1 = set_isAdded marker True st;
                    ms1 = ms @ [marker];
                    c2 = c1\<lparr>c_markers := Some ms1\<rparr>;
                    len = int (length ms1);
                    st2 = (if len < c_minClusterSize c2 \<and> marker_map (st1 marker) \<noteq> Some (c_map c2)
                           then Marker_setMap marker (Some (c_map c2)) st1 else st1);
                    st3 = (if len = c_minClusterSize c2
                           then fold (\<lambda>mk. Marker_setMap mk None) ms1 st2 else st2);
                    st4 = (if len \<ge> c_minClusterSize c2 then Marker_setMap marker None st3 else st3)
                in (case Cluster_updateIcon h mc (c2, st4) of
                      Inl e \<Rightarrow> Inl e
                    | Inr (c3, st5) \<Rightarrow> Inr (True, c3, st5)))))"

definition Cluster_remove :: "Cluster \<Rightarrow> error + Cluster" where
  "Cluster_remove c =
     (let c1 = c\<lparr>c_clusterIcon := ClusterIcon_remove (c_clusterIcon c)\<rparr>
      in case c_markers c1 of
           None \<Rightarrow> Inl TypeError
         | Some ms \<Rightarrow> Inr (c1\<lparr>c_markers := None\<rparr>))"

definition getSize :: "Cluster \<Rightarrow> error + nat" where
  "getSize c = (case c_markers c of None \<Rightarrow> Inl TypeError | Some ms \<Rightarrow> Inr (length ms))"

definition isMarkerInClusterBounds :: "host \<Rightarrow> Cluster \<Rightarrow> ClusterMarker \<Rightarrow> error + bool" where
  "isMarkerInClusterBounds h c mk =
     (case c_bounds c of
        None \<Rightarrow> Inl TypeError
      | Some b \<Rightarrow> Inr (bounds_contains h b (position mk)))"

section \<open>Default summary calculator\<close>

text \<open>
  \<^verbatim>\<open>DEFAULT_SUMCALCULATOR_FUNCTION\<close> divides \<^verbatim>\<open>dv\<close> by ten with the
  JavaScript operator \<^verbatim>\<open>/\<close>, a division of IEEE-754 doubles, until \<^verbatim>\<open>dv\<close> is
  zero.  Every finite non-negative double is a whole multiple of \<open>2 ^ -1074\<close>, the smallest
  subnormal, so a double is represented by its number of such units, a natural number.
  Measured in units, the doubles below \<open>2 ^ 53\<close> are spaced by one unit (subnormals and the
  first binade of normals), and those in \<open>[2 ^ (52 + j), 2 ^ (53 + j))\<close> by \<open>2 ^ j\<close>
  units.  The quotient of a double by ten is the exact quotient rounded to the nearest
  double, ties to the even one.
\<close>

definition round_half_even :: "nat \<Rightarrow> nat \<Rightarrow> nat" where
  "round_half_even a b =
     (let q = a div b; r = a mod b
      in if 2 * r < b then q else if 2 * r > b then q + 1 else if even q then q else q + 1)"

definition double_div10 :: "nat \<Rightarrow> nat" where
  "double_div10 m =
     (let j = floorlog 2 (m div 10) - 53
      in 2 ^ j * round_half_even m (10 * 2 ^ j))"

definition double_of_nat :: "nat \<Rightarrow> nat" where
  "double_of_nat n = n * 2 ^ 1074"

lemma round_half_even_le: "round_half_even a b \<le> a div b + 1"
  by (simp add: round_half_even_def Let_def)

lemma double_div10_less:
  assumes "m \<noteq> 0"
  shows "double_div10 m < m"
proof (cases "floorlog 2 (m div 10) \<le> 53")
  case True
  then have j: "floorlog 2 (m div 10) - 53 = 0" by simp
  have "round_half_even m 10 < m"
  proof (cases "m < 10")
    case True
    then have "m div 10 = 0" "m mod 10 = m" by simp_all
    then show ?thesis using assms by (simp add: round_half_even_def Let_def)
  next
    case False
    then show ?thesis using round_half_even_le [of m 10] by linarith
  qed
  then show ?thesis by (simp add: double_div10_def j)
next
  case False
  define q where "q = m div 10"
  define j where "j = floorlog 2 q - 53"
  from False have jpos: "53 + j = floorlog 2 q" and "0 < j"
    by (simp_all add: j_def q_def)
  have "q \<noteq> 0"
  proof
    assume "q = 0"
    then have "floorlog 2 (m div 10) = 0" by (simp add: q_def floorlog_def)
    with False show False by simp
  qed
  then have "2 ^ (floorlog 2 q - 1) \<le> q"
    using floorlog_bounds [of q 2] by simp
  moreover have "(2::nat) ^ j \<le> 2 ^ (floorlog 2 q - 1)"
    using jpos by (intro power_increasing) simp_all
  ultimately have pj: "2 ^ j \<le> q" by linarith
  have "m div (10 * 2 ^ j) = q div 2 ^ j"
    by (simp add: q_def div_mult2_eq)
  then have "round_half_even m (10 * 2 ^ j) \<le> q div 2 ^ j + 1"
    using round_half_even_le [of m "10 * 2 ^ j"] by simp
  then have "2 ^ j * round_half_even m (10 * 2 ^ j) \<le> 2 ^ j * (q div 2 ^ j + 1)"
    by (rule mult_le_mono2)
  also have "\<dots> = 2 ^ j * (q div 2 ^ j) + 2 ^ j" by (simp add: algebra_simps)
  also have "\<dots> \<le> q + q" using pj by (intro add_mono) simp_all
  also have "\<dots> < m" using \<open>q \<noteq> 0\<close> by (simp add: q_def)
  finally show ?thesis by (simp add: double_div10_def j_def q_def Let_def)
qed

function sumcalc_loop :: "nat \<Rightarrow> nat \<Rightarrow> nat" where
  "sumcalc_loop dv index =
     (if dv \<noteq> 0 then sumcalc_loop (double_div10 dv) (index + 1) else index)"
  by pat_completeness auto
termination
  by (relation "measure fst") (auto simp: double_div10_less)

declare sumcalc_loop.simps [simp del]


definition DEFAULT_SUMCALCULATOR_FUNCTION :: SumCalculatorFunc where
  "DEFAULT_SUMCALCULATOR_FUNCTION mks numStyles =
     (let index = sumcalc_loop (double_of_nat (length mks)) 0
      in \<lparr>sum_text = Num (length mks), sum_index = int (min index numStyles)\<rparr>)"

section \<open>Default assignment strategy\<close>

text \<open>
  \<^verbatim>\<open>Math.sin\<close>, \<^verbatim>\<open>Math.cos\<close>, \<^verbatim>\<open>Math.sqrt\<close> and \<^verbatim>\<open>Math.atan2\<close>
  return implementation-approximated values, which the host supplies; the cases that the
  language fixes are written out: a \<^verbatim>\<open>NaN\<close> or infinite argument of the sine and the
  cosine gives \<^verbatim>\<open>NaN\<close>, the sine of zero is zero and the cosine of zero is one; the
  square root of \<^verbatim>\<open>NaN\<close> or of a negative number is \<^verbatim>\<open>NaN\<close>, that of zero is
  zero and that of \<open>+\<infinity>\<close> is \<open>+\<infinity>\<close>; \<^verbatim>\<open>atan2\<close> of a \<^verbatim>\<open>NaN\<close>
  argument is \<^verbatim>\<open>NaN\<close>.
\<close>

definition Math_sin :: "host \<Rightarrow> double \<Rightarrow> double" where
  "Math_sin h x = (case x of Fin q \<Rightarrow> (if q = 0 then Fin 0 else math_sin h q) | other \<Rightarrow> NaN)"

definition Math_cos :: "host \<Rightarrow> double \<Rightarrow> double" where
  "Math_cos h x = (case x of Fin q \<Rightarrow> (if q = 0 then Fin 1 else math_cos h q) | other \<Rightarrow> NaN)"

definition Math_sqrt :: "host \<Rightarrow> double \<Rightarrow> double" where
  "Math_sqrt h x =
     (case x of
        Fin q \<Rightarrow> (if q < 0 then NaN else if q = 0 then Fin 0 else math_sqrt h q)
      | PInf \<Rightarrow> PInf
      | other \<Rightarrow> NaN)"

definition Math_atan2 :: "host \<Rightarrow> double \<Rightarrow> double \<Rightarrow> double" where
  "Math_atan2 h y x = (if y = NaN \<or> x = NaN then NaN else math_atan2 h y x)"

text \<open>
  \<^verbatim>\<open>distanceBetweenPoints\<close>, the local function of
  \<^verbatim>\<open>DEFAULT_CLUSTERIZER_FUNCTION\<close>, with every operation in the order the code
  evaluates it.  A missing point (\<^verbatim>\<open>null\<close>) is \<open>None\<close>.  \<open>haversine_a\<close> is the
  local \<^verbatim>\<open>a\<close>.
\<close>

definition haversine_a :: "host \<Rightarrow> LatLng \<Rightarrow> LatLng \<Rightarrow> double" where
  "haversine_a h p1 p2 =
     (let dLat = ddiv (dmul (dsub (lat p2) (lat p1)) Math_PI) (Fin 180);
          dLon = ddiv (dmul (dsub (lng p2) (lng p1)) Math_PI) (Fin 180)
      in dadd (dmul (Math_sin h (ddiv dLat (Fin 2))) (Math_sin h (ddiv dLat (Fin 2))))
              (dmul (dmul (dmul (Math_cos h (ddiv (dmul (lat p1) Math_PI) (Fin 180)))
                                (Math_cos h (ddiv (dmul (lat p2) Math_PI) (Fin 180))))
                          (Math_sin h (ddiv dLon (Fin 2))))
                    (Math_sin h (ddiv dLon (Fin 2)))))"

definition distanceBetweenPoints :: "host \<Rightarrow> LatLng option \<Rightarrow> LatLng option \<Rightarrow> double" where
  "distanceBetweenPoints h p1o p2o =
     (case p1o of
        None \<Rightarrow> Fin 0
      | Some p1 \<Rightarrow>
          (case p2o of
             None \<Rightarrow> Fin 0
           | Some p2 \<Rightarrow>
               let R = Fin 6371;
                   a = haversine_a h p1 p2;
                   c = dmul (Fin 2) (Math_atan2 h (Math_sqrt h a) (Math_sqrt h (dsub (Fin 1) a)))
               in dmul R c))"

text \<open>
  The \<^verbatim>\<open>forEach\<close> over the clusters.  The accumulator is the pair of the local
  variables \<^verbatim>\<open>distance\<close> and \<^verbatim>\<open>clusterToAddTo\<close>; a cluster object is named by its
  index in the array, \<open>i\<close> being the index of the head of the list still to scan.
\<close>

fun nearest_scan ::
  "host \<Rightarrow> LatLng \<Rightarrow> Cluster list \<Rightarrow> nat \<Rightarrow> double \<times> nat option \<Rightarrow> double \<times> nat option" where
  "nearest_scan h pos [] i acc = acc"
| "nearest_scan h pos (cluster # rest) i (distance, clusterToAddTo) =
     (case c_center cluster of
        None \<Rightarrow> nearest_scan h pos rest (i + 1) (distance, clusterToAddTo)
      | Some center \<Rightarrow>
          let d = distanceBetweenPoints h (Some center) (Some pos)
          in if dlt d distance then nearest_scan h pos rest (i + 1) (d, Some i)
             else nearest_scan h pos rest (i + 1) (distance, clusterToAddTo))"

definition DEFAULT_CLUSTERIZER_FUNCTION :: ClusterizerFunc where
  "DEFAULT_CLUSTERIZER_FUNCTION h marker cls mc st =
     (let clusterToAddTo = snd (nearest_scan h (position (st marker)) cls 0 (Fin 40000, None));
          cond = (case clusterToAddTo of
                    None \<Rightarrow> Inr None
                  | Some i \<Rightarrow>
                      (case isMarkerInClusterBounds h (cls ! i) (st marker) of
                         Inl e \<Rightarrow> Inl e
                       | Inr b \<Rightarrow> Inr (if b then Some i else None)))
      in case cond of
           Inl e \<Rightarrow> Inl e
         | Inr (Some i) \<Rightarrow>
             (case Cluster_addMarker h mc marker (cls ! i, st) of
                Inl e \<Rightarrow> Inl e
              | Inr (r, c1, st1) \<Rightarrow> Inr (cls[i := c1], st1))
         | Inr None \<Rightarrow>
             (case Cluster_addMarker h mc marker (Cluster_constructor mc, st) of
                Inl e \<Rightarrow> Inl e
              | Inr (r, c1, st1) \<Rightarrow> Inr (cls @ [c1], st1)))"

section \<open>MarkerClusterer\<close>

record MarkerClustererOptions =
  opt_gridSize :: "double option"
  opt_maxZoom :: "int option"
  opt_minClusterSize :: "int option"
  opt_imagePath :: "string option"
  opt_imageExtension :: "string option"
  opt_zoomOnClick :: "bool option"
  opt_averageCenter :: "bool option"
  opt_styles :: "IconStyle list option"

text \<open>
  The JavaScript expression \<^verbatim>\<open>a || b\<close> is \<^verbatim>\<open>a\<close> when \<^verbatim>\<open>a\<close> is truthy and
  \<^verbatim>\<open>b\<close> otherwise.  A missing property (\<open>None\<close>), the numbers zero and \<^verbatim>\<open>NaN\<close>,
  the empty string and \<^verbatim>\<open>false\<close> are falsy; every array is truthy.
\<close>

definition or_number :: "double option \<Rightarrow> double \<Rightarrow> double" where
  "or_number a b = (case a of None \<Rightarrow> b | Some v \<Rightarrow> if truthy_num v then v else b)"

definition or_int :: "int option \<Rightarrow> int \<Rightarrow> int" where
  "or_int a b = (case a of None \<Rightarrow> b | Some v \<Rightarrow> if v \<noteq> 0 then v else b)"

definition or_int_null :: "int option \<Rightarrow> int option \<Rightarrow> int option" where
  "or_int_null a b = (case a of None \<Rightarrow> b | Some v \<Rightarrow> if v \<noteq> 0 then Some v else b)"

definition or_string :: "string option \<Rightarrow> string \<Rightarrow> string" where
  "or_string a b = (case a of None \<Rightarrow> b | Some v \<Rightarrow> if v \<noteq> [] then v else b)"

definition or_bool :: "bool option \<Rightarrow> bool \<Rightarrow> bool" where
  "or_bool a b = (case a of None \<Rightarrow> b | Some v \<Rightarrow> if v then v else b)"

definition or_array :: "'a list option \<Rightarrow> 'a list \<Rightarrow> 'a list" where
  "or_array a b = (case a of None \<Rightarrow> b | Some v \<Rightarrow> v)"

definition DEFAULT_MARKERCLUSTER_OPTIONS :: MarkerClustererOptions where
  "DEFAULT_MARKERCLUSTER_OPTIONS =
     \<lparr>opt_gridSize = Some (Fin 60), opt_maxZoom = None, opt_minClusterSize = Some 2,
      opt_imagePath = Some ''../images/m'', opt_imageExtension = Some ''png'',
      opt_zoomOnClick = Some True, opt_averageCenter = Some True, opt_styles = Some []\<rparr>"

fun string_of_nat :: "nat \<Rightarrow> string" where
  "string_of_nat n =
     (if n < 10 then [char_of (48 + n)]
      else string_of_nat (n div 10) @ [char_of (48 + n mod 10)])"

declare string_of_nat.simps [simp del]

definition setupStyles :: "MarkerClusterer \<Rightarrow> MarkerClusterer" where
  "setupStyles mc =
     (if length (styles mc) > 0 then mc
      else mc\<lparr>styles := styles mc @
             map (\<lambda>(sizeNumber, idx).
                    \<lparr>url = Some (imagePath mc @ string_of_nat (idx + 1) @ ''.'' @ imageExtension mc),
                     height = Some sizeNumber, width = Some sizeNumber, anchor = None,
                     textColor = None, textSize = None, backgroundPosition = None,
                     iconAnchor = None\<rparr>)
                 (zip (sizes mc) [0..<length (sizes mc)])\<rparr>)"

definition isMarkerInBounds :: "host \<Rightarrow> ClusterMarker \<Rightarrow> LatLngBounds \<Rightarrow> bool" where
  "isMarkerInBounds h mk bounds = bounds_contains h bounds (position mk)"

text \<open>
  \<^verbatim>\<open>pushMarkerTo\<close> also registers a \<^verbatim>\<open>dragend\<close> listener on a draggable marker;
  the listener resets the marker's flag and calls \<^verbatim>\<open>repaint\<close>.  The registration is
  event wiring of the host and leaves the clusterer's state as it is.
\<close>

definition pushMarkerTo :: "marker_id \<Rightarrow> MarkerClusterer \<times> store \<Rightarrow> MarkerClusterer \<times> store" where
  "pushMarkerTo marker s =
     (case s of (mc, st) \<Rightarrow> (mc\<lparr>markers := markers mc @ [marker]\<rparr>, set_isAdded marker False st))"

definition addToClosestCluster ::
  "ClusterizerFunc \<Rightarrow> host \<Rightarrow> marker_id \<Rightarrow> MarkerClusterer \<times> store \<Rightarrow> error + (MarkerClusterer \<times> store)" where
  "addToClosestCluster cf h marker s =
     (case s of (mc, st) \<Rightarrow>
        (case cf h marker (clusters mc) mc st of
           Inl e \<Rightarrow> Inl e
         | Inr (cls, st1) \<Rightarrow> Inr (mc\<lparr>clusters := cls\<rparr>, st1)))"

fun createClusters_loop ::
  "ClusterizerFunc \<Rightarrow> host \<Rightarrow> LatLngBounds \<Rightarrow> marker_id list \<Rightarrow> MarkerClusterer \<times> store \<Rightarrow>
   error + (MarkerClusterer \<times> store)" where
  "createClusters_loop cf h bounds [] s = Inr s"
| "createClusters_loop cf h bounds (marker # rest) s =
     (if \<not> isAdded (snd s marker) \<and> isMarkerInBounds h (snd s marker) bounds then
        (case addToClosestCluster cf h marker s of
           Inl e \<Rightarrow> Inl e
         | Inr s1 \<Rightarrow> createClusters_loop cf h bounds rest s1)
      else createClusters_loop cf h bounds rest s)"

definition createClusters ::
  "ClusterizerFunc \<Rightarrow> host \<Rightarrow> MarkerClusterer \<times> store \<Rightarrow> error + (MarkerClusterer \<times> store)" where
  "createClusters cf h s =
     (case s of (mc, st) \<Rightarrow>
        if \<not> ready mc then Inr (mc, st)
        else
          let mapBounds = \<lparr>sw = sw (map_getBounds h), ne = ne (map_getBounds h)\<rparr>;
              bounds = getExtendedBounds h mc mapBounds
          in createClusters_loop cf h bounds (markers mc) (mc, st))"

definition redraw ::
  "ClusterizerFunc \<Rightarrow> host \<Rightarrow> MarkerClusterer \<times> store \<Rightarrow> error + (MarkerClusterer \<times> store)" where
  "redraw cf h s = createClusters cf h s"

definition MarkerClusterer_addMarkers ::
  "ClusterizerFunc \<Rightarrow> host \<Rightarrow> marker_id list \<Rightarrow> bool \<Rightarrow> MarkerClusterer \<times> store \<Rightarrow>
   error + (MarkerClusterer \<times> store)" where
  "MarkerClusterer_addMarkers cf h mks noRedraw s =
     (let s1 = fold pushMarkerTo mks s
      in if \<not> noRedraw then redraw cf h s1 else Inr s1)"

definition MarkerClusterer_addMarker ::
  "ClusterizerFunc \<Rightarrow> host \<Rightarrow> marker_id \<Rightarrow> bool \<Rightarrow> MarkerClusterer \<times> store \<Rightarrow>
   error + (MarkerClusterer \<times> store)" where
  "MarkerClusterer_addMarker cf h marker noRedraw s =
     (let s1 = pushMarkerTo marker s
      in if \<not> noRedraw then redraw cf h s1 else Inr s1)"

text \<open>
  \<^verbatim>\<open>removeMarker_\<close>: \<^verbatim>\<open>indexOf\<close> finds the first occurrence by identity and
  \<^verbatim>\<open>splice(index, 1)\<close> removes that element, which is \<open>remove1\<close>.
\<close>

definition removeMarker_private ::
  "marker_id \<Rightarrow> MarkerClusterer \<times> store \<Rightarrow> bool \<times> MarkerClusterer \<times> store" where
  "removeMarker_private marker s =
     (case s of (mc, st) \<Rightarrow>
        if marker \<notin> set (markers mc) then (False, mc, st)
        else (True, mc\<lparr>markers := remove1 marker (markers mc)\<rparr>, Marker_setMap marker None st))"

fun remove_each :: "Cluster list \<Rightarrow> error + Cluster list" where
  "remove_each [] = Inr []"
| "remove_each (cluster # rest) =
     (case Cluster_remove cluster of
        Inl e \<Rightarrow> Inl e
      | Inr c1 \<Rightarrow> (case remove_each rest of Inl e \<Rightarrow> Inl e | Inr cs \<Rightarrow> Inr (c1 # cs)))"

definition resetViewport ::
  "bool \<Rightarrow> MarkerClusterer \<times> store \<Rightarrow> error + (MarkerClusterer \<times> store)" where
  "resetViewport hideMarker s =
     (case s of (mc, st) \<Rightarrow>
        (case remove_each (clusters mc) of
           Inl e \<Rightarrow> Inl e
         | Inr removed \<Rightarrow>
             let st1 = fold (\<lambda>marker st0.
                               let st2 = set_isAdded marker False st0
                               in if hideMarker then Marker_setMap marker None st2 else st2)
                            (markers mc) st
             in Inr (mc\<lparr>clusters := []\<rparr>, st1)))"

definition MarkerClusterer_removeMarker ::
  "ClusterizerFunc \<Rightarrow> host \<Rightarrow> marker_id \<Rightarrow> bool \<Rightarrow> MarkerClusterer \<times> store \<Rightarrow>
   error + (bool \<times> MarkerClusterer \<times> store)" where
  "MarkerClusterer_removeMarker cf h marker noRedraw s =
     (case removeMarker_private marker s of (removed, s1) \<Rightarrow>
        if \<not> noRedraw \<and> removed then
          (case resetViewport False s1 of
             Inl e \<Rightarrow> Inl e
           | Inr s2 \<Rightarrow>
               (case redraw cf h s2 of
                  Inl e \<Rightarrow> Inl e
                | Inr s3 \<Rightarrow> Inr (True, s3)))
        else Inr (False, s1))"

definition MarkerClusterer_removeMarkers ::
  "ClusterizerFunc \<Rightarrow> host \<Rightarrow> marker_id list \<Rightarrow> bool \<Rightarrow> MarkerClusterer \<times> store \<Rightarrow>
   error + (MarkerClusterer \<times> store)" where
  "MarkerClusterer_removeMarkers cf h mks noRedraw s =
     (case fold (\<lambda>marker (removed, s0).
                   case removeMarker_private marker s0 of (r, s1) \<Rightarrow> (removed \<or> r, s1))
                mks (False, s) of
        (removed, s1) \<Rightarrow>
          if \<not> noRedraw \<and> removed then
            (case resetViewport False s1 of
               Inl e \<Rightarrow> Inl e
             | Inr s2 \<Rightarrow> redraw cf h s2)
          else Inr s1)"

definition setReady ::
  "ClusterizerFunc \<Rightarrow> host \<Rightarrow> bool \<Rightarrow> MarkerClusterer \<times> store \<Rightarrow> error + (MarkerClusterer \<times> store)" where
  "setReady cf h rdy s =
     (case s of (mc, st) \<Rightarrow>
        if \<not> ready mc then createClusters cf h (mc\<lparr>ready := rdy\<rparr>, st) else Inr (mc, st))"

definition onAdd ::
  "ClusterizerFunc \<Rightarrow> host \<Rightarrow> MarkerClusterer \<times> store \<Rightarrow> error + (MarkerClusterer \<times> store)" where
  "onAdd cf h s = setReady cf h True s"

definition clearMarkers :: "MarkerClusterer \<times> store \<Rightarrow> error + (MarkerClusterer \<times> store)" where
  "clearMarkers s =
     (case resetViewport True s of
        Inl e \<Rightarrow> Inl e
      | Inr (mc, st) \<Rightarrow> Inr (mc\<lparr>markers := []\<rparr>, st))"

text \<open>
  \<^verbatim>\<open>repaint\<close> also hands the snapshot of the old clusters to a timer; the result carries
  that snapshot, and \<open>repaint_timeout\<close> is the deferred callback.
\<close>

definition repaint ::
  "ClusterizerFunc \<Rightarrow> host \<Rightarrow> MarkerClusterer \<times> store \<Rightarrow>
   error + ((MarkerClusterer \<times> store) \<times> Cluster list)" where
  "repaint cf h s =
     (case s of (mc, st) \<Rightarrow>
        let oldClusters = clusters mc;
            mc1 = mc\<lparr>clusters := []\<rparr>
        in (case resetViewport False (mc1, st) of
              Inl e \<Rightarrow> Inl e
            | Inr s2 \<Rightarrow>
                (case redraw cf h s2 of
                   Inl e \<Rightarrow> Inl e
                 | Inr s3 \<Rightarrow> Inr (s3, oldClusters))))"

definition repaint_timeout :: "Cluster list \<Rightarrow> error + Cluster list" where
  "repaint_timeout oldClusters = remove_each oldClusters"

text \<open>The listeners the constructor registers for \<^verbatim>\<open>zoom_changed\<close> and \<^verbatim>\<open>idle\<close>.\<close>

definition on_zoom_changed ::
  "host \<Rightarrow> MarkerClusterer \<times> store \<Rightarrow> error + (MarkerClusterer \<times> store)" where
  "on_zoom_changed h s =
     (case s of (mc, st) \<Rightarrow>
        let zoom = map_getZoom h
        in if prevZoom mc \<noteq> zoom then resetViewport False (mc\<lparr>prevZoom := zoom\<rparr>, st)
           else Inr (mc, st))"

definition on_idle ::
  "ClusterizerFunc \<Rightarrow> host \<Rightarrow> MarkerClusterer \<times> store \<Rightarrow> error + (MarkerClusterer \<times> store)" where
  "on_idle cf h s = redraw cf h s"

definition setMaxZoom :: "int option \<Rightarrow> MarkerClusterer \<Rightarrow> MarkerClusterer" where
  "setMaxZoom mz mc = mc\<lparr>maxZoom := mz\<rparr>"

text \<open>
  The constructor.  \<^verbatim>\<open>DEFAULT_MARKERCLUSTER_OPTIONS\<close> is a static object, and its
  \<^verbatim>\<open>styles\<close> array is shared: when the options carry no \<^verbatim>\<open>styles\<close>, the new
  clusterer's \<^verbatim>\<open>styles\<close> is that very array, and \<^verbatim>\<open>setupStyles\<close> pushes the
  generated styles into it.  The current contents of the static array are the argument
  \<open>static_styles\<close> (initially empty, as in \<open>DEFAULT_MARKERCLUSTER_OPTIONS\<close>), and the
  contents after the call are returned with the clusterer.
\<close>

definition MarkerClusterer_constructor ::
  "host \<Rightarrow> IconStyle list \<Rightarrow> map_id \<Rightarrow> marker_id list \<Rightarrow> MarkerClustererOptions \<Rightarrow>
   SumCalculatorFunc \<Rightarrow> ClusterizerFunc \<Rightarrow> store \<Rightarrow>
   error + (MarkerClusterer \<times> store \<times> IconStyle list)" where
  "MarkerClusterer_constructor h static_styles mp mks options calc cf st =
     (let defaultOptions = DEFAULT_MARKERCLUSTER_OPTIONS\<lparr>opt_styles := Some static_styles\<rparr>;
          mc0 = \<lparr>gmap = mp, markers = [], clusters = [],
                 sizes = [Fin 53, Fin 56, Fin 66, Fin 78, Fin 90],
                 ready = False, prevZoom = map_getZoom h, sumCalculatorFunc = calc,
                 gridSize = or_number (opt_gridSize options) (the (opt_gridSize defaultOptions)),
                 minClusterSize =
                   or_int (opt_minClusterSize options) (the (opt_minClusterSize defaultOptions)),
                 maxZoom = or_int_null (opt_maxZoom options) (opt_maxZoom defaultOptions),
                 imagePath =
                   or_string (opt_imagePath options) (the (opt_imagePath defaultOptions)),
                 imageExtension =
                   or_string (opt_imageExtension options) (the (opt_imageExtension defaultOptions)),
                 zoomOnClick =
                   or_bool (opt_zoomOnClick options) (the (opt_zoomOnClick defaultOptions)),
                 averageCenter =
                   or_bool (opt_averageCenter options) (the (opt_averageCenter defaultOptions)),
                 styles = or_array (opt_styles options) (the (opt_styles defaultOptions))\<rparr>;
          mc1 = setupStyles mc0;
          static_styles1 = (case opt_styles options of
                              None \<Rightarrow> styles mc1
                            | Some v \<Rightarrow> static_styles)
      in if mks \<noteq> [] then
           (case MarkerClusterer_addMarkers cf h mks False (mc1, st) of
              Inl e \<Rightarrow> Inl e
            | Inr (mc2, st2) \<Rightarrow> Inr (mc2, st2, static_styles1))
         else Inr (mc1, st, static_styles1))"

section \<open>Sequences of calls and example data\<close>

text \<open>Successive calls of \<^verbatim>\<open>addMarker\<close> on one cluster, stopping at the first error.\<close>

fun addMarker_seq ::
  "host \<Rightarrow> MarkerClusterer \<Rightarrow> marker_id list \<Rightarrow> Cluster \<times> store \<Rightarrow> error + (Cluster \<times> store)" where
  "addMarker_seq h mc [] cs = Inr cs"
| "addMarker_seq h mc (marker # rest) cs =
     (case Cluster_addMarker h mc marker cs of
        Inl e \<Rightarrow> Inl e
      | Inr (r, cs1) \<Rightarrow> addMarker_seq h mc rest cs1)"

text \<open>
  A host whose projection maps one degree to one pixel, with rectangles compared
  coordinate-wise, at zoom 3 with the viewport \<open>[-10, 10] \<times> [-10, 10]\<close>.  Its
  \<^verbatim>\<open>Math\<close> functions are given on the arguments that the examples below reach, with
  the values that the V8 engine returns there (they are the correctly rounded ones), and
  are zero elsewhere: the sine of \<open>-0.20943951023931953\<close> is \<open>-0.20791169081775931\<close>,
  the sine of \<open>1.5707963267948966\<close> is 1, the cosine of \<open>0.20943951023931953\<close> and of
  its negative is \<open>0.9781476007338057\<close>, and the square roots of 1 and of
  \<open>1.0000000000000002\<close> are 1.
\<close>

definition ex_host :: host where
  "ex_host =
     \<lparr>map_getZoom = 3,
      map_getBounds = \<lparr>sw = \<lparr>lat = Fin (- 10), lng = Fin (- 10)\<rparr>,
                       ne = \<lparr>lat = Fin 10, lng = Fin 10\<rparr>\<rparr>,
      fromLatLngToDivPixel = (\<lambda>p. \<lparr>Point_x = lng p, Point_y = dneg (lat p)\<rparr>),
      fromDivPixelToLatLng = (\<lambda>q. \<lparr>lat = dneg (Point_y q), lng = Point_x q\<rparr>),
      bounds_extend = (\<lambda>b p.
         \<lparr>sw = \<lparr>lat = dmin (lat (sw b)) (lat p), lng = dmin (lng (sw b)) (lng p)\<rparr>,
          ne = \<lparr>lat = dmax (lat (ne b)) (lat p), lng = dmax (lng (ne b)) (lng p)\<rparr>\<rparr>),
      bounds_contains = (\<lambda>b p.
         dle (lat (sw b)) (lat p) \<and> dle (lat p) (lat (ne b)) \<and>
         dle (lng (sw b)) (lng p) \<and> dle (lng p) (lng (ne b))),
      math_sin = (\<lambda>q.
         if q = - (7545853602163669 / 36028797018963968)
         then Fin (- (7490808106342645 / 36028797018963968))
         else if q = 884279719003555 / 562949953421312 then Fin 1 else Fin 0),
      math_cos = (\<lambda>q.
         if q = 7545853602163669 / 36028797018963968 \<or>
            q = - (7545853602163669 / 36028797018963968)
         then Fin (68831018284033 / 70368744177664) else Fin 0),
      math_sqrt = (\<lambda>q.
         if q = 1 \<or> q = 4503599627370497 / 4503599627370496 then Fin 1 else Fin 0),
      math_atan2 = (\<lambda>y x. Fin 0)\<rparr>"

text \<open>
  Markers, none of them on a map yet: markers \<open>0\<close> and \<open>1\<close> at the origin; markers
  \<open>101\<close>, \<open>102\<close> and \<open>103\<close> at latitude 0 and the longitudes \<open>0.1\<close>, \<open>0.2\<close> and
  \<open>0.3\<close> (the doubles that these literals denote); marker \<open>200\<close> at latitude 12 and
  longitude 0, and marker \<open>201\<close> at latitude -12 and longitude 180; every other marker
  \<open>i\<close> at latitude 0 and longitude \<open>i\<close>.
\<close>

definition ex_position :: "marker_id \<Rightarrow> LatLng" where
  "ex_position i =
     (if i < 2 then \<lparr>lat = Fin 0, lng = Fin 0\<rparr>
      else if i = 101 then \<lparr>lat = Fin 0, lng = Fin (3602879701896397 / 36028797018963968)\<rparr>
      else if i = 102 then \<lparr>lat = Fin 0, lng = Fin (3602879701896397 / 18014398509481984)\<rparr>
      else if i = 103 then \<lparr>lat = Fin 0, lng = Fin (5404319552844595 / 18014398509481984)\<rparr>
      else if i = 200 then \<lparr>lat = Fin 12, lng = Fin 0\<rparr>
      else if i = 201 then \<lparr>lat = Fin (- 12), lng = Fin 180\<rparr>
      else \<lparr>lat = Fin 0, lng = Fin (of_nat i)\<rparr>)"

definition ex_store :: store where
  "ex_store =
     (\<lambda>i. \<lparr>position = ex_position i, isAdded = False, marker_map = None, draggable = False\<rparr>)"

definition ex_style :: IconStyle where
  "ex_style =
     \<lparr>url = Some ''m.png'', height = Some (Fin 53), width = Some (Fin 53), anchor = None,
      textColor = None, textSize = None, backgroundPosition = None, iconAnchor = None\<rparr>"

definition ex_options :: MarkerClustererOptions where
  "ex_options =
     \<lparr>opt_gridSize = Some (Fin 1), opt_maxZoom = None, opt_minClusterSize = Some 2,
      opt_imagePath = None, opt_imageExtension = None, opt_zoomOnClick = None,
      opt_averageCenter = Some False, opt_styles = Some [ex_style]\<rparr>"

text \<open>The state of the clusterer that the constructor builds from \<open>ex_options\<close>.\<close>

definition ex_mc :: MarkerClusterer where
  "ex_mc =
     \<lparr>gmap = 0, markers = [], clusters = [],
      sizes = [Fin 53, Fin 56, Fin 66, Fin 78, Fin 90], ready = False,
      prevZoom = 3, sumCalculatorFunc = DEFAULT_SUMCALCULATOR_FUNCTION, gridSize = Fin 1,
      minClusterSize = 2, maxZoom = None, imagePath = ''../images/m'', imageExtension = ''png'',
      zoomOnClick = True, averageCenter = True, styles = [ex_style]\<rparr>"

text \<open>
  The cluster that results when a fresh cluster of \<open>ex_mc\<close> receives marker 0.
\<close>

definition ex_cluster :: Cluster where
  "ex_cluster =
     (Cluster_constructor ex_mc)
       \<lparr>c_center := Some \<lparr>lat = Fin 0, lng = Fin 0\<rparr>, c_markers := Some [0],
        c_bounds := Some \<lparr>sw = \<lparr>lat = Fin (- 1), lng = Fin (- 1)\<rparr>,
                          ne = \<lparr>lat = Fin 1, lng = Fin 1\<rparr>\<rparr>\<rparr>"

text \<open>
  The clusterer after it was constructed from \<open>ex_options\<close> with marker 0 and the map
  surface attached (\<^verbatim>\<open>onAdd\<close>): marker 0 is clustered.
\<close>

definition ex_engine :: MarkerClusterer where
  "ex_engine = ex_mc\<lparr>markers := [0], clusters := [ex_cluster], ready := True\<rparr>"

text \<open>
  The same clusterer with a grid size of 200 pixels, and the cluster and the markers that
  result when its default assignment strategy is given marker 200 and no clusters.
\<close>

definition wide_mc :: MarkerClusterer where
  "wide_mc = ex_mc\<lparr>gridSize := Fin 200\<rparr>"

definition wide_cluster :: Cluster where
  "wide_cluster =
     (Cluster_constructor wide_mc)
       \<lparr>c_center := Some \<lparr>lat = Fin 12, lng = Fin 0\<rparr>, c_markers := Some [200],
        c_bounds := Some \<lparr>sw = \<lparr>lat = Fin (- 188), lng = Fin (- 200)\<rparr>,
                          ne = \<lparr>lat = Fin 212, lng = Fin 200\<rparr>\<rparr>\<rparr>"

definition wide_store :: store where
  "wide_store = Marker_setMap 200 (Some 0) (set_isAdded 200 True ex_store)"

text \<open>
  An assignment strategy that puts a marker that the clusterer does not hold (marker 99)
  into a new cluster.
\<close>

definition foreign_strategy :: ClusterizerFunc where
  "foreign_strategy h marker cls mc st =
     Inr (cls @ [(Cluster_constructor mc)\<lparr>c_markers := Some [99]\<rparr>], st)"

section \<open>Notions of the specification\<close>

text \<open>
  The guard of \<^verbatim>\<open>updateIcon\<close>, \<^verbatim>\<open>mz && zoom > mz\<close>: a max zoom is configured
  (not null and not zero) and the current zoom exceeds it.
\<close>

definition zoom_exceeds :: "host \<Rightarrow> MarkerClusterer \<Rightarrow> bool" where
  "zoom_exceeds h mc = (case maxZoom mc of None \<Rightarrow> False | Some z \<Rightarrow> z \<noteq> 0 \<and> map_getZoom h > z)"

text \<open>
  The visibility policy the specification describes for a cluster with members \<open>ms\<close>:
  below the threshold every member is on the cluster's map and the icon is not visible;
  at or above it (with at least one member) every member is off the map and the icon is
  visible.
\<close>

definition visibility_settled :: "marker_id list \<Rightarrow> Cluster \<times> store \<Rightarrow> bool" where
  "visibility_settled ms cs =
     (case cs of (c, st) \<Rightarrow>
        c_markers c = Some ms \<and>
        (int (length ms) < c_minClusterSize c \<longrightarrow>
           (\<forall>m \<in> set ms. marker_map (st m) = Some (c_map c)) \<and> \<not> icon_visible (c_clusterIcon c)) \<and>
        (ms \<noteq> [] \<and> c_minClusterSize c \<le> int (length ms) \<longrightarrow>
           (\<forall>m \<in> set ms. marker_map (st m) = None) \<and> icon_visible (c_clusterIcon c)))"

text \<open>
  The incremental mean \<open>(oldCenter * (n - 1) + p) / n\<close> of the specification, each
  operation being the operation on doubles.
\<close>

definition incremental_mean :: "LatLng \<Rightarrow> nat \<Rightarrow> LatLng \<Rightarrow> LatLng" where
  "incremental_mean ctr n p =
     \<lparr>lat = ddiv (dadd (dmul (lat ctr) (number_of_nat (n - 1))) (lat p)) (number_of_nat n),
      lng = ddiv (dadd (dmul (lng ctr) (number_of_nat (n - 1))) (lng p)) (number_of_nat n)\<rparr>"

text \<open>
  The arithmetic mean, an exact rational, of the values \<open>f m\<close> for the markers \<open>m\<close> of
  \<open>ms\<close>.  \<open>number_value\<close> is the value of a finite double; \<open>lat_of st\<close> and \<open>lng_of st\<close>
  are the latitude and the longitude of a marker's position.
\<close>

definition mean_of :: "(marker_id \<Rightarrow> rat) \<Rightarrow> marker_id list \<Rightarrow> rat" where
  "mean_of f ms = (\<Sum>m\<leftarrow>ms. f m) / of_nat (length ms)"

definition number_value :: "double \<Rightarrow> rat" where
  "number_value a = (case a of Fin x \<Rightarrow> x | other \<Rightarrow> 0)"

definition lat_of :: "store \<Rightarrow> marker_id \<Rightarrow> rat" where
  "lat_of st m = number_value (lat (position (st m)))"

definition lng_of :: "store \<Rightarrow> marker_id \<Rightarrow> rat" where
  "lng_of st m = number_value (lng (position (st m)))"

text \<open>
  A geographic point of the platform: both coordinates are finite numbers of magnitude at
  most 180 (the platform clamps latitudes to \<open>[-90, 90]\<close> and wraps longitudes to
  \<open>[-180, 180]\<close>).
\<close>

definition geo_number :: "double \<Rightarrow> bool" where
  "geo_number a = (case a of Fin x \<Rightarrow> \<bar>x\<bar> \<le> 180 | other \<Rightarrow> False)"

definition geo_point :: "LatLng \<Rightarrow> bool" where
  "geo_point p = (geo_number (lat p) \<and> geo_number (lng p))"

text \<open>
  \<open>within_of t a x\<close>: the number \<open>a\<close> is finite and differs from the rational \<open>x\<close> by at
  most \<open>t\<close>; \<open>is_finite a\<close>: the number is neither an infinity nor \<^verbatim>\<open>NaN\<close>.
  \<open>mean_tolerance n\<close> bounds the rounding error that \<open>n\<close> incremental means
  of geographic points accumulate: each of them rounds three times, with a relative error
  of at most \<open>2 ^ -53\<close> and an absolute error (for subnormal results) of at most
  \<open>2 ^ -1075\<close> per rounding, on intermediate values of magnitude at most \<open>3 * 181\<close> times
  the member count.  For one step this is about \<open>1.2 * 10 ^ -13\<close> degrees.
\<close>

definition within_of :: "rat \<Rightarrow> double \<Rightarrow> rat \<Rightarrow> bool" where
  "within_of t a x = (case a of Fin y \<Rightarrow> \<bar>y - x\<bar> \<le> t | other \<Rightarrow> False)"

definition is_finite :: "double \<Rightarrow> bool" where
  "is_finite a = (case a of Fin x \<Rightarrow> True | other \<Rightarrow> False)"

definition step_tolerance :: rat where
  "step_tolerance = 6 * 181 / 2 ^ 53 + 3 / 2 ^ 1075"

definition mean_tolerance :: "nat \<Rightarrow> rat" where
  "mean_tolerance n = of_nat n * step_tolerance"

text \<open>
  \<open>near_mean t st ms p\<close>: each coordinate of the point \<open>p\<close> is within \<open>t\<close> of the mean
  of that coordinate over the markers \<open>ms\<close>.  \<open>near_point t p q\<close>: the points \<open>p\<close> and
  \<open>q\<close> have finite coordinates that differ by at most \<open>t\<close>.
\<close>

definition near_mean :: "rat \<Rightarrow> store \<Rightarrow> marker_id list \<Rightarrow> LatLng \<Rightarrow> bool" where
  "near_mean t st ms p =
     (within_of t (lat p) (mean_of (lat_of st) ms) \<and> within_of t (lng p) (mean_of (lng_of st) ms))"

definition near_point :: "rat \<Rightarrow> LatLng \<Rightarrow> LatLng \<Rightarrow> bool" where
  "near_point t p q =
     (is_finite (lat q) \<and> is_finite (lng q) \<and>
      within_of t (lat p) (number_value (lat q)) \<and> within_of t (lng p) (number_value (lng q)))"

text \<open>
  A cluster of the clusterer's array is live: it has not been disposed (its member array
  is not null) and, once it has a center, it has bounds (\<^verbatim>\<open>addMarker\<close> sets both
  together).
\<close>

definition cluster_live :: "Cluster \<Rightarrow> bool" where
  "cluster_live c = (c_markers c \<noteq> None \<and> (c_center c = None \<or> c_bounds c \<noteq> None))"

text \<open>
  The invariant of the clustering engine: every member of a cluster of the clusterer's
  array is in the clusterer's markers.  \<open>clusters_live\<close>: every cluster of the array is
  live.
\<close>

definition members_within :: "marker_id set \<Rightarrow> Cluster list \<Rightarrow> bool" where
  "members_within M cls = (\<forall>c \<in> set cls. \<forall>ms. c_markers c = Some ms \<longrightarrow> set ms \<subseteq> M)"

definition members_known :: "MarkerClusterer \<Rightarrow> bool" where
  "members_known mc = members_within (set (markers mc)) (clusters mc)"

definition clusters_live :: "MarkerClusterer \<Rightarrow> bool" where
  "clusters_live mc = (\<forall>c \<in> set (clusters mc). cluster_live c)"

text \<open>
  What the engine relies on in an assignment strategy: called on live clusters whose
  members are all among the markers \<open>M\<close>, with a marker of \<open>M\<close>, it completes and
  returns live clusters whose members are all among \<open>M\<close>.
\<close>

definition strategy_keeps :: "ClusterizerFunc \<Rightarrow> bool" where
  "strategy_keeps cf =
     (\<forall>h marker cls mc st M.
        (\<forall>c \<in> set cls. cluster_live c) \<and> members_within M cls \<and> marker \<in> M \<longrightarrow>
        (\<exists>cls1 st1. cf h marker cls mc st = Inr (cls1, st1) \<and>
           (\<forall>c \<in> set cls1. cluster_live c) \<and> members_within M cls1))"

section \<open>Facts about rounding\<close>

lemma round_half_even_rat_error: "\<bar>of_int (round_half_even_rat x) - x\<bar> \<le> 1 / 2"
proof -
  have "of_int \<lfloor>x\<rfloor> \<le> x" "x < of_int \<lfloor>x\<rfloor> + 1" by linarith+
  then show ?thesis
    by (auto simp: round_half_even_rat_def Let_def abs_le_iff)
qed

lemma round_half_even_rat_unique:
  assumes "\<bar>x - of_int k\<bar> < 1 / 2"
  shows "round_half_even_rat x = k"
proof -
  from assms have lo: "of_int k - 1 / 2 < x" and hi: "x < of_int k + 1 / 2"
    by linarith+
  have "of_int (k - 1) \<le> x" using lo by simp
  then have f1: "k - 1 \<le> \<lfloor>x\<rfloor>" by (simp only: le_floor_iff)
  have "x < of_int (k + 1)" using hi by simp
  then have f2: "\<lfloor>x\<rfloor> < k + 1" by (simp only: floor_less_iff)
  from f1 f2 consider "\<lfloor>x\<rfloor> = k" | "\<lfloor>x\<rfloor> = k - 1" by linarith
  then show ?thesis
  proof cases
    case 1
    with hi show ?thesis by (simp add: round_half_even_rat_def Let_def)
  next
    case 2
    with lo show ?thesis by (simp add: round_half_even_rat_def Let_def)
  qed
qed

lemma ilog2_bounds:
  assumes "0 < a"
  shows "2 powi (ilog2 a) \<le> a \<and> a < 2 powi (ilog2 a + 1)"
proof (cases "1 \<le> a")
  case True
  define N where "N = nat \<lfloor>a\<rfloor>"
  define fl where "fl = floorlog 2 N"
  from True have "1 \<le> \<lfloor>a\<rfloor>" by simp
  then have N: "0 < N" "of_nat N = (of_int \<lfloor>a\<rfloor> :: rat)" by (simp_all add: N_def)
  from floorlog_bounds [of N 2] N have b: "2 ^ (fl - 1) \<le> N" "N < 2 ^ fl"
    by (simp_all add: fl_def)
  from N have "0 < fl" by (simp add: fl_def floorlog_def)
  have i: "ilog2 a = int fl - 1" using True by (simp add: ilog2_def fl_def N_def)
  have "(2::rat) powi (int fl - 1) = 2 ^ (fl - 1)"
    using \<open>0 < fl\<close> by (simp add: power_int_def nat_diff_distrib')
  also have "\<dots> \<le> of_nat N" using b(1) by (metis of_nat_le_iff of_nat_numeral of_nat_power)
  also have "\<dots> \<le> a" using N by simp
  finally have lo: "2 powi (ilog2 a) \<le> a" by (simp add: i)
  have "a < of_int \<lfloor>a\<rfloor> + 1" by linarith
  also have "\<dots> = of_nat (N + 1)" using N by simp
  also have "\<dots> \<le> of_nat (2 ^ fl)" using b(2) by (simp only: of_nat_le_iff)
  also have "\<dots> = 2 powi (int fl)" by simp
  finally have "a < 2 powi (ilog2 a + 1)" by (simp add: i)
  with lo show ?thesis by simp
next
  case False
  define M where "M = nat (\<lceil>1 / a\<rceil> - 1)"
  define fl where "fl = floorlog 2 M"
  from False assms have "1 < 1 / a" by simp
  then have c1: "1 < \<lceil>1 / a\<rceil>" by (simp add: less_ceiling_iff)
  then have "0 < M" unfolding M_def by linarith
  moreover have "of_nat M = (of_int (\<lceil>1 / a\<rceil> - 1) :: rat)"
    unfolding M_def using c1 by (intro of_nat_nat) linarith
  ultimately have M: "0 < M" "of_nat M = (of_int \<lceil>1 / a\<rceil> :: rat) - 1" by simp_all
  from floorlog_bounds [of M 2] M have b: "2 ^ (fl - 1) \<le> M" "M < 2 ^ fl"
    by (simp_all add: fl_def)
  from M have "0 < fl" by (simp add: fl_def floorlog_def)
  have i: "ilog2 a = - int fl" using False by (simp add: ilog2_def fl_def M_def)
  have "1 / a \<le> of_int \<lceil>1 / a\<rceil>" by simp
  also have "\<dots> = of_nat (M + 1)" using M by simp
  also have "\<dots> \<le> of_nat (2 ^ fl)" using b(2) by (simp only: of_nat_le_iff)
  finally have "1 / a \<le> 2 ^ fl" by simp
  then have "1 \<le> 2 ^ fl * a" using assms by (simp add: field_simps)
  then have "1 / 2 ^ fl \<le> a" by (simp add: field_simps)
  then have lo: "2 powi (ilog2 a) \<le> a" by (simp add: i power_int_minus_divide)
  have "(2::rat) ^ (fl - 1) \<le> of_nat M" using b(1) by (metis of_nat_le_iff of_nat_numeral of_nat_power)
  also have "\<dots> < 1 / a" using M ceiling_correct [of "1 / a"] by simp
  finally have "2 ^ (fl - 1) * a < 1" using assms by (simp add: field_simps)
  then have "a < 1 / 2 ^ (fl - 1)" by (simp add: field_simps)
  also have "\<dots> = 2 powi (- int (fl - 1))" by (simp add: power_int_minus_divide)
  also have "- int (fl - 1) = ilog2 a + 1" using \<open>0 < fl\<close> by (simp add: i)
  finally show ?thesis using lo by simp
qed

lemma ilog2_eqI:
  assumes "2 powi e \<le> a" and "a < 2 powi (e + 1)"
  shows "ilog2 a = e"
proof -
  have "0 < (2::rat) powi e" by simp
  with assms have "0 < a" by linarith
  from ilog2_bounds [OF this] have b: "2 powi (ilog2 a) \<le> a" "a < 2 powi (ilog2 a + 1)"
    by simp_all
  show ?thesis
  proof (rule ccontr)
    assume "ilog2 a \<noteq> e"
    then consider "ilog2 a + 1 \<le> e" | "e + 1 \<le> ilog2 a" by linarith
    then show False
    proof cases
      case 1
      then have "(2::rat) powi (ilog2 a + 1) \<le> 2 powi e" by (intro power_int_increasing) simp_all
      with b assms show False by linarith
    next
      case 2
      then have "(2::rat) powi (e + 1) \<le> 2 powi (ilog2 a)" by (intro power_int_increasing) simp_all
      with b assms show False by linarith
    qed
  qed
qed


lemma round_half_even_rat_tie:
  assumes "\<bar>x - of_int k\<bar> = 1 / 2" and "even k"
  shows "round_half_even_rat x = k"
proof -
  from assms(1) consider "x = of_int k + 1 / 2" | "x = of_int k - 1 / 2"
    by (auto simp: abs_if split: if_splits)
  then show ?thesis
  proof cases
    case 1
    have "\<lfloor>x\<rfloor> = k" unfolding 1 by (rule floor_unique) simp_all
    with 1 assms(2) show ?thesis by (simp add: round_half_even_rat_def Let_def)
  next
    case 2
    have "x = of_int (k - 1) + 1 / 2" unfolding 2 by simp
    then have "\<lfloor>x\<rfloor> = k - 1" by (intro floor_unique) simp_all
    with 2 assms(2) show ?thesis by (simp add: round_half_even_rat_def Let_def)
  qed
qed

lemma round_half_even_rat_eqI:
  assumes "\<bar>x - of_int k\<bar> < 1 / 2 \<or> \<bar>x - of_int k\<bar> = 1 / 2 \<and> even k"
  shows "round_half_even_rat x = k"
  using assms round_half_even_rat_unique round_half_even_rat_tie by blast

lemma round_to_double_pos:
  assumes "0 < a"
  shows "round_to_double (- a) = dneg (round_to_double a)"
  using assms by (simp add: round_to_double_def Let_def dneg_def)

lemma round_to_double_value:
  assumes "2 powi e \<le> a" and "a < 2 powi (e + 1)"
    and "\<bar>a / 2 powi (max e (- 1022) - 52) - of_int k\<bar> < 1 / 2
       \<or> \<bar>a / 2 powi (max e (- 1022) - 52) - of_int k\<bar> = 1 / 2 \<and> even k"
    and "of_int k * 2 powi (max e (- 1022) - 52) = r"
    and "r < 2 ^ 1024"
  shows "round_to_double a = Fin r" and "round_to_double (- a) = Fin (- r)"
proof -
  have "0 < (2::rat) powi e" by simp
  with assms(1) have pos: "0 < a" by linarith
  have i: "ilog2 a = e" using assms(1,2) by (rule ilog2_eqI)
  have k: "round_half_even_rat (a / 2 powi (max e (- 1022) - 52)) = k"
    using assms(3) by (rule round_half_even_rat_eqI)
  show "round_to_double a = Fin r"
    using pos assms(4,5) by (simp add: round_to_double_def Let_def i k)
  then show "round_to_double (- a) = Fin (- r)"
    using pos by (simp add: round_to_double_pos dneg_def)
qed

lemma round_to_double_int:
  assumes "\<bar>k\<bar> < 2 ^ 53"
  shows "round_to_double (of_int k) = Fin (of_int k)"
proof (cases "k = 0")
  case True
  then show ?thesis by (simp add: round_to_double_def)
next
  case False
  define a :: rat where "a = of_int \<bar>k\<bar>"
  define e where "e = ilog2 a"
  from False have a1: "1 \<le> a" by (simp add: a_def)
  then have "0 < a" by simp
  from ilog2_bounds [OF this] have b: "2 powi e \<le> a" "a < 2 powi (e + 1)"
    by (simp_all add: e_def)
  have a53: "a < 2 powi 53"
  proof -
    have "a < of_int (2 ^ 53)" unfolding a_def using assms by (simp only: of_int_less_iff)
    then show ?thesis by simp
  qed
  have e0: "0 \<le> e"
  proof (rule ccontr)
    assume "\<not> 0 \<le> e"
    then have "e + 1 \<le> 0" by simp
    then have "(2::rat) powi (e + 1) \<le> 2 powi 0" by (intro power_int_increasing) simp_all
    with b a1 show False by simp
  qed
  have e52: "e \<le> 52"
  proof (rule ccontr)
    assume "\<not> e \<le> 52"
    then have "53 \<le> e" by simp
    then have "(2::rat) powi 53 \<le> 2 powi e" by (intro power_int_increasing) simp_all
    with b a53 show False by linarith
  qed
  define j where "j = nat (52 - e)"
  have ulp: "(2::rat) powi (max e (- 1022) - 52) = 1 / 2 ^ j"
  proof -
    have "max e (- 1022) - 52 = - int j" using e0 e52 by (simp add: j_def)
    then show ?thesis by (simp add: power_int_minus_divide)
  qed
  have q: "a / 2 powi (max e (- 1022) - 52) = of_int (\<bar>k\<bar> * 2 ^ j)"
    by (simp add: ulp a_def)
  have "\<bar>a / 2 powi (max e (- 1022) - 52) - of_int (\<bar>k\<bar> * 2 ^ j)\<bar> < 1 / 2"
    unfolding q by simp
  moreover have "of_int (\<bar>k\<bar> * 2 ^ j) * 2 powi (max e (- 1022) - 52) = a"
    by (simp add: ulp a_def)
  moreover have "a < 2 ^ 1024"
  proof -
    have "(2::rat) powi 53 \<le> 2 powi 1024" by (intro power_int_increasing) simp_all
    with a53 show ?thesis by simp
  qed
  ultimately have r: "round_to_double a = Fin a" "round_to_double (- a) = Fin (- a)"
    using round_to_double_value [OF b] by blast+
  show ?thesis
  proof (cases "0 < k")
    case True
    then have "of_int k = a" by (simp add: a_def)
    with r show ?thesis by simp
  next
    case neg: False
    with False have "of_int k = - a" by (simp add: a_def)
    with r show ?thesis by simp
  qed
qed

lemma round_to_double_numeral [simp]:
  "numeral n < (2::int) ^ 53 \<Longrightarrow> round_to_double (numeral n) = Fin (numeral n)"
  "numeral n < (2::int) ^ 53 \<Longrightarrow> round_to_double (- numeral n) = Fin (- numeral n)"
  "round_to_double 0 = Fin 0" "round_to_double 1 = Fin 1" "round_to_double (- 1) = Fin (- 1)"
  using round_to_double_int [of "numeral n"] round_to_double_int [of "- numeral n"]
    round_to_double_int [of 1] round_to_double_int [of "- 1"]
  by (simp_all add: round_to_double_def)

lemma round_to_double_of_nat:
  assumes "n < 2 ^ 53"
  shows "round_to_double (of_nat n) = Fin (of_nat n)"
proof -
  have "\<bar>int n\<bar> < 2 ^ 53" using assms by (metis abs_of_nat of_nat_less_iff of_nat_numeral of_nat_power)
  from round_to_double_int [OF this] show ?thesis by simp
qed

lemma round_to_double_error:
  assumes "\<bar>q\<bar> \<le> 2 ^ 1000"
  shows "\<exists>r. round_to_double q = Fin r \<and> \<bar>r - q\<bar> \<le> \<bar>q\<bar> / 2 ^ 53 + 1 / 2 ^ 1075"
proof (cases "q = 0")
  case True
  then show ?thesis by (simp add: round_to_double_def)
next
  case False
  define a where "a = \<bar>q\<bar>"
  define e0 where "e0 = ilog2 a"
  define e where "e = max e0 (- 1022)"
  define ulp :: rat where "ulp = 2 powi (e - 52)"
  define k where "k = round_half_even_rat (a / ulp)"
  define r where "r = of_int k * ulp"
  from False have pos: "0 < a" by (simp add: a_def)
  from ilog2_bounds [OF pos] have b: "2 powi e0 \<le> a" by (simp add: e0_def)
  have up: "0 < ulp" by (simp add: ulp_def)
  have "\<bar>of_int k - a / ulp\<bar> \<le> 1 / 2" unfolding k_def by (rule round_half_even_rat_error)
  then have "\<bar>of_int k - a / ulp\<bar> * ulp \<le> 1 / 2 * ulp" using up by (intro mult_right_mono) simp_all
  moreover have "\<bar>of_int k - a / ulp\<bar> * ulp = \<bar>r - a\<bar>"
  proof -
    have "\<bar>of_int k - a / ulp\<bar> * ulp = \<bar>(of_int k - a / ulp) * ulp\<bar>"
      using up by (simp add: abs_mult)
    also have "(of_int k - a / ulp) * ulp = r - a" using up by (simp add: r_def field_simps)
    finally show ?thesis .
  qed
  ultimately have err: "\<bar>r - a\<bar> \<le> ulp / 2" by simp
  have half: "ulp / 2 = 2 powi (e - 53)"
  proof -
    have "(2::rat) powi (e - 53) = 2 powi (e - 52) * 2 powi (- 1)"
      by (subst power_int_add [symmetric]) simp_all
    then show ?thesis by (simp add: ulp_def power_int_minus_divide)
  qed
  have ub: "ulp / 2 \<le> a / 2 ^ 53 + 1 / 2 ^ 1075"
  proof (cases "- 1022 \<le> e0")
    case True
    then have "e = e0" by (simp add: e_def)
    then have "ulp / 2 = 2 powi e0 * 2 powi (- 53)"
      unfolding half by (subst power_int_add [symmetric]) simp_all
    also have "\<dots> = 2 powi e0 / 2 ^ 53" by (simp add: power_int_minus_divide)
    also have "\<dots> \<le> a / 2 ^ 53" using b by (simp add: divide_right_mono)
    finally show ?thesis by simp
  next
    case False
    then have "e = - 1022" by (simp add: e_def)
    then have "ulp / 2 = 2 powi (- 1075)" unfolding half by simp
    also have "\<dots> = 1 / 2 ^ 1075" by (simp add: power_int_minus_divide)
    finally show ?thesis using pos by simp
  qed
  have a1000: "a \<le> 2 ^ 1000" using assms by (simp add: a_def)
  have "r \<le> a + ulp / 2" using err by linarith
  also have "\<dots> \<le> a + (a / 2 ^ 53 + 1 / 2 ^ 1075)" using ub by simp
  also have "\<dots> \<le> 2 ^ 1000 + (2 ^ 1000 + 1)"
  proof -
    have "a / 2 ^ 53 \<le> a" using pos by (simp add: field_simps)
    moreover have "(1::rat) / 2 ^ 1075 \<le> 1" by simp
    ultimately show ?thesis using a1000 by linarith
  qed
  also have "\<dots> < 2 ^ 1024" by simp
  finally have fin: "\<not> 2 ^ 1024 \<le> r" by simp
  have rd: "round_to_double q = Fin (if 0 < q then r else - r)"
    using False fin
    by (simp add: round_to_double_def Let_def a_def [symmetric] e0_def [symmetric]
        e_def [symmetric] ulp_def [symmetric] k_def [symmetric] r_def [symmetric])
  have "\<bar>(if 0 < q then r else - r) - q\<bar> = \<bar>r - a\<bar>"
    using False by (auto simp: a_def)
  with err ub rd show ?thesis by (auto simp: a_def)
qed

lemmas double_ops = dadd_def dsub_def dmul_def ddiv_def dneg_def dlt_def dle_def dmin_def dmax_def
  dsign_def dinf_def number_of_nat_def

section \<open>Facts about the calculator loop\<close>

text \<open>
  The division on small cases: one unit (the smallest subnormal) divided by ten underflows
  to zero; 1.5 and 2.5 units are ties and go to the even neighbour; and a quotient that is
  a double is returned as it is.
\<close>

lemma double_div10_subnormal:
  assumes "m div 10 < 2 ^ 53"
  shows "double_div10 m = round_half_even m 10"
proof -
  from assms have "floorlog 2 (m div 10) \<le> 53"
    by (simp add: floorlog_le_iff)
  then show ?thesis by (simp add: double_div10_def)
qed

lemma double_div10_examples:
  "double_div10 1 = 0" "double_div10 15 = 2" "double_div10 25 = 2" "double_div10 26 = 3"
  by (simp_all add: double_div10_subnormal round_half_even_def)

lemma double_div10_exact: "double_div10 (10 * 2 ^ (52 + e)) = 2 ^ (52 + e)"
proof -
  have q: "(10 * 2 ^ (52 + e)) div 10 = (2::nat) ^ (52 + e)" by simp
  have "floorlog 2 (1 * 2 ^ (52 + e)) = floorlog 2 1 + (52 + e)" by (rule floorlog_power) simp_all
  also have "floorlog 2 1 = 1" by (simp add: compute_floorlog)
  finally have j: "floorlog 2 ((10 * 2 ^ (52 + e)) div 10) - 53 = e" by (simp only: q) simp
  have m: "(10::nat) * 2 ^ (52 + e) = 2 ^ 52 * (10 * 2 ^ e)" by (simp add: power_add)
  have "round_half_even (2 ^ 52 * (10 * 2 ^ e)) (10 * 2 ^ e) = 2 ^ 52"
    unfolding round_half_even_def Let_def by simp
  then have "round_half_even (10 * 2 ^ (52 + e)) (10 * 2 ^ e) = 2 ^ 52"
    by (simp only: m)
  then have "double_div10 (10 * 2 ^ (52 + e)) = 2 ^ e * 2 ^ 52"
    unfolding double_div10_def Let_def j by (rule arg_cong)
  then show ?thesis by (simp add: power_add)
qed

lemma round_half_even_ge: "a div b \<le> round_half_even a b"
  by (simp add: round_half_even_def Let_def)

lemma double_div10_ge: "m div 16 \<le> double_div10 m"
proof (cases "floorlog 2 (m div 10) \<le> 53")
  case True
  then have j: "floorlog 2 (m div 10) - 53 = 0" by simp
  have "m div 16 \<le> m div 10" by (rule div_le_mono2) simp_all
  also have "\<dots> \<le> round_half_even m 10" by (rule round_half_even_ge)
  finally show ?thesis by (simp add: double_div10_def j)
next
  case False
  define q where "q = m div 10"
  define j where "j = floorlog 2 q - 53"
  define r where "r = round_half_even m (10 * 2 ^ j)"
  from False have jpos: "floorlog 2 q = 53 + j"
    by (simp add: j_def q_def)
  have "q \<noteq> 0"
  proof
    assume "q = 0"
    then have "floorlog 2 (m div 10) = 0" by (simp add: q_def floorlog_def)
    with False show False by simp
  qed
  then have "2 ^ (floorlog 2 q - 1) \<le> q"
    using floorlog_bounds [of q 2] by simp
  moreover have "(2::nat) ^ (j + 3) \<le> 2 ^ (floorlog 2 q - 1)"
    using jpos by (intro power_increasing) simp_all
  ultimately have pj: "8 * 2 ^ j \<le> q" by (simp add: power_add)
  have "m div (10 * 2 ^ j) = q div 2 ^ j"
    by (simp add: q_def div_mult2_eq)
  then have "q div 2 ^ j \<le> r"
    using round_half_even_ge [of m "10 * 2 ^ j"] by (simp add: r_def)
  then have "2 ^ j * (q div 2 ^ j) \<le> 2 ^ j * r"
    by (rule mult_le_mono2)
  moreover have "q = 2 ^ j * (q div 2 ^ j) + q mod 2 ^ j" by simp
  moreover have "q mod 2 ^ j < 2 ^ j" by simp
  ultimately have qr: "q < 2 ^ j * r + 2 ^ j" by linarith
  have mq: "m < 10 * q + 10"
  proof -
    have "m = 10 * (m div 10) + m mod 10" by simp
    moreover have "m mod 10 < 10" by simp
    ultimately show ?thesis unfolding q_def by linarith
  qed
  define P :: nat where "P = 2 ^ j"
  define R where "R = P * r"
  from qr pj have "q < R + P" "8 * P \<le> q" by (simp_all add: P_def R_def)
  with mq have "m < 16 * (R + 1)" by simp
  then have "m div 16 \<le> R"
    by (simp add: less_mult_imp_div_less)
  then show ?thesis by (simp add: double_div10_def j_def q_def r_def Let_def P_def R_def)
qed

lemma sumcalc_loop_ge_index: "index \<le> sumcalc_loop dv index"
proof (induction dv index rule: sumcalc_loop.induct)
  case (1 dv index)
  show ?case
  proof (cases "dv = 0")
    case True
    then show ?thesis by (simp add: sumcalc_loop.simps)
  next
    case False
    with 1 have "index + 1 \<le> sumcalc_loop (double_div10 dv) (index + 1)" by simp
    with False show ?thesis by (subst sumcalc_loop.simps) simp
  qed
qed

lemma sumcalc_loop_gt: "16 ^ k \<le> dv \<Longrightarrow> index + k < sumcalc_loop dv index"
proof (induction k arbitrary: dv index)
  case 0
  then have "dv \<noteq> 0" by simp
  then have "sumcalc_loop dv index = sumcalc_loop (double_div10 dv) (index + 1)"
    by (subst sumcalc_loop.simps) simp
  with sumcalc_loop_ge_index [of "index + 1" "double_div10 dv"] show ?case by simp
next
  case (Suc k)
  have pos: "0 < (16::nat) ^ k" by simp
  from Suc.prems have le: "16 ^ k * 16 \<le> dv" by simp
  with pos have nz: "dv \<noteq> 0" by linarith
  from le have "16 ^ k \<le> dv div 16"
    by (simp add: less_eq_div_iff_mult_less_eq)
  also have "\<dots> \<le> double_div10 dv" by (rule double_div10_ge)
  finally have "index + 1 + k < sumcalc_loop (double_div10 dv) (index + 1)"
    by (rule Suc.IH)
  moreover have "sumcalc_loop dv index = sumcalc_loop (double_div10 dv) (index + 1)"
    using nz by (subst sumcalc_loop.simps) simp
  ultimately show ?case by simp
qed

lemma double_of_nat_ge: "0 < n \<Longrightarrow> 16 ^ 268 \<le> double_of_nat n"
proof -
  assume "0 < n"
  have "(16::nat) ^ 268 = (2 ^ 4) ^ 268" by simp
  also have "\<dots> = 2 ^ 1072" by (simp only: power_mult [symmetric]) simp
  also have "\<dots> \<le> 2 ^ 1074" by (rule power_increasing) simp_all
  also have "\<dots> \<le> n * 2 ^ 1074" using \<open>0 < n\<close> by simp
  finally show ?thesis by (simp only: double_of_nat_def)
qed


section \<open>The division of the calculator loop is the division of doubles\<close>

text \<open>
  A double of \<open>m\<close> units is the number \<open>m / 2 ^ 1074\<close>; the largest finite double has
  fewer than \<open>2 ^ 2098\<close> units.  On such doubles \<open>double_div10\<close> is the operator
  \<^verbatim>\<open>/\<close> with the divisor 10, and \<open>double_of_nat\<close> is the number that an array length
  is.
\<close>

lemma round_half_even_rat_of_nat:
  assumes "0 < b"
  shows "round_half_even_rat (of_nat a / of_nat b) = int (round_half_even a b)"
proof -
  define q where "q = a div b"
  define r where "r = a mod b"
  have a: "a = q * b + r" by (simp add: q_def r_def)
  have rb: "r < b" using assms by (simp add: r_def)
  have B: "0 < (of_nat b :: rat)" using assms by simp
  have x: "(of_nat a :: rat) / of_nat b = of_nat q + of_nat r / of_nat b"
    using B by (simp add: a add_divide_distrib)
  have frac: "0 \<le> (of_nat r :: rat) / of_nat b" "(of_nat r :: rat) / of_nat b < 1"
    using B rb by simp_all
  consider "2 * r < b" | "2 * r > b" | "2 * r = b" by linarith
  then show ?thesis
  proof cases
    case 1
    then have "(of_nat (2 * r) :: rat) < of_nat b" by (simp only: of_nat_less_iff)
    then have "(of_nat r :: rat) / of_nat b < 1 / 2" using B by (simp add: field_simps)
    with frac have "\<bar>(of_nat a :: rat) / of_nat b - of_int (int q)\<bar> < 1 / 2" unfolding x by simp
    then have "round_half_even_rat (of_nat a / of_nat b) = int q"
      by (rule round_half_even_rat_unique)
    with 1 show ?thesis by (simp add: round_half_even_def Let_def q_def r_def)
  next
    case 2
    then have "(of_nat b :: rat) < of_nat (2 * r)" by (simp only: of_nat_less_iff)
    then have "1 / 2 < (of_nat r :: rat) / of_nat b" using B by (simp add: field_simps)
    with frac have "\<bar>(of_nat a :: rat) / of_nat b - of_int (int (q + 1))\<bar> < 1 / 2" unfolding x by simp
    then have "round_half_even_rat (of_nat a / of_nat b) = int (q + 1)"
      by (rule round_half_even_rat_unique)
    with 2 show ?thesis by (simp add: round_half_even_def Let_def q_def r_def)
  next
    case 3
    then have "(of_nat b :: rat) = of_nat (2 * r)" by simp
    then have h: "(of_nat r :: rat) / of_nat b = 1 / 2" using B by (simp add: field_simps)
    show ?thesis
    proof (cases "even q")
      case True
      have "\<bar>(of_nat a :: rat) / of_nat b - of_int (int q)\<bar> = 1 / 2" unfolding x h by simp
      moreover have "even (int q)" using True by simp
      ultimately have "round_half_even_rat (of_nat a / of_nat b) = int q"
        by (rule round_half_even_rat_tie)
      with 3 True show ?thesis by (simp add: round_half_even_def Let_def q_def r_def)
    next
      case False
      have "\<bar>(of_nat a :: rat) / of_nat b - of_int (int (q + 1))\<bar> = 1 / 2" unfolding x h by simp
      moreover have "even (int (q + 1))" using False by simp
      ultimately have "round_half_even_rat (of_nat a / of_nat b) = int (q + 1)"
        by (rule round_half_even_rat_tie)
      with 3 False show ?thesis by (simp add: round_half_even_def Let_def q_def r_def)
    qed
  qed
qed

lemma round_to_double_eq:
  assumes "2 powi e \<le> a" and "a < 2 powi (e + 1)"
    and "round_half_even_rat (a / 2 powi (max e (- 1022) - 52)) = k"
    and "of_int k * 2 powi (max e (- 1022) - 52) = r"
    and "r < 2 ^ 1024"
  shows "round_to_double a = Fin r"
proof -
  have "0 < (2::rat) powi e" by simp
  with assms(1) have pos: "0 < a" by linarith
  have i: "ilog2 a = e" using assms(1,2) by (rule ilog2_eqI)
  show ?thesis
    using pos assms(3,4,5) by (simp add: round_to_double_def Let_def i)
qed

lemma power_int_units: "(2::rat) powi (int a - 1074) = 2 ^ a / 2 ^ 1074"
proof -
  have "(2::rat) powi (int a - int n) = 2 powi (int a) / 2 powi (int n)" for n :: nat
    by (simp add: power_int_diff)
  then have "(2::rat) powi (int a - int n) = 2 ^ a / 2 ^ n" for n :: nat by simp
  from this [of 1074] show ?thesis by simp
qed

lemma double_div10_ddiv:
  assumes "m < 2 ^ 2098"
  shows "ddiv (Fin (of_nat m / 2 ^ 1074)) (Fin 10) = Fin (of_nat (double_div10 m) / 2 ^ 1074)"
proof (cases "m = 0")
  case True
  then show ?thesis
    by (simp add: ddiv_def round_to_double_def double_div10_def round_half_even_def)
next
  case False
  define a :: rat where "a = of_nat m / 2 ^ 1074 / 10"
  define q where "q = m div 10"
  define j where "j = floorlog 2 q - 53"
  define k where "k = round_half_even m (10 * 2 ^ j)"
  have apos: "0 < a" using False by (simp add: a_def)
  have m10: "of_nat q \<le> (of_nat m :: rat) / 10" "(of_nat m :: rat) / 10 < of_nat q + 1"
  proof -
    have "m = 10 * q + m mod 10" by (simp add: q_def)
    then have e: "(of_nat m :: rat) = 10 * of_nat q + of_nat (m mod 10)"
      by (metis of_nat_add of_nat_mult of_nat_numeral)
    have "m mod 10 < 10" by simp
    then have "(of_nat (m mod 10) :: rat) < of_nat 10" by (simp only: of_nat_less_iff)
    then have "(of_nat (m mod 10) :: rat) < 10" by simp
    moreover have "0 \<le> (of_nat (m mod 10) :: rat)" by simp
    ultimately show "of_nat q \<le> (of_nat m :: rat) / 10" "(of_nat m :: rat) / 10 < of_nat q + 1"
      unfolding e by simp_all
  qed
  have "\<exists>e. 2 powi e \<le> a \<and> a < 2 powi (e + 1) \<and> max e (- 1022) - 52 = int j - 1074"
  proof (cases "floorlog 2 q \<le> 53")
    case True
    then have j0: "j = 0" by (simp add: j_def)
    from True have "q < 2 ^ 53" by (simp add: floorlog_le_iff)
    then have "q + 1 \<le> 2 ^ 53" by simp
    then have "(of_nat (q + 1) :: rat) \<le> of_nat (2 ^ 53)" by (simp only: of_nat_le_iff)
    then have "(of_nat q :: rat) + 1 \<le> 2 ^ 53" by simp
    with m10 have "(of_nat m :: rat) / 10 < 2 ^ 53" by linarith
    then have "a < 2 ^ 53 / 2 ^ 1074" by (simp add: a_def field_simps)
    also have "(2::rat) ^ 53 / 2 ^ 1074 = 2 powi (- 1021)"
      using power_int_units [of 53] by simp
    finally have up: "a < 2 powi (- 1021)" .
    from ilog2_bounds [OF apos] have b: "2 powi (ilog2 a) \<le> a" "a < 2 powi (ilog2 a + 1)" by simp_all
    have "ilog2 a \<le> - 1022"
    proof (rule ccontr)
      assume "\<not> ilog2 a \<le> - 1022"
      then have "- 1021 \<le> ilog2 a" by simp
      then have "(2::rat) powi (- 1021) \<le> 2 powi (ilog2 a)" by (intro power_int_increasing) simp_all
      with b up show False by linarith
    qed
    then have "max (ilog2 a) (- 1022) - 52 = int j - 1074" by (simp add: j0)
    with b show ?thesis by blast
  next
    case False
    define f where "f = floorlog 2 q"
    from False have f: "54 \<le> f" "j = f - 53" by (simp_all add: f_def j_def)
    have "q \<noteq> 0"
    proof
      assume "q = 0"
      then have "floorlog 2 q = 0" by (simp add: floorlog_def)
      with False show False by simp
    qed
    then have qb: "2 ^ (f - 1) \<le> q" "q < 2 ^ f"
      using floorlog_bounds [of q 2] by (simp_all add: f_def)
    define e where "e = int f - 1 - 1074"
    have "(of_nat (2 ^ (f - 1)) :: rat) \<le> of_nat q" using qb(1) by (simp only: of_nat_le_iff)
    then have "(2::rat) ^ (f - 1) \<le> of_nat q" by (simp only: of_nat_power of_nat_numeral)
    then have lo: "(2::rat) ^ (f - 1) \<le> of_nat m / 10" using m10 by linarith
    have "q + 1 \<le> 2 ^ f" using qb(2) by simp
    then have "(of_nat (q + 1) :: rat) \<le> of_nat (2 ^ f)" by (simp only: of_nat_le_iff)
    then have "(of_nat q :: rat) + 1 \<le> 2 ^ f"
      by (simp only: of_nat_power of_nat_numeral of_nat_add of_nat_1)
    then have hi: "(of_nat m :: rat) / 10 < 2 ^ f" using m10 by linarith
    have p1: "(2::rat) powi e = 2 ^ (f - 1) / 2 ^ 1074"
    proof -
      have "e = int (f - 1) - 1074" using f by (simp add: e_def)
      then show ?thesis by (simp only: power_int_units)
    qed
    have p2: "(2::rat) powi (e + 1) = 2 ^ f / 2 ^ 1074"
    proof -
      have "e + 1 = int f - 1074" by (simp add: e_def)
      then show ?thesis by (simp only: power_int_units)
    qed
    have "2 powi e \<le> a" unfolding p1 a_def using lo by (simp add: field_simps)
    moreover have "a < 2 powi (e + 1)" unfolding p2 a_def using hi by (simp add: field_simps)
    moreover have "max e (- 1022) - 52 = int j - 1074" using f by (simp add: e_def)
    ultimately show ?thesis by blast
  qed
  then obtain e where e: "2 powi e \<le> a" "a < 2 powi (e + 1)"
    and u: "max e (- 1022) - 52 = int j - 1074" by blast
  have ulp: "(2::rat) powi (int j - 1074) = 2 ^ j / 2 ^ 1074"
    by (rule power_int_units)
  have "a / 2 powi (max e (- 1022) - 52) = of_nat m / of_nat (10 * 2 ^ j)"
    unfolding u ulp by (simp add: a_def)
  moreover have "round_half_even_rat (of_nat m / of_nat (10 * 2 ^ j)) = int k"
    unfolding k_def by (rule round_half_even_rat_of_nat) simp
  ultimately have r1: "round_half_even_rat (a / 2 powi (max e (- 1022) - 52)) = int k" by simp
  have r2: "of_int (int k) * 2 powi (max e (- 1022) - 52) = (of_nat (2 ^ j * k) :: rat) / 2 ^ 1074"
    unfolding u ulp by simp
  have "2 ^ j * k < 2 ^ 2098"
  proof -
    have "k \<le> m div (10 * 2 ^ j) + 1" unfolding k_def by (rule round_half_even_le)
    then have "2 ^ j * k \<le> 2 ^ j * (m div (10 * 2 ^ j) + 1)" by (rule mult_le_mono2)
    also have "\<dots> = 2 ^ j * (q div 2 ^ j) + 2 ^ j"
      by (simp add: q_def div_mult2_eq algebra_simps)
    also have "\<dots> \<le> q + 2 ^ j" by simp
    finally have b1: "2 ^ j * k \<le> q + 2 ^ j" .
    have b2: "(2::nat) ^ j \<le> q + 1"
    proof (cases "floorlog 2 q \<le> 53")
      case True
      then show ?thesis by (simp add: j_def)
    next
      case False
      have "q \<noteq> 0"
      proof
        assume "q = 0"
        then have "floorlog 2 q = 0" by (simp add: floorlog_def)
        with False show False by simp
      qed
      then have "2 ^ (floorlog 2 q - 1) \<le> q" using floorlog_bounds [of q 2] by simp
      moreover have "(2::nat) ^ j \<le> 2 ^ (floorlog 2 q - 1)"
        unfolding j_def by (intro power_increasing) simp_all
      ultimately show ?thesis by linarith
    qed
    have "10 * q \<le> m" by (simp add: q_def)
    with b1 b2 assms False show ?thesis by linarith
  qed
  then have "(of_nat (2 ^ j * k) :: rat) < of_nat (2 ^ 2098)" by (simp only: of_nat_less_iff)
  then have "(of_nat (2 ^ j * k) :: rat) / 2 ^ 1074 < 2 ^ 2098 / 2 ^ 1074"
    by (simp add: divide_strict_right_mono)
  also have "(2::rat) ^ 2098 / 2 ^ 1074 = 2 ^ 1024"
  proof -
    have "(2::rat) ^ 2098 = 2 ^ 1024 * 2 ^ 1074" by (simp only: power_add [symmetric]) simp
    then show ?thesis by simp
  qed
  finally have r3: "(of_nat (2 ^ j * k) :: rat) / 2 ^ 1074 < 2 ^ 1024" .
  from round_to_double_eq [OF e r1 r2 r3]
  have "round_to_double a = Fin (of_nat (2 ^ j * k) / 2 ^ 1074)" .
  moreover have "double_div10 m = 2 ^ j * k"
    by (simp add: double_div10_def Let_def j_def q_def k_def)
  ultimately show ?thesis by (simp add: ddiv_def a_def)
qed

lemma double_of_nat_number: "Fin (of_nat (double_of_nat n) / 2 ^ 1074) = number_of_nat n"
  by (simp add: double_of_nat_def number_of_nat_def)

section \<open>Re-adding a member\<close>

lemma Cluster_addMarker_member:
  assumes "c_markers c = Some ms" and "marker \<in> set ms"
  shows "Cluster_addMarker h mc marker (c, st) = Inr (False, c, st)"
  using assms by (simp add: Cluster_addMarker_def isMarkerAlreadyAdded_def)

text \<open>
  C5.  A second \<^verbatim>\<open>addMarker\<close> with a marker that is already a member of the cluster
  returns false and changes nothing: the cluster (member sequence and count, center,
  bounds, icon) and the store of markers are returned as they were.
\<close>

theorem addMarker_again_no_mutation:
  assumes "c_markers c = Some ms" and "marker \<in> set ms"
  shows "Cluster_addMarker h mc marker (c, st) = Inr (False, c, st)"
  using assms by (rule Cluster_addMarker_member)

theorem addMarker_again_no_mutation_witness:
  "c_markers ((Cluster_constructor ex_mc)\<lparr>c_markers := Some [4, 7]\<rparr>) = Some [4, 7] \<and>
   (7::nat) \<in> set [4, 7] \<and>
   Cluster_addMarker ex_host ex_mc 7 ((Cluster_constructor ex_mc)\<lparr>c_markers := Some [4, 7]\<rparr>, ex_store) =
     Inr (False, (Cluster_constructor ex_mc)\<lparr>c_markers := Some [4, 7]\<rparr>, ex_store)"
proof -
  have h1: "c_markers ((Cluster_constructor ex_mc)\<lparr>c_markers := Some [4, 7]\<rparr>) = Some [4, 7]"
    by simp
  have h2: "(7::nat) \<in> set [4, 7]" by simp
  show ?thesis
    using h1 h2 addMarker_again_no_mutation [OF h1 h2, of ex_host ex_mc ex_store] by simp
qed

section \<open>The summary the default calculator returns\<close>

lemma default_calculator_saturates:
  assumes "mks \<noteq> []" and "numStyles \<le> 268"
  shows "DEFAULT_SUMCALCULATOR_FUNCTION mks numStyles =
           \<lparr>sum_text = Num (length mks), sum_index = int numStyles\<rparr>"
proof -
  from assms(1) have "16 ^ 268 \<le> double_of_nat (length mks)"
    by (intro double_of_nat_ge) simp
  then have "0 + 268 < sumcalc_loop (double_of_nat (length mks)) 0"
    by (rule sumcalc_loop_gt)
  with assms(2) have "min (sumcalc_loop (double_of_nat (length mks)) 0) numStyles = numStyles"
    by simp
  then show ?thesis by (simp add: DEFAULT_SUMCALCULATOR_FUNCTION_def Let_def)
qed

text \<open>
  C4.  The loop of the default calculator divides doubles, so \<^verbatim>\<open>dv\<close> reaches zero only
  by underflow, after far more iterations than the member count has digits: for
  three members and five styles the calculator returns the text 3 and the style index 5,
  where \<open>floor (log10 3) + 1\<close> is 1.
\<close>

theorem default_calculator_three_members_five_styles:
  "DEFAULT_SUMCALCULATOR_FUNCTION [mk1, mk2, mk3] 5 = \<lparr>sum_text = Num 3, sum_index = 5\<rparr>"
  using default_calculator_saturates [of "[mk1, mk2, mk3]" 5] by simp

section \<open>The average-center option\<close>

text \<open>
  Whatever the options are, the clusterer that the constructor returns is in
  average-center mode.
\<close>

lemma constructor_averageCenter:
  "MarkerClusterer_constructor h static_styles mp [] options calc cf st = Inr (mc, st1, static_styles1)
   \<Longrightarrow> averageCenter mc"
  by (auto simp: MarkerClusterer_constructor_def Let_def setupStyles_def or_bool_def
      DEFAULT_MARKERCLUSTER_OPTIONS_def split: option.splits if_splits)

text \<open>
  The default \<^verbatim>\<open>styles\<close> array is shared between clusterers: one that is constructed
  without \<^verbatim>\<open>styles\<close> fills the static array when it is empty, and takes it as it is
  otherwise, whatever its own image path.
\<close>

lemma constructor_shares_default_styles:
  assumes "opt_styles options = None"
  shows "\<exists>mc. MarkerClusterer_constructor h static_styles mp [] options calc cf st =
                 Inr (mc, st, styles mc) \<and>
              (static_styles \<noteq> [] \<longrightarrow> styles mc = static_styles) \<and>
              (static_styles = [] \<longrightarrow> length (styles mc) = 5)"
  using assms
  by (simp add: MarkerClusterer_constructor_def Let_def setupStyles_def or_array_def)

lemma ex_constructor:
  "MarkerClusterer_constructor ex_host [] 0 [] ex_options DEFAULT_SUMCALCULATOR_FUNCTION
     DEFAULT_CLUSTERIZER_FUNCTION ex_store = Inr (ex_mc, ex_store, [])"
  by (simp add: MarkerClusterer_constructor_def Let_def setupStyles_def or_bool_def or_number_def
      truthy_num_def or_int_def or_int_null_def or_string_def or_array_def
      DEFAULT_MARKERCLUSTER_OPTIONS_def ex_options_def ex_mc_def ex_host_def)

text \<open>
  C6.  A clusterer constructed with the option \<^verbatim>\<open>averageCenter: false\<close> (as in
  \<open>ex_options\<close>) has its average-center flag set all the same, because the constructor
  takes the default \<^verbatim>\<open>true\<close> whenever the option is falsy.  A cluster of that
  clusterer that receives marker 2 and then marker 4 has its center at longitude 2 after
  the first and at longitude 3 after the second: the center moved off the first member.
\<close>

theorem averageCenter_false_is_ignored:
  "MarkerClusterer_constructor ex_host [] 0 [] ex_options DEFAULT_SUMCALCULATOR_FUNCTION
     DEFAULT_CLUSTERIZER_FUNCTION ex_store = Inr (ex_mc, ex_store, []) \<and>
   opt_averageCenter ex_options = Some False \<and>
   averageCenter ex_mc = True \<and>
   map_sum id (\<lambda>cs. c_center (fst cs))
     (addMarker_seq ex_host ex_mc [2] (Cluster_constructor ex_mc, ex_store)) =
     Inr (Some \<lparr>lat = Fin 0, lng = Fin 2\<rparr>) \<and>
   map_sum id (\<lambda>cs. c_center (fst cs))
     (addMarker_seq ex_host ex_mc [2, 4] (Cluster_constructor ex_mc, ex_store)) =
     Inr (Some \<lparr>lat = Fin 0, lng = Fin 3\<rparr>)"
proof -
  have "map_sum id (\<lambda>cs. c_center (fst cs))
     (addMarker_seq ex_host ex_mc [2] (Cluster_constructor ex_mc, ex_store)) =
     Inr (Some \<lparr>lat = Fin 0, lng = Fin 2\<rparr>)"
    by (simp add: Cluster_addMarker_def isMarkerAlreadyAdded_def Cluster_updateIcon_def
        Cluster_constructor_def ex_mc_def ex_store_def ex_position_def Let_def set_isAdded_def
        Marker_setMap_def double_ops)
  moreover have "map_sum id (\<lambda>cs. c_center (fst cs))
     (addMarker_seq ex_host ex_mc [2, 4] (Cluster_constructor ex_mc, ex_store)) =
     Inr (Some \<lparr>lat = Fin 0, lng = Fin 3\<rparr>)"
    by (simp add: Cluster_addMarker_def isMarkerAlreadyAdded_def Cluster_updateIcon_def
        Cluster_constructor_def ex_mc_def ex_store_def ex_position_def Let_def set_isAdded_def
        Marker_setMap_def double_ops)
  moreover have "opt_averageCenter ex_options = Some False" "averageCenter ex_mc = True"
    by (simp_all add: ex_options_def ex_mc_def)
  ultimately show ?thesis using ex_constructor by simp
qed

section \<open>The value removeMarker returns\<close>

text \<open>
  C7.  With the redraw suppressed (\<^verbatim>\<open>noRedraw = true\<close>), \<^verbatim>\<open>removeMarker\<close> of a
  marker that is in the collection (here its first element) removes it from the
  collection and takes it off the map, and returns false.
\<close>

theorem removeMarker_suppressed_returns_false:
  "MarkerClusterer_removeMarker cf h marker True (mc\<lparr>markers := marker # rest\<rparr>, st) =
     Inr (False, mc\<lparr>markers := rest\<rparr>, Marker_setMap marker None st)"
  by (simp add: MarkerClusterer_removeMarker_def removeMarker_private_def)

section \<open>Disposing a cluster twice\<close>

text \<open>
  C10, as the code has it.  On a cluster that \<^verbatim>\<open>remove()\<close> has already disposed, a
  second \<^verbatim>\<open>remove()\<close> does not complete: it raises a TypeError, because the first call
  released the member array (set it to null).  The one update it makes before raising,
  detaching the icon again, leaves the icon as it was.
\<close>

theorem remove_twice_raises:
  assumes "Cluster_remove c = Inr c1"
  shows "Cluster_remove c1 = Inl TypeError \<and> c_markers c1 = None \<and>
         ClusterIcon_remove (c_clusterIcon c1) = c_clusterIcon c1"
  using assms
  by (auto simp: Cluster_remove_def Let_def ClusterIcon_remove_def split: option.splits)

theorem remove_twice_raises_witness:
  "Cluster_remove (Cluster_constructor ex_mc) =
     Inr ((Cluster_constructor ex_mc)
            \<lparr>c_clusterIcon := ClusterIcon_remove (c_clusterIcon (Cluster_constructor ex_mc)),
             c_markers := None\<rparr>) \<and>
   Cluster_remove ((Cluster_constructor ex_mc)
            \<lparr>c_clusterIcon := ClusterIcon_remove (c_clusterIcon (Cluster_constructor ex_mc)),
             c_markers := None\<rparr>) = Inl TypeError"
proof -
  have h: "Cluster_remove (Cluster_constructor ex_mc) =
     Inr ((Cluster_constructor ex_mc)
            \<lparr>c_clusterIcon := ClusterIcon_remove (c_clusterIcon (Cluster_constructor ex_mc)),
             c_markers := None\<rparr>)"
    by (simp add: Cluster_remove_def Cluster_constructor_def Let_def)
  show ?thesis using h remove_twice_raises [OF h] by simp
qed

text \<open>
  The claim that a second disposal is a no-op that completes without error fails on a
  fresh cluster disposed twice.
\<close>

theorem remove_twice_counterexample:
  "map_sum id (\<lambda>c1. Cluster_remove c1) (Cluster_remove (Cluster_constructor ex_mc)) =
     Inr (Inl TypeError)"
  by (simp add: Cluster_remove_def Cluster_constructor_def Let_def)

section \<open>Facts about addMarker and updateIcon\<close>

lemma fold_setMap_in:
  "m \<in> set ms \<Longrightarrow> marker_map (fold (\<lambda>mk. Marker_setMap mk v) ms st m) = v"
  by (induction ms arbitrary: st rule: rev_induct) (auto simp: Marker_setMap_def)

lemma fold_setMap_out:
  "m \<notin> set ms \<Longrightarrow> fold (\<lambda>mk. Marker_setMap mk v) ms st m = st m"
  by (induction ms arbitrary: st) (auto simp: Marker_setMap_def)

lemma fold_setMap_position:
  "position (fold (\<lambda>mk. Marker_setMap mk v) ms st m) = position (st m)"
  by (induction ms arbitrary: st) (auto simp: Marker_setMap_def)

lemma LatLng_eta: "\<lparr>lat = lat p, lng = lng p\<rparr> = (p::LatLng)"
  by (cases p) simp

section \<open>The icon refresh\<close>

text \<open>
  What the icon refresh does on a live cluster with members \<open>ms\<close>: it completes and leaves
  every field of the cluster but its icon as it was.  If a max zoom is configured and the
  current zoom exceeds it, every member is put on the cluster's map, no other marker
  changes, and the icon is left exactly as it was.  Otherwise, if the member count is
  below the threshold the icon is hidden; otherwise the icon is shown, its center is the
  cluster's center and its summary is the one the calculator returns for the members and
  the number of styles.  In both of these cases no marker changes.
\<close>

lemma Cluster_updateIcon_cases:
  assumes "c_markers c = Some ms"
  shows "\<exists>c1 st1. Cluster_updateIcon h mc (c, st) = Inr (c1, st1) \<and>
           c1\<lparr>c_clusterIcon := c_clusterIcon c\<rparr> = c \<and>
           (if zoom_exceeds h mc then
              (\<forall>m \<in> set ms. marker_map (st1 m) = Some (c_map c)) \<and>
              (\<forall>m. m \<notin> set ms \<longrightarrow> st1 m = st m) \<and>
              c_clusterIcon c1 = c_clusterIcon c
            else if int (length ms) < c_minClusterSize c then
              st1 = st \<and> \<not> icon_visible (c_clusterIcon c1)
            else
              st1 = st \<and> icon_visible (c_clusterIcon c1) \<and>
              icon_center (c_clusterIcon c1) = c_center c \<and>
              icon_sum (c_clusterIcon c1) =
                Some (sumCalculatorFunc mc (map st ms) (length (styles mc))))"
proof (cases "zoom_exceeds h mc")
  case True
  then show ?thesis using assms
    by (auto simp: Cluster_updateIcon_def zoom_exceeds_def Let_def fold_setMap_in fold_setMap_out
        split: option.splits)
next
  case False
  then show ?thesis using assms
    by (auto simp: Cluster_updateIcon_def zoom_exceeds_def Let_def ClusterIcon_hide_def
        ClusterIcon_show_def setSum_def useStyle_def setCenter_def split: option.splits)
qed

text \<open>
  C9, as the code has it at a failing input.  A fresh cluster of threshold 2 receives
  markers 2 and 4: its icon is shown and both markers are off the map.  The max zoom is
  then set to 2, the zoom being 3, and the icon refreshed: both markers are put on the
  map (map 0) and the icon is still visible.  The branch of \<^verbatim>\<open>updateIcon\<close> for a zoom
  above the max zoom shows the members and returns; it does not call
  \<^verbatim>\<open>clusterIcon_.hide()\<close>, as the branch for a count below the threshold does.
\<close>

theorem updateIcon_above_maxZoom_keeps_icon:
  "map_sum id (\<lambda>cs. (icon_visible (c_clusterIcon (fst cs)), marker_map (snd cs 2), marker_map (snd cs 4)))
     (addMarker_seq ex_host ex_mc [2, 4] (Cluster_constructor ex_mc, ex_store)) =
     Inr (True, None, None) \<and>
   zoom_exceeds ex_host (setMaxZoom (Some 2) ex_mc) \<and>
   map_sum id (\<lambda>cs. (icon_visible (c_clusterIcon (fst cs)), marker_map (snd cs 2), marker_map (snd cs 4)))
     (case addMarker_seq ex_host ex_mc [2, 4] (Cluster_constructor ex_mc, ex_store) of
        Inl e \<Rightarrow> Inl e
      | Inr cs \<Rightarrow> Cluster_updateIcon ex_host (setMaxZoom (Some 2) ex_mc) cs) =
     Inr (True, Some 0, Some 0)"
  by (simp add: Cluster_addMarker_def isMarkerAlreadyAdded_def Cluster_updateIcon_def
        Cluster_constructor_def ex_mc_def ex_store_def ex_host_def Let_def set_isAdded_def
        Marker_setMap_def ClusterIcon_show_def setSum_def useStyle_def setCenter_def
        ClusterIcon_constructor_def setMaxZoom_def zoom_exceeds_def)

section \<open>The threshold transition\<close>

lemma addMarker_new_visibility:
  assumes "c_markers c = Some ms" and "marker \<notin> set ms" and "\<not> zoom_exceeds h mc"
  shows "\<exists>c1 st1. Cluster_addMarker h mc marker (c, st) = Inr (True, c1, st1) \<and>
           c_markers c1 = Some (ms @ [marker]) \<and>
           c_minClusterSize c1 = c_minClusterSize c \<and> c_map c1 = c_map c \<and>
           (if int (length ms) + 1 < c_minClusterSize c then
              marker_map (st1 marker) = Some (c_map c) \<and>
              (\<forall>m. m \<noteq> marker \<longrightarrow> marker_map (st1 m) = marker_map (st m)) \<and>
              \<not> icon_visible (c_clusterIcon c1)
            else if int (length ms) + 1 = c_minClusterSize c then
              (\<forall>m \<in> set (ms @ [marker]). marker_map (st1 m) = None) \<and>
              (\<forall>m. m \<notin> set (ms @ [marker]) \<longrightarrow> marker_map (st1 m) = marker_map (st m)) \<and>
              icon_visible (c_clusterIcon c1)
            else
              marker_map (st1 marker) = None \<and>
              (\<forall>m. m \<noteq> marker \<longrightarrow> marker_map (st1 m) = marker_map (st m)) \<and>
              icon_visible (c_clusterIcon c1))"
  using assms
  by (auto simp: Cluster_addMarker_def isMarkerAlreadyAdded_def Cluster_updateIcon_def
      zoom_exceeds_def Let_def ClusterIcon_hide_def ClusterIcon_show_def setSum_def useStyle_def
      setCenter_def set_isAdded_def Marker_setMap_def fold_setMap_in fold_setMap_out
      split: option.splits)

lemma addMarker_new_settled:
  assumes "visibility_settled ms (c, st)" and "marker \<notin> set ms" and "\<not> zoom_exceeds h mc"
  shows "\<exists>c1 st1. Cluster_addMarker h mc marker (c, st) = Inr (True, c1, st1) \<and>
           c_minClusterSize c1 = c_minClusterSize c \<and> c_map c1 = c_map c \<and>
           visibility_settled (ms @ [marker]) (c1, st1)"
proof -
  from assms(1) have ms: "c_markers c = Some ms" by (simp add: visibility_settled_def)
  from addMarker_new_visibility [OF ms assms(2,3), of st]
  obtain c1 st1 where r: "Cluster_addMarker h mc marker (c, st) = Inr (True, c1, st1)"
    and m1: "c_markers c1 = Some (ms @ [marker])"
    and k1: "c_minClusterSize c1 = c_minClusterSize c" and p1: "c_map c1 = c_map c"
    and v: "if int (length ms) + 1 < c_minClusterSize c then
              marker_map (st1 marker) = Some (c_map c) \<and>
              (\<forall>m. m \<noteq> marker \<longrightarrow> marker_map (st1 m) = marker_map (st m)) \<and>
              \<not> icon_visible (c_clusterIcon c1)
            else if int (length ms) + 1 = c_minClusterSize c then
              (\<forall>m \<in> set (ms @ [marker]). marker_map (st1 m) = None) \<and>
              (\<forall>m. m \<notin> set (ms @ [marker]) \<longrightarrow> marker_map (st1 m) = marker_map (st m)) \<and>
              icon_visible (c_clusterIcon c1)
            else
              marker_map (st1 marker) = None \<and>
              (\<forall>m. m \<noteq> marker \<longrightarrow> marker_map (st1 m) = marker_map (st m)) \<and>
              icon_visible (c_clusterIcon c1)"
    by blast
  have "visibility_settled (ms @ [marker]) (c1, st1)"
  proof (cases "int (length ms) + 1 < c_minClusterSize c")
    case True
    with v assms(1,2) m1 k1 p1 show ?thesis
      by (auto simp: visibility_settled_def)
  next
    case False
    note nlt = this
    show ?thesis
    proof (cases "int (length ms) + 1 = c_minClusterSize c")
      case True
      with v m1 k1 p1 show ?thesis
        by (auto simp: visibility_settled_def)
    next
      case False
      with nlt v assms(1,2) m1 k1 p1 show ?thesis
        by (cases "ms = []") (auto simp: visibility_settled_def)
    qed
  qed
  with r k1 p1 show ?thesis by blast
qed

lemma addMarker_seq_settled:
  assumes "\<not> zoom_exceeds h mc"
  shows "distinct ms \<Longrightarrow> set ms \<inter> set ms0 = {} \<Longrightarrow> visibility_settled ms0 (c, st) \<Longrightarrow>
         \<exists>c1 st1. addMarker_seq h mc ms (c, st) = Inr (c1, st1) \<and>
           c_minClusterSize c1 = c_minClusterSize c \<and> c_map c1 = c_map c \<and>
           visibility_settled (ms0 @ ms) (c1, st1)"
proof (induction ms arbitrary: ms0 c st)
  case Nil
  then show ?case by simp
next
  case (Cons marker rest)
  from Cons.prems have notin: "marker \<notin> set ms0" by auto
  from addMarker_new_settled [OF Cons.prems(3) notin assms]
  obtain c1 st1 where r: "Cluster_addMarker h mc marker (c, st) = Inr (True, c1, st1)"
    and k1: "c_minClusterSize c1 = c_minClusterSize c" and p1: "c_map c1 = c_map c"
    and s1: "visibility_settled (ms0 @ [marker]) (c1, st1)"
    by blast
  from Cons.prems have "distinct rest" "set rest \<inter> set (ms0 @ [marker]) = {}" by auto
  from Cons.IH [OF this s1]
  obtain c2 st2 where "addMarker_seq h mc rest (c1, st1) = Inr (c2, st2)"
    and "c_minClusterSize c2 = c_minClusterSize c1" and "c_map c2 = c_map c1"
    and "visibility_settled ((ms0 @ [marker]) @ rest) (c2, st2)"
    by blast
  with r k1 p1 show ?case by simp
qed

text \<open>
  C3, as the code has it: provided that no configured max zoom is exceeded by the current
  zoom when markers are added.  A successful add to a cluster with members \<open>ms\<close>
  completes with the marker appended, and: while the new count is below the threshold the
  new marker is put on the map, the other markers keep their map and the icon is not
  visible; when the new count equals the threshold all members are taken off the map and
  the icon is visible; when it is above, the new marker is taken off the map, the others
  keep theirs and the icon is visible.  Hence, adding distinct markers \<open>ns\<close> to a fresh
  cluster of the clusterer: if their number is below the threshold (as for \<open>k - 1\<close>
  markers) all of them are on the map and the icon is not visible; if it has reached the
  threshold (as for \<open>k\<close> markers) all of them are off the map and the icon is visible.
\<close>

theorem threshold_transition:
  assumes "\<not> zoom_exceeds h mc"
  shows "(c_markers c = Some ms \<and> marker \<notin> set ms \<longrightarrow>
           (\<exists>c1 st1. Cluster_addMarker h mc marker (c, st) = Inr (True, c1, st1) \<and>
              c_markers c1 = Some (ms @ [marker]) \<and>
              (if int (length ms) + 1 < c_minClusterSize c then
                 marker_map (st1 marker) = Some (c_map c) \<and>
                 (\<forall>m. m \<noteq> marker \<longrightarrow> marker_map (st1 m) = marker_map (st m)) \<and>
                 \<not> icon_visible (c_clusterIcon c1)
               else if int (length ms) + 1 = c_minClusterSize c then
                 (\<forall>m \<in> set (ms @ [marker]). marker_map (st1 m) = None) \<and>
                 icon_visible (c_clusterIcon c1)
               else
                 marker_map (st1 marker) = None \<and>
                 (\<forall>m. m \<noteq> marker \<longrightarrow> marker_map (st1 m) = marker_map (st m)) \<and>
                 icon_visible (c_clusterIcon c1)))) \<and>
         (distinct ns \<longrightarrow>
            (\<exists>c1 st1. addMarker_seq h mc ns (Cluster_constructor mc, st0) = Inr (c1, st1) \<and>
               c_markers c1 = Some ns \<and>
               (int (length ns) < minClusterSize mc \<longrightarrow>
                  (\<forall>m \<in> set ns. marker_map (st1 m) = Some (gmap mc)) \<and>
                  \<not> icon_visible (c_clusterIcon c1)) \<and>
               (ns \<noteq> [] \<and> minClusterSize mc \<le> int (length ns) \<longrightarrow>
                  (\<forall>m \<in> set ns. marker_map (st1 m) = None) \<and>
                  icon_visible (c_clusterIcon c1))))"
proof (intro conjI impI)
  assume "c_markers c = Some ms \<and> marker \<notin> set ms"
  then have "c_markers c = Some ms" "marker \<notin> set ms" by simp_all
  from addMarker_new_visibility [OF this assms, of st]
  show "\<exists>c1 st1. Cluster_addMarker h mc marker (c, st) = Inr (True, c1, st1) \<and>
              c_markers c1 = Some (ms @ [marker]) \<and>
              (if int (length ms) + 1 < c_minClusterSize c then
                 marker_map (st1 marker) = Some (c_map c) \<and>
                 (\<forall>m. m \<noteq> marker \<longrightarrow> marker_map (st1 m) = marker_map (st m)) \<and>
                 \<not> icon_visible (c_clusterIcon c1)
               else if int (length ms) + 1 = c_minClusterSize c then
                 (\<forall>m \<in> set (ms @ [marker]). marker_map (st1 m) = None) \<and>
                 icon_visible (c_clusterIcon c1)
               else
                 marker_map (st1 marker) = None \<and>
                 (\<forall>m. m \<noteq> marker \<longrightarrow> marker_map (st1 m) = marker_map (st m)) \<and>
                 icon_visible (c_clusterIcon c1))"
    by (elim exE conjE, intro exI conjI) (simp_all split: if_splits)
next
  assume d: "distinct ns"
  have fresh: "visibility_settled [] (Cluster_constructor mc, st0)"
    by (simp add: visibility_settled_def Cluster_constructor_def ClusterIcon_constructor_def)
  have "set ns \<inter> set [] = {}" by simp
  from addMarker_seq_settled [OF assms d this fresh]
  obtain c1 st1 where r: "addMarker_seq h mc ns (Cluster_constructor mc, st0) = Inr (c1, st1)"
    and k: "c_minClusterSize c1 = c_minClusterSize (Cluster_constructor mc)"
    and p: "c_map c1 = c_map (Cluster_constructor mc)"
    and v: "visibility_settled ([] @ ns) (c1, st1)"
    by blast
  have "c_minClusterSize (Cluster_constructor mc) = minClusterSize mc"
       "c_map (Cluster_constructor mc) = gmap mc"
    by (simp_all add: Cluster_constructor_def)
  with r k p v
  show "\<exists>c1 st1. addMarker_seq h mc ns (Cluster_constructor mc, st0) = Inr (c1, st1) \<and>
               c_markers c1 = Some ns \<and>
               (int (length ns) < minClusterSize mc \<longrightarrow>
                  (\<forall>m \<in> set ns. marker_map (st1 m) = Some (gmap mc)) \<and>
                  \<not> icon_visible (c_clusterIcon c1)) \<and>
               (ns \<noteq> [] \<and> minClusterSize mc \<le> int (length ns) \<longrightarrow>
                  (\<forall>m \<in> set ns. marker_map (st1 m) = None) \<and>
                  icon_visible (c_clusterIcon c1))"
    by (simp add: visibility_settled_def)
qed

theorem threshold_transition_witness:
  "\<not> zoom_exceeds ex_host ex_mc \<and> minClusterSize ex_mc = 2 \<and> gmap ex_mc = 0 \<and>
   (\<exists>c1 st1. addMarker_seq ex_host ex_mc [2] (Cluster_constructor ex_mc, ex_store) = Inr (c1, st1) \<and>
      marker_map (st1 2) = Some 0 \<and> \<not> icon_visible (c_clusterIcon c1)) \<and>
   (\<exists>c1 st1. addMarker_seq ex_host ex_mc [2, 4] (Cluster_constructor ex_mc, ex_store) = Inr (c1, st1) \<and>
      marker_map (st1 2) = None \<and> marker_map (st1 4) = None \<and> icon_visible (c_clusterIcon c1))"
proof -
  have z: "\<not> zoom_exceeds ex_host ex_mc"
    by (simp add: zoom_exceeds_def ex_mc_def)
  have k: "minClusterSize ex_mc = 2" "gmap ex_mc = 0"
    by (simp_all add: ex_mc_def)
  have one: "\<exists>c1 st1. addMarker_seq ex_host ex_mc [2] (Cluster_constructor ex_mc, ex_store) = Inr (c1, st1) \<and>
      marker_map (st1 2) = Some 0 \<and> \<not> icon_visible (c_clusterIcon c1)"
    using threshold_transition [OF z, where ns = "[2]" and ?st0.0 = ex_store, THEN conjunct2] k
    by (auto simp del: addMarker_seq.simps)
  have two: "\<exists>c1 st1. addMarker_seq ex_host ex_mc [2, 4] (Cluster_constructor ex_mc, ex_store) = Inr (c1, st1) \<and>
      marker_map (st1 2) = None \<and> marker_map (st1 4) = None \<and> icon_visible (c_clusterIcon c1)"
    using threshold_transition [OF z, where ns = "[2, 4]" and ?st0.0 = ex_store, THEN conjunct2] k
    by (auto simp del: addMarker_seq.simps)
  from z k one two show ?thesis by blast
qed

text \<open>
  The claim without the proviso fails: with the max zoom set to 2 and the zoom at 3, a
  fresh cluster of threshold 2 that receives markers 2 and 4 has both of them on the map
  (map 0) and its icon not visible.
\<close>

theorem threshold_transition_counterexample:
  "map_sum id (\<lambda>cs. (marker_map (snd cs 2), marker_map (snd cs 4), icon_visible (c_clusterIcon (fst cs))))
     (addMarker_seq ex_host (setMaxZoom (Some 2) ex_mc) [2, 4]
        (Cluster_constructor (setMaxZoom (Some 2) ex_mc), ex_store)) =
     Inr (Some 0, Some 0, False)"
  by (simp add: Cluster_addMarker_def isMarkerAlreadyAdded_def Cluster_updateIcon_def
        Cluster_constructor_def ex_mc_def ex_store_def ex_position_def ex_host_def Let_def set_isAdded_def
        Marker_setMap_def ClusterIcon_constructor_def setMaxZoom_def)

section \<open>The average center\<close>

lemma number_of_nat_Suc:
  assumes "n < 2 ^ 32"
  shows "dadd (number_of_nat n) (Fin 1) = number_of_nat (Suc n)"
    and "dsub (number_of_nat (Suc n)) (Fin 1) = number_of_nat n"
proof -
  have "(2::nat) ^ 32 \<le> 2 ^ 52" by (rule power_increasing) simp_all
  with assms have b: "Suc n < 2 ^ 53" "n < 2 ^ 53" by simp_all
  have "dadd (number_of_nat n) (Fin 1) = round_to_double (of_nat (Suc n))"
    by (simp add: dadd_def number_of_nat_def add.commute)
  also have "\<dots> = Fin (of_nat (Suc n))" using b(1) by (rule round_to_double_of_nat)
  finally show "dadd (number_of_nat n) (Fin 1) = number_of_nat (Suc n)" by (simp add: number_of_nat_def)
  have "dsub (number_of_nat (Suc n)) (Fin 1) = round_to_double (of_nat n)"
    by (simp add: dsub_def dadd_def dneg_def number_of_nat_def)
  also have "\<dots> = Fin (of_nat n)" using b(2) by (rule round_to_double_of_nat)
  finally show "dsub (number_of_nat (Suc n)) (Fin 1) = number_of_nat n" by (simp add: number_of_nat_def)
qed

lemma addMarker_new_center:
  assumes "c_markers c = Some ms" and "marker \<notin> set ms" and "length ms < 2 ^ 32"
  shows "\<exists>c1 st1. Cluster_addMarker h mc marker (c, st) = Inr (True, c1, st1) \<and>
           c_markers c1 = Some (ms @ [marker]) \<and>
           c_averageCenter c1 = c_averageCenter c \<and>
           (\<forall>m. position (st1 m) = position (st m)) \<and>
           isAdded (st1 marker) \<and>
           (\<forall>m. m \<noteq> marker \<longrightarrow> isAdded (st1 m) = isAdded (st m)) \<and>
           c_center c1 =
             (case c_center c of
                None \<Rightarrow> Some (position (st marker))
              | Some ctr \<Rightarrow>
                  if c_averageCenter c
                  then Some (incremental_mean ctr (length ms + 1) (position (st marker)))
                  else Some ctr) \<and>
           c_bounds c1 =
             (case c_center c of
                None \<Rightarrow> Some (calculateBounds h mc (position (st marker)))
              | Some ctr \<Rightarrow>
                  if c_averageCenter c
                  then Some (calculateBounds h mc
                               (incremental_mean ctr (length ms + 1) (position (st marker))))
                  else c_bounds c)"
proof -
  have fold_isAdded: "isAdded (fold (\<lambda>mk. Marker_setMap mk v) xs s m) = isAdded (s m)" for v xs s m
    by (induction xs arbitrary: s) (auto simp: Marker_setMap_def)
  show ?thesis
    using assms(1,2) number_of_nat_Suc [OF assms(3)]
    by (auto simp: Cluster_addMarker_def isMarkerAlreadyAdded_def Cluster_updateIcon_def
        Let_def set_isAdded_def Marker_setMap_def fold_setMap_position fold_isAdded
        incremental_mean_def
        split: option.splits)
qed

text \<open>The rounding error of one operation on numbers of moderate size.\<close>

lemma round_to_double_close:
  assumes "\<bar>q\<bar> \<le> b" and "b \<le> 2 ^ 1000"
  shows "\<exists>r. round_to_double q = Fin r \<and> \<bar>r - q\<bar> \<le> b / 2 ^ 53 + 1 / 2 ^ 1075"
proof -
  from assms have "\<bar>q\<bar> \<le> 2 ^ 1000" by linarith
  from round_to_double_error [OF this] obtain r where
    r: "round_to_double q = Fin r" "\<bar>r - q\<bar> \<le> \<bar>q\<bar> / 2 ^ 53 + 1 / 2 ^ 1075" by blast
  have "\<bar>q\<bar> / 2 ^ 53 \<le> b / 2 ^ 53" using assms(1) by (simp add: divide_right_mono)
  with r show ?thesis by (intro exI [of _ r]) linarith
qed

lemma incremental_step_error:
  fixes c m p E :: rat and k :: nat
  assumes cm: "\<bar>c - m\<bar> \<le> E" and E: "0 \<le> E" "E \<le> 1"
    and m: "\<bar>m\<bar> \<le> 180" and p: "\<bar>p\<bar> \<le> 180" and k: "k < 2 ^ 32"
  shows "within_of (E + step_tolerance)
           (ddiv (dadd (dmul (Fin c) (number_of_nat k)) (Fin p)) (number_of_nat (Suc k)))
           ((m * of_nat k + p) / of_nat (Suc k))"
proof -
  define k' :: rat where "k' = of_nat k"
  define K :: rat where "K = of_nat (Suc k)"
  define u :: rat where "u = 1 / 2 ^ 53"
  define eta :: rat where "eta = 1 / 2 ^ 1075"
  have K: "K = k' + 1" "1 \<le> K" "0 \<le> k'" by (simp_all add: K_def k'_def)
  have "Suc k \<le> 2 ^ 32" using k by simp
  then have "(of_nat (Suc k) :: rat) \<le> of_nat (2 ^ 32)" by (simp only: of_nat_le_iff)
  then have K32: "K \<le> 4294967296" by (simp add: K_def)
  have u: "0 < u" "u \<le> 1" by (simp_all add: u_def)
  have eta: "0 < eta" "eta \<le> 1" by (simp_all add: eta_def)
  have Ku: "0 \<le> K * u" "K * u \<le> K / 4" using K by (simp_all add: u_def)
  have big: "(3 * 181) * 4294967296 \<le> (2::rat) ^ 1000" by simp
  have c: "\<bar>c\<bar> \<le> 181" using cm E m by linarith
  define x1 where "x1 = c * k'"
  have "\<bar>x1\<bar> = \<bar>c\<bar> * k'" using K by (simp add: x1_def abs_mult)
  also have "\<dots> \<le> 181 * k'" using c K by (intro mult_right_mono) simp_all
  finally have x1: "\<bar>x1\<bar> \<le> 181 * K" using K by linarith
  have "181 * K \<le> 2 ^ 1000" using K32 big by linarith
  from round_to_double_close [OF x1 this] obtain t1 where
    t1: "round_to_double x1 = Fin t1" and "\<bar>t1 - x1\<bar> \<le> 181 * K / 2 ^ 53 + 1 / 2 ^ 1075"
    by blast
  then have d1: "\<bar>t1 - x1\<bar> \<le> 181 * (K * u) + eta" by (simp add: u_def eta_def)
  define x2 where "x2 = t1 + p"
  have "\<bar>x1\<bar> \<le> 181 * k'" using \<open>\<bar>x1\<bar> = \<bar>c\<bar> * k'\<close> \<open>\<bar>c\<bar> * k' \<le> 181 * k'\<close> by simp
  then have x2: "\<bar>x2\<bar> \<le> 2 * 181 * K" using d1 p K Ku eta unfolding x2_def by linarith
  have "2 * 181 * K \<le> 2 ^ 1000" using K32 big by linarith
  from round_to_double_close [OF x2 this] obtain t2 where
    t2: "round_to_double x2 = Fin t2" and "\<bar>t2 - x2\<bar> \<le> 2 * 181 * K / 2 ^ 53 + 1 / 2 ^ 1075"
    by blast
  then have d2: "\<bar>t2 - x2\<bar> \<le> 2 * 181 * (K * u) + eta" by (simp add: u_def eta_def)
  define x3 where "x3 = t2 / K"
  have "\<bar>t2\<bar> \<le> 3 * 181 * K" using x2 d2 Ku eta K by linarith
  then have "\<bar>t2\<bar> / K \<le> 3 * 181" using K by (simp add: pos_divide_le_eq)
  then have x3: "\<bar>x3\<bar> \<le> 3 * 181" using K by (simp add: x3_def)
  have "(3 * 181 :: rat) \<le> 2 ^ 1000" by simp
  from round_to_double_close [OF x3 this] obtain r where
    r: "round_to_double x3 = Fin r" and "\<bar>r - x3\<bar> \<le> 3 * 181 / 2 ^ 53 + 1 / 2 ^ 1075"
    by blast
  then have d3: "\<bar>r - x3\<bar> \<le> 3 * 181 * u + eta" by (simp add: u_def eta_def)
  define target where "target = (m * k' + p) / K"
  have "t2 - (m * k' + p) = (t2 - x2) + (t1 - x1) + (c - m) * k'"
    by (simp add: x2_def x1_def algebra_simps)
  moreover have "\<bar>(c - m) * k'\<bar> \<le> E * K"
  proof -
    have "\<bar>(c - m) * k'\<bar> = \<bar>c - m\<bar> * k'" using K by (simp add: abs_mult)
    also have "\<dots> \<le> E * k'" using cm K by (intro mult_right_mono) simp_all
    also have "\<dots> \<le> E * K" using E K by (intro mult_left_mono) simp_all
    finally show ?thesis .
  qed
  ultimately have "\<bar>t2 - (m * k' + p)\<bar> \<le> 3 * 181 * (K * u) + 2 * eta + E * K"
    using d1 d2 by linarith
  also have "\<dots> \<le> (3 * 181 * u + 2 * eta + E) * K"
  proof -
    have "2 * eta \<le> 2 * eta * K" using eta K by simp
    then show ?thesis by (simp add: algebra_simps)
  qed
  finally have "\<bar>t2 - (m * k' + p)\<bar> / K \<le> 3 * 181 * u + 2 * eta + E"
    using K by (simp add: pos_divide_le_eq)
  moreover have "x3 - target = (t2 - (m * k' + p)) / K"
    by (simp add: x3_def target_def diff_divide_distrib)
  ultimately have "\<bar>x3 - target\<bar> \<le> 3 * 181 * u + 2 * eta + E"
    using K by simp
  with d3 have "\<bar>r - target\<bar> \<le> E + (6 * 181 * u + 3 * eta)" by linarith
  then have final: "\<bar>r - target\<bar> \<le> E + step_tolerance"
    by (simp add: step_tolerance_def u_def eta_def)
  have "K \<noteq> 0" using K by simp
  then have "ddiv (dadd (dmul (Fin c) (number_of_nat k)) (Fin p)) (number_of_nat (Suc k)) = Fin r"
    using t1 t2 r
    by (simp add: dmul_def dadd_def ddiv_def number_of_nat_def x1_def [symmetric] k'_def [symmetric]
        x2_def [symmetric] K_def [symmetric] x3_def [symmetric] del: of_nat_Suc)
  with final show ?thesis
    by (simp add: within_of_def target_def k'_def K_def del: of_nat_Suc)
qed

text \<open>Facts about the mean.\<close>

lemma mean_of_single: "mean_of f [m] = f m"
  by (simp add: mean_of_def)

lemma mean_of_snoc:
  assumes "ms \<noteq> []"
  shows "mean_of f (ms @ [m]) = (mean_of f ms * of_nat (length ms) + f m) / of_nat (Suc (length ms))"
proof -
  have "(of_nat (length ms) :: rat) \<noteq> 0" using assms by simp
  then show ?thesis by (simp add: mean_of_def del: of_nat_Suc)
qed

lemma mean_of_bound:
  assumes "ms \<noteq> []" and "\<forall>m \<in> set ms. \<bar>f m\<bar> \<le> B"
  shows "\<bar>mean_of f ms\<bar> \<le> B"
proof -
  have "\<bar>\<Sum>m\<leftarrow>ms. f m\<bar> \<le> of_nat (length ms) * B"
    using assms(2)
  proof (induction ms)
    case Nil
    then show ?case by simp
  next
    case (Cons a ms)
    then have "\<bar>f a\<bar> \<le> B" "\<bar>\<Sum>m\<leftarrow>ms. f m\<bar> \<le> of_nat (length ms) * B" by simp_all
    then show ?case by (simp add: algebra_simps)
  qed
  moreover have "0 < (of_nat (length ms) :: rat)" using assms(1) by simp
  ultimately show ?thesis
    by (simp add: mean_of_def pos_divide_le_eq mult.commute)
qed

lemma mean_of_order:
  assumes "distinct ms" and "distinct ns" and "set ns = set ms"
  shows "mean_of f ns = mean_of f ms"
proof -
  have "length ns = length ms"
    using assms by (metis distinct_card)
  moreover have "(\<Sum>m\<leftarrow>ns. f m) = (\<Sum>m\<leftarrow>ms. f m)"
    using assms by (simp add: sum_list_distinct_conv_sum_set)
  ultimately show ?thesis by (simp add: mean_of_def)
qed

lemma mean_tolerance_le_1:
  assumes "n < 2 ^ 32"
  shows "0 \<le> mean_tolerance n" and "mean_tolerance n \<le> 1"
    and "mean_tolerance n + step_tolerance = mean_tolerance (Suc n)"
proof -
  have st: "0 \<le> step_tolerance" "step_tolerance * 4294967296 \<le> 1"
    by (simp_all add: step_tolerance_def)
  show "0 \<le> mean_tolerance n" using st by (simp add: mean_tolerance_def)
  have "n \<le> 2 ^ 32" using assms by simp
  then have "(of_nat n :: rat) \<le> of_nat (2 ^ 32)" by (simp only: of_nat_le_iff)
  then have "(of_nat n :: rat) \<le> 4294967296" by simp
  then have "of_nat n * step_tolerance \<le> 4294967296 * step_tolerance"
    using st(1) by (rule mult_right_mono)
  with st(2) show "mean_tolerance n \<le> 1" by (simp add: mean_tolerance_def mult.commute)
  show "mean_tolerance n + step_tolerance = mean_tolerance (Suc n)"
    by (simp add: mean_tolerance_def algebra_simps)
qed

lemma coordinate_step:
  assumes near: "within_of (mean_tolerance (length ms)) a (mean_of f ms)"
    and ne: "ms \<noteq> []" and len: "length ms < 2 ^ 32"
    and geo: "\<forall>m \<in> set ms. \<bar>f m\<bar> \<le> 180"
    and b: "geo_number b" and fm: "f marker = number_value b"
  shows "within_of (mean_tolerance (Suc (length ms)))
           (ddiv (dadd (dmul a (number_of_nat (length ms))) b) (number_of_nat (Suc (length ms))))
           (mean_of f (ms @ [marker]))"
proof -
  from near obtain c where a: "a = Fin c"
    and c: "\<bar>c - mean_of f ms\<bar> \<le> mean_tolerance (length ms)"
    by (cases a) (simp_all add: within_of_def)
  from b obtain p where bp: "b = Fin p" and p: "\<bar>p\<bar> \<le> 180"
    by (cases b) (simp_all add: geo_number_def)
  from fm bp have fmp: "f marker = p" by (simp add: number_value_def)
  note t = mean_tolerance_le_1 [OF len]
  from incremental_step_error [OF c t(1,2) mean_of_bound [OF ne geo] p len]
  show ?thesis
    unfolding a bp t(3) mean_of_snoc [OF ne] fmp .
qed

lemma geo_point_values:
  assumes "geo_point (position (st m))"
  shows "\<bar>lat_of st m\<bar> \<le> 180" and "\<bar>lng_of st m\<bar> \<le> 180"
    and "within_of 0 (lat (position (st m))) (lat_of st m)"
    and "within_of 0 (lng (position (st m))) (lng_of st m)"
  using assms
  by (auto simp: geo_point_def geo_number_def lat_of_def lng_of_def number_value_def within_of_def
      split: double.splits)

lemma within_of_mono: "within_of t a x \<Longrightarrow> t \<le> t' \<Longrightarrow> within_of t' a x"
  by (cases a) (simp_all add: within_of_def)

lemma addMarker_seq_mean:
  "distinct ms \<Longrightarrow> set ms \<inter> set ms0 = {} \<Longrightarrow> ms0 \<noteq> [] \<Longrightarrow> length (ms0 @ ms) < 2 ^ 32 \<Longrightarrow>
   \<forall>m \<in> set (ms0 @ ms). geo_point (position (st m)) \<Longrightarrow>
   c_markers c = Some ms0 \<Longrightarrow> c_averageCenter c \<Longrightarrow> c_center c = Some ctr \<Longrightarrow>
   c_bounds c = Some (calculateBounds h mc ctr) \<Longrightarrow>
   near_mean (mean_tolerance (length ms0)) st ms0 ctr \<Longrightarrow>
   \<exists>c1 st1 ctr1. addMarker_seq h mc ms (c, st) = Inr (c1, st1) \<and>
     c_markers c1 = Some (ms0 @ ms) \<and>
     (\<forall>m. position (st1 m) = position (st m)) \<and>
     c_center c1 = Some ctr1 \<and> c_bounds c1 = Some (calculateBounds h mc ctr1) \<and>
     near_mean (mean_tolerance (length (ms0 @ ms))) st (ms0 @ ms) ctr1"
proof (induction ms arbitrary: ms0 c st ctr)
  case Nil
  then show ?case by simp
next
  case (Cons marker rest)
  from Cons.prems have notin: "marker \<notin> set ms0" by auto
  from Cons.prems have len0: "length ms0 < 2 ^ 32" by simp
  from addMarker_new_center [OF Cons.prems(6) notin len0, of h mc st]
  obtain c1 st1 where r: "Cluster_addMarker h mc marker (c, st) = Inr (True, c1, st1)"
    and m1: "c_markers c1 = Some (ms0 @ [marker])"
    and a1: "c_averageCenter c1 = c_averageCenter c"
    and p1: "\<forall>m. position (st1 m) = position (st m)"
    and ctr1: "c_center c1 =
             (case c_center c of
                None \<Rightarrow> Some (position (st marker))
              | Some ctr \<Rightarrow>
                  if c_averageCenter c
                  then Some (incremental_mean ctr (length ms0 + 1) (position (st marker)))
                  else Some ctr)"
    and b1: "c_bounds c1 =
             (case c_center c of
                None \<Rightarrow> Some (calculateBounds h mc (position (st marker)))
              | Some ctr \<Rightarrow>
                  if c_averageCenter c
                  then Some (calculateBounds h mc
                               (incremental_mean ctr (length ms0 + 1) (position (st marker))))
                  else c_bounds c)"
    by blast
  define ctr' where "ctr' = incremental_mean ctr (length ms0 + 1) (position (st marker))"
  from ctr1 b1 Cons.prems(7,8) have new: "c_center c1 = Some ctr'"
    "c_bounds c1 = Some (calculateBounds h mc ctr')"
    by (simp_all add: ctr'_def)
  from p1 have same: "lat_of st1 = lat_of st" "lng_of st1 = lng_of st"
    by (simp_all add: lat_of_def lng_of_def fun_eq_iff)
  from Cons.prems(5) have gm: "geo_point (position (st marker))" by simp
  then have gnum: "geo_number (lat (position (st marker)))" "geo_number (lng (position (st marker)))"
    by (simp_all add: geo_point_def)
  from Cons.prems(5) have g0: "\<forall>m \<in> set ms0. \<bar>lat_of st m\<bar> \<le> 180" "\<forall>m \<in> set ms0. \<bar>lng_of st m\<bar> \<le> 180"
    using geo_point_values(1,2) by auto
  from Cons.prems(10) have n0: "within_of (mean_tolerance (length ms0)) (lat ctr) (mean_of (lat_of st) ms0)"
    "within_of (mean_tolerance (length ms0)) (lng ctr) (mean_of (lng_of st) ms0)"
    by (simp_all add: near_mean_def)
  have fm: "lat_of st marker = number_value (lat (position (st marker)))"
    "lng_of st marker = number_value (lng (position (st marker)))"
    by (simp_all add: lat_of_def lng_of_def)
  have "within_of (mean_tolerance (Suc (length ms0))) (lat ctr') (mean_of (lat_of st) (ms0 @ [marker]))"
    using coordinate_step [OF n0(1) Cons.prems(3) len0 g0(1) gnum(1) fm(1)]
    by (simp add: ctr'_def incremental_mean_def)
  moreover
  have "within_of (mean_tolerance (Suc (length ms0))) (lng ctr') (mean_of (lng_of st) (ms0 @ [marker]))"
    using coordinate_step [OF n0(2) Cons.prems(3) len0 g0(2) gnum(2) fm(2)]
    by (simp add: ctr'_def incremental_mean_def)
  ultimately have near1: "near_mean (mean_tolerance (length (ms0 @ [marker]))) st1 (ms0 @ [marker]) ctr'"
    by (simp add: near_mean_def same)
  from Cons.prems have d: "distinct rest" "set rest \<inter> set (ms0 @ [marker]) = {}" by auto
  have ne1: "ms0 @ [marker] \<noteq> []" by simp
  have len1: "length ((ms0 @ [marker]) @ rest) < 2 ^ 32" using Cons.prems(4) by simp
  have g1: "\<forall>m \<in> set ((ms0 @ [marker]) @ rest). geo_point (position (st1 m))"
    using Cons.prems(5) p1 by simp
  have avg: "c_averageCenter c1" using a1 Cons.prems(7) by simp
  from Cons.IH [OF d ne1 len1 g1 m1 avg new near1]
  obtain c2 st2 ctr2 where "addMarker_seq h mc rest (c1, st1) = Inr (c2, st2)"
    and "c_markers c2 = Some ((ms0 @ [marker]) @ rest)"
    and "\<forall>m. position (st2 m) = position (st1 m)"
    and "c_center c2 = Some ctr2" and "c_bounds c2 = Some (calculateBounds h mc ctr2)"
    and "near_mean (mean_tolerance (length ((ms0 @ [marker]) @ rest))) st1 ((ms0 @ [marker]) @ rest) ctr2"
    by blast
  with r p1 same show ?case by (simp add: near_mean_def)
qed

lemma fresh_cluster_mean:
  assumes avg: "averageCenter mc" and d: "distinct ns" and ne: "ns \<noteq> []"
    and len: "length ns < 2 ^ 32" and geo: "\<forall>m \<in> set ns. geo_point (position (st m))"
  shows "\<exists>c1 st1 ctr. addMarker_seq h mc ns (Cluster_constructor mc, st) = Inr (c1, st1) \<and>
           c_markers c1 = Some ns \<and> c_center c1 = Some ctr \<and>
           c_bounds c1 = Some (calculateBounds h mc ctr) \<and>
           near_mean (mean_tolerance (length ns)) st ns ctr"
proof -
  from ne obtain marker rest where ns: "ns = marker # rest" by (cases ns) auto
  have f: "c_markers (Cluster_constructor mc) = Some []" "c_center (Cluster_constructor mc) = None"
    "c_averageCenter (Cluster_constructor mc) = averageCenter mc"
    by (simp_all add: Cluster_constructor_def)
  have "marker \<notin> set []" "length ([]::marker_id list) < 2 ^ 32" by simp_all
  from addMarker_new_center [OF f(1) this, of h mc st] f(2,3)
  obtain c0 st0 where r: "Cluster_addMarker h mc marker (Cluster_constructor mc, st) = Inr (True, c0, st0)"
    and m0: "c_markers c0 = Some [marker]" and a0: "c_averageCenter c0 = averageCenter mc"
    and p0: "\<forall>m. position (st0 m) = position (st m)"
    and c0: "c_center c0 = Some (position (st marker))"
    and b0: "c_bounds c0 = Some (calculateBounds h mc (position (st marker)))"
    by auto
  from p0 have same: "lat_of st0 = lat_of st" "lng_of st0 = lng_of st"
    by (simp_all add: lat_of_def lng_of_def fun_eq_iff)
  from geo ns have gm: "geo_point (position (st marker))" by simp
  have t1: "0 \<le> mean_tolerance 1"
    by (simp add: mean_tolerance_def step_tolerance_def)
  have near0: "near_mean (mean_tolerance (length [marker])) st0 [marker] (position (st marker))"
    using geo_point_values(3,4) [where st = st and m = marker, OF gm] t1
    by (simp add: near_mean_def mean_of_single same within_of_mono)
  from d ns have d': "distinct rest" "set rest \<inter> set [marker] = {}" by auto
  have len': "length ([marker] @ rest) < 2 ^ 32" using len ns by simp
  have g': "\<forall>m \<in> set ([marker] @ rest). geo_point (position (st0 m))" using geo ns p0 by simp
  have avg0: "c_averageCenter c0" using a0 avg by simp
  have "[marker] \<noteq> []" by simp
  from addMarker_seq_mean [OF d' this len' g' m0 avg0 c0 b0 near0]
  obtain c1 st1 ctr1 where "addMarker_seq h mc rest (c0, st0) = Inr (c1, st1)"
    "c_markers c1 = Some ([marker] @ rest)" "c_center c1 = Some ctr1"
    "c_bounds c1 = Some (calculateBounds h mc ctr1)"
    "near_mean (mean_tolerance (length ([marker] @ rest))) st0 ([marker] @ rest) ctr1"
    by blast
  with r ns same show ?thesis by (simp add: near_mean_def)
qed

lemma near_mean_near_point:
  assumes "near_mean t st ns p" and "near_mean t st ns' q"
    and "distinct ns" and "distinct ns'" and "set ns' = set ns"
  shows "near_point (2 * t) q p"
proof -
  have e: "mean_of f ns' = mean_of f ns" for f
    using assms(3-5) by (intro mean_of_order) simp_all
  from assms(1,2) show ?thesis
    unfolding near_mean_def near_point_def e
    by (cases "lat p"; cases "lng p"; cases "lat q"; cases "lng q")
       (auto simp: within_of_def is_finite_def number_value_def)
qed

text \<open>
  C2, as the code has it.  In average-center mode a successful add to a cluster that has
  a center sets the center to the incremental mean \<open>(oldCenter * (n - 1) + p) / n\<close>,
  \<open>n\<close> the new member count and \<open>p\<close> the marker's position, every operation being the
  operation on doubles, and sets the bounds to the padded bounds of the new center.
  Hence, adding distinct markers \<open>ns\<close> (at least one, and at most as many as an array
  holds) at geographic points to a fresh cluster of a clusterer in average-center mode
  completes with the bounds computed from the center, and with the center within
  \<open>mean_tolerance (length ns)\<close> of the arithmetic mean of their positions in each
  coordinate; adding the same markers in any other order gives a center that differs from
  it by at most twice that tolerance in each coordinate.
\<close>

theorem average_center_near_mean:
  "(c_markers c = Some ms \<and> marker \<notin> set ms \<and> length ms + 1 < 2 ^ 32 \<and>
    c_center c = Some ctr \<and> c_averageCenter c \<longrightarrow>
      (\<exists>c1 st1. Cluster_addMarker h mc marker (c, st) = Inr (True, c1, st1) \<and>
         c_center c1 = Some (incremental_mean ctr (length ms + 1) (position (st marker))) \<and>
         c_bounds c1 = Some (calculateBounds h mc
                               (incremental_mean ctr (length ms + 1) (position (st marker)))))) \<and>
   (averageCenter mc \<and> distinct ns \<and> ns \<noteq> [] \<and> length ns < 2 ^ 32 \<and>
    (\<forall>m \<in> set ns. geo_point (position (st m))) \<longrightarrow>
      (\<exists>c1 st1 ctr1. addMarker_seq h mc ns (Cluster_constructor mc, st) = Inr (c1, st1) \<and>
         c_markers c1 = Some ns \<and> c_center c1 = Some ctr1 \<and>
         c_bounds c1 = Some (calculateBounds h mc ctr1) \<and>
         near_mean (mean_tolerance (length ns)) st ns ctr1 \<and>
         (\<forall>ns'. distinct ns' \<and> set ns' = set ns \<longrightarrow>
            (\<exists>c2 st2 ctr2. addMarker_seq h mc ns' (Cluster_constructor mc, st) = Inr (c2, st2) \<and>
               c_center c2 = Some ctr2 \<and>
               near_point (2 * mean_tolerance (length ns)) ctr2 ctr1))))"
proof (intro conjI impI)
  assume a: "c_markers c = Some ms \<and> marker \<notin> set ms \<and> length ms + 1 < 2 ^ 32 \<and>
    c_center c = Some ctr \<and> c_averageCenter c"
  then have "c_markers c = Some ms" "marker \<notin> set ms" "length ms < 2 ^ 32" by simp_all
  from addMarker_new_center [OF this, of h mc st] a
  show "\<exists>c1 st1. Cluster_addMarker h mc marker (c, st) = Inr (True, c1, st1) \<and>
         c_center c1 = Some (incremental_mean ctr (length ms + 1) (position (st marker))) \<and>
         c_bounds c1 = Some (calculateBounds h mc
                               (incremental_mean ctr (length ms + 1) (position (st marker))))"
    by auto
next
  assume b: "averageCenter mc \<and> distinct ns \<and> ns \<noteq> [] \<and> length ns < 2 ^ 32 \<and>
    (\<forall>m \<in> set ns. geo_point (position (st m)))"
  then have avg: "averageCenter mc" and d: "distinct ns" and ne: "ns \<noteq> []"
    and len: "length ns < 2 ^ 32" and geo: "\<forall>m \<in> set ns. geo_point (position (st m))"
    by simp_all
  from fresh_cluster_mean [OF avg d ne len geo, of h]
  obtain c1 st1 ctr1 where r: "addMarker_seq h mc ns (Cluster_constructor mc, st) = Inr (c1, st1)"
    "c_markers c1 = Some ns" "c_center c1 = Some ctr1"
    "c_bounds c1 = Some (calculateBounds h mc ctr1)"
    and n1: "near_mean (mean_tolerance (length ns)) st ns ctr1"
    by blast
  have "\<exists>c2 st2 ctr2. addMarker_seq h mc ns' (Cluster_constructor mc, st) = Inr (c2, st2) \<and>
               c_center c2 = Some ctr2 \<and>
               near_point (2 * mean_tolerance (length ns)) ctr2 ctr1"
    if o: "distinct ns' \<and> set ns' = set ns" for ns'
  proof -
    from o d have l: "length ns' = length ns" by (metis distinct_card)
    from o ne have ne': "ns' \<noteq> []" by auto
    from o have d': "distinct ns'" by simp
    have len': "length ns' < 2 ^ 32" using l len by simp
    have geo': "\<forall>m \<in> set ns'. geo_point (position (st m))" using o geo by simp
    from fresh_cluster_mean [OF avg d' ne' len' geo', of h]
    obtain c2 st2 ctr2 where r2: "addMarker_seq h mc ns' (Cluster_constructor mc, st) = Inr (c2, st2)"
      "c_center c2 = Some ctr2"
      and n2: "near_mean (mean_tolerance (length ns)) st ns' ctr2"
      unfolding l by blast
    from o have "set ns' = set ns" by simp
    from near_mean_near_point [OF n1 n2 d d' this] r2 show ?thesis by blast
  qed
  with r n1 show "\<exists>c1 st1 ctr1. addMarker_seq h mc ns (Cluster_constructor mc, st) = Inr (c1, st1) \<and>
         c_markers c1 = Some ns \<and> c_center c1 = Some ctr1 \<and>
         c_bounds c1 = Some (calculateBounds h mc ctr1) \<and>
         near_mean (mean_tolerance (length ns)) st ns ctr1 \<and>
         (\<forall>ns'. distinct ns' \<and> set ns' = set ns \<longrightarrow>
            (\<exists>c2 st2 ctr2. addMarker_seq h mc ns' (Cluster_constructor mc, st) = Inr (c2, st2) \<and>
               c_center c2 = Some ctr2 \<and>
               near_point (2 * mean_tolerance (length ns)) ctr2 ctr1))"
    by blast
qed

theorem average_center_near_mean_witness:
  "averageCenter ex_mc \<and> distinct [101::nat, 102, 103] \<and> length [101::nat, 102, 103] < 2 ^ 32 \<and>
   geo_point (position (ex_store 101)) \<and> geo_point (position (ex_store 102)) \<and>
   geo_point (position (ex_store 103)) \<and>
   (\<exists>c1 st1 ctr1.
      addMarker_seq ex_host ex_mc [101, 102, 103] (Cluster_constructor ex_mc, ex_store) = Inr (c1, st1) \<and>
      c_center c1 = Some ctr1 \<and>
      near_mean (mean_tolerance 3) ex_store [101, 102, 103] ctr1)"
proof -
  have g: "geo_point (position (ex_store 101))" "geo_point (position (ex_store 102))"
    "geo_point (position (ex_store 103))"
    by (simp_all add: geo_point_def geo_number_def ex_store_def ex_position_def)
  have p: "averageCenter ex_mc \<and> distinct [101::nat, 102, 103] \<and> [101::nat, 102, 103] \<noteq> [] \<and>
    length [101::nat, 102, 103] < 2 ^ 32 \<and>
    (\<forall>m \<in> set [101::nat, 102, 103]. geo_point (position (ex_store m)))"
    using g by (simp add: ex_mc_def)
  have l: "length [101::nat, 102, 103] = 3" by simp
  from average_center_near_mean [where mc = ex_mc and ns = "[101, 102, 103]" and h = ex_host
      and st = ex_store, THEN conjunct2, rule_format, OF p]
  have "\<exists>c1 st1 ctr1.
      addMarker_seq ex_host ex_mc [101, 102, 103] (Cluster_constructor ex_mc, ex_store) = Inr (c1, st1) \<and>
      c_center c1 = Some ctr1 \<and>
      near_mean (mean_tolerance 3) ex_store [101, 102, 103] ctr1"
    unfolding l by blast
  with g p show ?thesis by blast
qed

text \<open>
  The roundings that occur when the markers at the longitudes 0.1, 0.2 and 0.3 are added,
  in this order and in the opposite order.
\<close>

lemma tenths_rounding_1:
  "round_to_double (3602879701896397 / 36028797018963968) = Fin (3602879701896397 / 36028797018963968)"
  "round_to_double (- (3602879701896397 / 36028797018963968)) = Fin (- (3602879701896397 / 36028797018963968))"
  using round_to_double_value [of "- 4" "3602879701896397 / 36028797018963968" "7205759403792794" "3602879701896397 / 36028797018963968"]
  by simp_all

lemma tenths_rounding_2:
  "round_to_double (10808639105689191 / 36028797018963968) = Fin (1351079888211149 / 4503599627370496)"
  "round_to_double (- (10808639105689191 / 36028797018963968)) = Fin (- (1351079888211149 / 4503599627370496))"
  using round_to_double_value [of "- 2" "10808639105689191 / 36028797018963968" "5404319552844596" "1351079888211149 / 4503599627370496"]
  by simp_all

lemma tenths_rounding_3:
  "round_to_double (1351079888211149 / 9007199254740992) = Fin (1351079888211149 / 9007199254740992)"
  "round_to_double (- (1351079888211149 / 9007199254740992)) = Fin (- (1351079888211149 / 9007199254740992))"
  using round_to_double_value [of "- 3" "1351079888211149 / 9007199254740992" "5404319552844596" "1351079888211149 / 9007199254740992"]
  by simp_all

lemma tenths_rounding_4:
  "round_to_double (1351079888211149 / 4503599627370496) = Fin (1351079888211149 / 4503599627370496)"
  "round_to_double (- (1351079888211149 / 4503599627370496)) = Fin (- (1351079888211149 / 4503599627370496))"
  using round_to_double_value [of "- 2" "1351079888211149 / 4503599627370496" "5404319552844596" "1351079888211149 / 4503599627370496"]
  by simp_all

lemma tenths_rounding_5:
  "round_to_double (10808639105689191 / 18014398509481984) = Fin (1351079888211149 / 2251799813685248)"
  "round_to_double (- (10808639105689191 / 18014398509481984)) = Fin (- (1351079888211149 / 2251799813685248))"
  using round_to_double_value [of "- 1" "10808639105689191 / 18014398509481984" "5404319552844596" "1351079888211149 / 2251799813685248"]
  by simp_all

lemma tenths_rounding_6:
  "round_to_double (1351079888211149 / 6755399441055744) = Fin (7205759403792795 / 36028797018963968)"
  "round_to_double (- (1351079888211149 / 6755399441055744)) = Fin (- (7205759403792795 / 36028797018963968))"
  using round_to_double_value [of "- 3" "1351079888211149 / 6755399441055744" "7205759403792795" "7205759403792795 / 36028797018963968"]
  by simp_all

lemma tenths_rounding_7:
  "round_to_double (5404319552844595 / 18014398509481984) = Fin (5404319552844595 / 18014398509481984)"
  "round_to_double (- (5404319552844595 / 18014398509481984)) = Fin (- (5404319552844595 / 18014398509481984))"
  using round_to_double_value [of "- 2" "5404319552844595 / 18014398509481984" "5404319552844595" "5404319552844595 / 18014398509481984"]
  by simp_all

lemma tenths_rounding_8:
  "round_to_double (1 / 2) = Fin (1 / 2)"
  "round_to_double (- (1 / 2)) = Fin (- (1 / 2))"
  using round_to_double_value [of "- 1" "1 / 2" "4503599627370496" "1 / 2"]
  by simp_all

lemma tenths_rounding_9:
  "round_to_double (1 / 4) = Fin (1 / 4)"
  "round_to_double (- (1 / 4)) = Fin (- (1 / 4))"
  using round_to_double_value [of "- 2" "1 / 4" "4503599627370496" "1 / 4"]
  by simp_all

lemma tenths_rounding_10:
  "round_to_double (21617278211378381 / 36028797018963968) = Fin (5404319552844595 / 9007199254740992)"
  "round_to_double (- (21617278211378381 / 36028797018963968)) = Fin (- (5404319552844595 / 9007199254740992))"
  using round_to_double_value [of "- 1" "21617278211378381 / 36028797018963968" "5404319552844595" "5404319552844595 / 9007199254740992"]
  by simp_all

lemma tenths_rounding_11:
  "round_to_double (5404319552844595 / 27021597764222976) = Fin (7205759403792793 / 36028797018963968)"
  "round_to_double (- (5404319552844595 / 27021597764222976)) = Fin (- (7205759403792793 / 36028797018963968))"
  using round_to_double_value [of "- 3" "5404319552844595 / 27021597764222976" "7205759403792793" "7205759403792793 / 36028797018963968"]
  by simp_all

lemmas tenths_roundings = tenths_rounding_1 tenths_rounding_2 tenths_rounding_3 tenths_rounding_4 tenths_rounding_5 tenths_rounding_6 tenths_rounding_7 tenths_rounding_8 tenths_rounding_9 tenths_rounding_10 tenths_rounding_11

text \<open>
  The claim that the final center equals the arithmetic mean and does not depend on the
  order fails: the markers 101, 102 and 103, at latitude 0 and the longitudes 0.1, 0.2
  and 0.3, give the longitude \<open>0.20000000000000004\<close> in this order and
  \<open>0.19999999999999998\<close> in the opposite order, and neither is the mean of the three
  longitudes.
\<close>

theorem average_center_counterexample:
  "map_sum id (\<lambda>cs. c_center (fst cs))
     (addMarker_seq ex_host ex_mc [101, 102, 103] (Cluster_constructor ex_mc, ex_store)) =
     Inr (Some \<lparr>lat = Fin 0, lng = Fin (7205759403792795 / 36028797018963968)\<rparr>) \<and>
   map_sum id (\<lambda>cs. c_center (fst cs))
     (addMarker_seq ex_host ex_mc [103, 102, 101] (Cluster_constructor ex_mc, ex_store)) =
     Inr (Some \<lparr>lat = Fin 0, lng = Fin (7205759403792793 / 36028797018963968)\<rparr>) \<and>
   mean_of (lng_of ex_store) [101, 102, 103] = 21617278211378381 / 108086391056891904"
proof -
  have "map_sum id (\<lambda>cs. c_center (fst cs))
     (addMarker_seq ex_host ex_mc [101, 102, 103] (Cluster_constructor ex_mc, ex_store)) =
     Inr (Some \<lparr>lat = Fin 0, lng = Fin (7205759403792795 / 36028797018963968)\<rparr>)"
    by (simp add: Cluster_addMarker_def isMarkerAlreadyAdded_def Cluster_updateIcon_def
        Cluster_constructor_def ex_mc_def ex_store_def ex_position_def Let_def set_isAdded_def
        Marker_setMap_def dadd_def dsub_def dmul_def ddiv_def dneg_def number_of_nat_def
        tenths_roundings)
  moreover have "map_sum id (\<lambda>cs. c_center (fst cs))
     (addMarker_seq ex_host ex_mc [103, 102, 101] (Cluster_constructor ex_mc, ex_store)) =
     Inr (Some \<lparr>lat = Fin 0, lng = Fin (7205759403792793 / 36028797018963968)\<rparr>)"
    by (simp add: Cluster_addMarker_def isMarkerAlreadyAdded_def Cluster_updateIcon_def
        Cluster_constructor_def ex_mc_def ex_store_def ex_position_def Let_def set_isAdded_def
        Marker_setMap_def dadd_def dsub_def dmul_def ddiv_def dneg_def number_of_nat_def
        tenths_roundings)
  moreover have "mean_of (lng_of ex_store) [101, 102, 103] =
      21617278211378381 / 108086391056891904"
    by (simp add: mean_of_def lng_of_def number_value_def ex_store_def ex_position_def)
  ultimately show ?thesis by simp
qed

section \<open>The default assignment strategy at two nearly antipodal points\<close>

lemma wide_cluster_reached:
  "DEFAULT_CLUSTERIZER_FUNCTION ex_host 200 [] wide_mc ex_store = Inr ([wide_cluster], wide_store)"
  by (simp add: DEFAULT_CLUSTERIZER_FUNCTION_def Cluster_addMarker_def isMarkerAlreadyAdded_def
      Cluster_updateIcon_def Cluster_constructor_def wide_mc_def ex_mc_def ex_store_def
      ex_position_def ex_host_def Let_def wide_cluster_def wide_store_def calculateBounds_def
      getExtendedBounds_def ClusterIcon_hide_def ClusterIcon_constructor_def set_isAdded_def
      Marker_setMap_def double_ops)

text \<open>
  The roundings that occur when the distance between the points \<open>(12, 0)\<close> and
  \<open>(-12, 180)\<close> is computed.
\<close>

lemma antipodal_rounding_1:
  "round_to_double (2652839157010665 / 35184372088832) = Fin (2652839157010665 / 35184372088832)"
  "round_to_double (- (2652839157010665 / 35184372088832)) = Fin (- (2652839157010665 / 35184372088832))"
  using round_to_double_value [of "6" "2652839157010665 / 35184372088832" "5305678314021330" "2652839157010665 / 35184372088832"]
  by simp_all

lemma antipodal_rounding_2:
  "round_to_double (176855943800711 / 422212465065984) = Fin (7545853602163669 / 18014398509481984)"
  "round_to_double (- (176855943800711 / 422212465065984)) = Fin (- (7545853602163669 / 18014398509481984))"
  using round_to_double_value [of "- 2" "176855943800711 / 422212465065984" "7545853602163669" "7545853602163669 / 18014398509481984"]
  by simp_all

lemma antipodal_rounding_3:
  "round_to_double (39792587355159975 / 70368744177664) = Fin (4974073419394997 / 8796093022208)"
  "round_to_double (- (39792587355159975 / 70368744177664)) = Fin (- (4974073419394997 / 8796093022208))"
  using round_to_double_value [of "9" "39792587355159975 / 70368744177664" "4974073419394997" "4974073419394997 / 8796093022208"]
  by simp_all

lemma antipodal_rounding_4:
  "round_to_double (4974073419394997 / 1583296743997440) = Fin (884279719003555 / 281474976710656)"
  "round_to_double (- (4974073419394997 / 1583296743997440)) = Fin (- (884279719003555 / 281474976710656))"
  using round_to_double_value [of "1" "4974073419394997 / 1583296743997440" "7074237752028440" "884279719003555 / 281474976710656"]
  by simp_all

lemma antipodal_rounding_5:
  "round_to_double (7545853602163669 / 36028797018963968) = Fin (7545853602163669 / 36028797018963968)"
  "round_to_double (- (7545853602163669 / 36028797018963968)) = Fin (- (7545853602163669 / 36028797018963968))"
  using round_to_double_value [of "- 3" "7545853602163669 / 36028797018963968" "7545853602163669" "7545853602163669 / 36028797018963968"]
  by simp_all

lemma antipodal_rounding_6:
  "round_to_double (2652839157010665 / 70368744177664) = Fin (2652839157010665 / 70368744177664)"
  "round_to_double (- (2652839157010665 / 70368744177664)) = Fin (- (2652839157010665 / 70368744177664))"
  using round_to_double_value [of "5" "2652839157010665 / 70368744177664" "5305678314021330" "2652839157010665 / 70368744177664"]
  by simp_all

lemma antipodal_rounding_7:
  "round_to_double (176855943800711 / 844424930131968) = Fin (7545853602163669 / 36028797018963968)"
  "round_to_double (- (176855943800711 / 844424930131968)) = Fin (- (7545853602163669 / 36028797018963968))"
  using round_to_double_value [of "- 3" "176855943800711 / 844424930131968" "7545853602163669" "7545853602163669 / 36028797018963968"]
  by simp_all

lemma antipodal_rounding_8:
  "round_to_double (884279719003555 / 562949953421312) = Fin (884279719003555 / 562949953421312)"
  "round_to_double (- (884279719003555 / 562949953421312)) = Fin (- (884279719003555 / 562949953421312))"
  using round_to_double_value [of "0" "884279719003555 / 562949953421312" "7074237752028440" "884279719003555 / 562949953421312"]
  by simp_all

lemma antipodal_rounding_9:
  "round_to_double (56112206086048683123078145596025 / 1298074214633706907132624082305024) = Fin (6229706315924309 / 144115188075855872)"
  "round_to_double (- (56112206086048683123078145596025 / 1298074214633706907132624082305024)) = Fin (- (6229706315924309 / 144115188075855872))"
  using round_to_double_value [of "- 5" "56112206086048683123078145596025 / 1298074214633706907132624082305024" "6229706315924309" "6229706315924309 / 144115188075855872"]
  by simp_all

lemma antipodal_rounding_10:
  "round_to_double (4737709078016885151862745089 / 4951760157141521099596496896) = Fin (2154460652498931 / 2251799813685248)"
  "round_to_double (- (4737709078016885151862745089 / 4951760157141521099596496896)) = Fin (- (2154460652498931 / 2251799813685248))"
  using round_to_double_value [of "- 1" "4737709078016885151862745089 / 4951760157141521099596496896" "8617842609995724" "2154460652498931 / 2251799813685248"]
  by simp_all

lemma antipodal_rounding_11:
  "round_to_double (2154460652498931 / 2251799813685248) = Fin (2154460652498931 / 2251799813685248)"
  "round_to_double (- (2154460652498931 / 2251799813685248)) = Fin (- (2154460652498931 / 2251799813685248))"
  using round_to_double_value [of "- 1" "2154460652498931 / 2251799813685248" "8617842609995724" "2154460652498931 / 2251799813685248"]
  by simp_all

lemma antipodal_rounding_12:
  "round_to_double (144115188075855893 / 144115188075855872) = Fin (4503599627370497 / 4503599627370496)"
  "round_to_double (- (144115188075855893 / 144115188075855872)) = Fin (- (4503599627370497 / 4503599627370496))"
  using round_to_double_value [of "0" "144115188075855893 / 144115188075855872" "4503599627370497" "4503599627370497 / 4503599627370496"]
  by simp_all

lemma antipodal_rounding_13:
  "round_to_double (1 / 4503599627370496) = Fin (1 / 4503599627370496)"
  "round_to_double (- (1 / 4503599627370496)) = Fin (- (1 / 4503599627370496))"
  using round_to_double_value [of "- 52" "1 / 4503599627370496" "4503599627370496" "1 / 4503599627370496"]
  by simp_all

lemmas antipodal_roundings = antipodal_rounding_1 antipodal_rounding_2 antipodal_rounding_3 antipodal_rounding_4 antipodal_rounding_5 antipodal_rounding_6 antipodal_rounding_7 antipodal_rounding_8 antipodal_rounding_9 antipodal_rounding_10 antipodal_rounding_11 antipodal_rounding_12 antipodal_rounding_13

text \<open>
  With any host whose sine and cosine return the correctly rounded values at the four
  arguments that occur, the haversine term of these two points is \<open>1 + 2 ^ -52\<close>, and
  the distance is \<^verbatim>\<open>NaN\<close> whatever the host's square root and arc tangent return.
\<close>

lemma antipodal_haversine_a_host:
  assumes "math_sin h (- (7545853602163669 / 36028797018963968)) =
             Fin (- (7490808106342645 / 36028797018963968))"
    and "math_sin h (884279719003555 / 562949953421312) = Fin 1"
    and "math_cos h (7545853602163669 / 36028797018963968) = Fin (68831018284033 / 70368744177664)"
    and "math_cos h (- (7545853602163669 / 36028797018963968)) =
           Fin (68831018284033 / 70368744177664)"
  shows "haversine_a h \<lparr>lat = Fin 12, lng = Fin 0\<rparr> \<lparr>lat = Fin (- 12), lng = Fin 180\<rparr> =
           Fin (4503599627370497 / 4503599627370496)"
  by (simp add: haversine_a_def Let_def Math_PI_def Math_sin_def Math_cos_def assms
      dadd_def dsub_def dmul_def ddiv_def dneg_def antipodal_roundings)

lemma antipodal_distance_host:
  assumes "haversine_a h p1 p2 = Fin (4503599627370497 / 4503599627370496)"
  shows "distanceBetweenPoints h (Some p1) (Some p2) = NaN"
  by (simp add: distanceBetweenPoints_def Let_def assms Math_sqrt_def Math_atan2_def
      dadd_def dsub_def dmul_def dneg_def antipodal_roundings)

lemma antipodal_haversine_a:
  "haversine_a ex_host \<lparr>lat = Fin 12, lng = Fin 0\<rparr> \<lparr>lat = Fin (- 12), lng = Fin 180\<rparr> =
     Fin (4503599627370497 / 4503599627370496)"
  by (rule antipodal_haversine_a_host) (simp_all add: ex_host_def)

lemma antipodal_distance:
  "distanceBetweenPoints ex_host (Some \<lparr>lat = Fin 12, lng = Fin 0\<rparr>)
     (Some \<lparr>lat = Fin (- 12), lng = Fin 180\<rparr>) = NaN"
  using antipodal_haversine_a by (rule antipodal_distance_host)

text \<open>
  C1, as the code has it at a failing input.  The clusterer with grid size 200 has one
  cluster, with marker 200 at \<open>(12, 0)\<close> as its center and only member (the state that
  the strategy itself produced from no clusters); marker 201 is at \<open>(-12, 180)\<close>, inside
  the padded bounds of that cluster.  The haversine term \<^verbatim>\<open>a\<close> rounds to
  \<open>1 + 2 ^ -52\<close>, so \<^verbatim>\<open>Math.sqrt(1 - a)\<close> and the distance are \<^verbatim>\<open>NaN\<close>, the
  comparison \<^verbatim>\<open>d < distance\<close> is false and the scan finds no nearest cluster: the
  strategy appends a new cluster with marker 201 as its only member (and flags the marker
  as added), instead of adding it to the one cluster, which is the nearest.
\<close>

theorem default_strategy_antipodal_marker:
  "DEFAULT_CLUSTERIZER_FUNCTION ex_host 200 [] wide_mc ex_store = Inr ([wide_cluster], wide_store) \<and>
   c_center wide_cluster = Some (position (wide_store 200)) \<and>
   position (wide_store 200) = \<lparr>lat = Fin 12, lng = Fin 0\<rparr> \<and>
   position (wide_store 201) = \<lparr>lat = Fin (- 12), lng = Fin 180\<rparr> \<and>
   isMarkerInClusterBounds ex_host wide_cluster (wide_store 201) = Inr True \<and>
   haversine_a ex_host (position (wide_store 200)) (position (wide_store 201)) =
     Fin (4503599627370497 / 4503599627370496) \<and>
   distanceBetweenPoints ex_host (c_center wide_cluster) (Some (position (wide_store 201))) = NaN \<and>
   nearest_scan ex_host (position (wide_store 201)) [wide_cluster] 0 (Fin 40000, None) =
     (Fin 40000, None) \<and>
   map_sum id (\<lambda>r. (map c_markers (fst r), isAdded (snd r 201)))
     (DEFAULT_CLUSTERIZER_FUNCTION ex_host 201 [wide_cluster] wide_mc wide_store) =
     Inr ([Some [200], Some [201]], True)"
proof -
  have p: "position (wide_store 200) = \<lparr>lat = Fin 12, lng = Fin 0\<rparr>"
    "position (wide_store 201) = \<lparr>lat = Fin (- 12), lng = Fin 180\<rparr>"
    by (simp_all add: wide_store_def ex_store_def ex_position_def set_isAdded_def Marker_setMap_def)
  have c: "c_center wide_cluster = Some \<lparr>lat = Fin 12, lng = Fin 0\<rparr>"
    by (simp add: wide_cluster_def)
  have b: "isMarkerInClusterBounds ex_host wide_cluster (wide_store 201) = Inr True"
    by (simp add: isMarkerInClusterBounds_def wide_cluster_def p ex_host_def dle_def dlt_def)
  have n: "nearest_scan ex_host (position (wide_store 201)) [wide_cluster] 0 (Fin 40000, None) =
     (Fin 40000, None)"
    by (simp add: c p antipodal_distance dlt_def)
  have m: "c_markers wide_cluster = Some [200]" by (simp add: wide_cluster_def)
  have s1: "DEFAULT_CLUSTERIZER_FUNCTION ex_host 201 [wide_cluster] wide_mc wide_store =
     (case Cluster_addMarker ex_host wide_mc 201 (Cluster_constructor wide_mc, wide_store) of
        Inl e \<Rightarrow> Inl e
      | Inr (r, c1, st1) \<Rightarrow> Inr ([wide_cluster] @ [c1], st1))"
    by (simp add: DEFAULT_CLUSTERIZER_FUNCTION_def n Let_def del: nearest_scan.simps)
  have s2: "map_sum id (\<lambda>r. (c_markers (fst (snd r)), isAdded (snd (snd r) 201)))
     (Cluster_addMarker ex_host wide_mc 201 (Cluster_constructor wide_mc, wide_store)) =
     Inr (Some [201], True)"
    by (simp add: Cluster_addMarker_def isMarkerAlreadyAdded_def Cluster_updateIcon_def
        Cluster_constructor_def wide_mc_def ex_mc_def wide_store_def ex_store_def Let_def
        ClusterIcon_hide_def set_isAdded_def Marker_setMap_def)
  have d: "map_sum id (\<lambda>r. (map c_markers (fst r), isAdded (snd r 201)))
     (DEFAULT_CLUSTERIZER_FUNCTION ex_host 201 [wide_cluster] wide_mc wide_store) =
     Inr ([Some [200], Some [201]], True)"
    using s2 unfolding s1
    by (cases "Cluster_addMarker ex_host wide_mc 201 (Cluster_constructor wide_mc, wide_store)")
       (auto simp: m)
  from wide_cluster_reached p c b n d antipodal_haversine_a antipodal_distance
  show ?thesis by simp
qed

section \<open>The engine keeps cluster members among its markers\<close>

lemma nearest_scan_result:
  "nearest_scan h pos cls i (d0, b0) = (d, b) \<Longrightarrow>
   b = b0 \<or> (\<exists>j<length cls. b = Some (i + j) \<and> c_center (cls ! j) \<noteq> None)"
proof (induction cls arbitrary: i d0 b0)
  case Nil
  then show ?case by simp
next
  case (Cons cluster rest)
  show ?case
  proof (cases "c_center cluster")
    case None
    with Cons.prems have "nearest_scan h pos rest (i + 1) (d0, b0) = (d, b)" by simp
    from Cons.IH [OF this] show ?thesis
    proof
      assume "b = b0"
      then show ?thesis by simp
    next
      assume "\<exists>j<length rest. b = Some (i + 1 + j) \<and> c_center (rest ! j) \<noteq> None"
      then obtain j where "j < length rest" "b = Some (i + 1 + j)" "c_center (rest ! j) \<noteq> None"
        by blast
      then have "Suc j < length (cluster # rest) \<and> b = Some (i + Suc j) \<and>
                 c_center ((cluster # rest) ! Suc j) \<noteq> None" by simp
      then show ?thesis by blast
    qed
  next
    case (Some ctr)
    define d1 where "d1 = distanceBetweenPoints h (Some ctr) (Some pos)"
    show ?thesis
    proof (cases "dlt d1 d0")
      case True
      with Some Cons.prems have "nearest_scan h pos rest (i + 1) (d1, Some i) = (d, b)"
        by (simp add: d1_def Let_def)
      from Cons.IH [OF this] show ?thesis
      proof
        assume "b = Some i"
        with Some have "0 < length (cluster # rest) \<and> b = Some (i + 0) \<and>
                 c_center ((cluster # rest) ! 0) \<noteq> None" by simp
        then show ?thesis by blast
      next
        assume "\<exists>j<length rest. b = Some (i + 1 + j) \<and> c_center (rest ! j) \<noteq> None"
        then obtain j where "j < length rest" "b = Some (i + 1 + j)" "c_center (rest ! j) \<noteq> None"
          by blast
        then have "Suc j < length (cluster # rest) \<and> b = Some (i + Suc j) \<and>
                 c_center ((cluster # rest) ! Suc j) \<noteq> None" by simp
        then show ?thesis by blast
      qed
    next
      case False
      with Some Cons.prems have "nearest_scan h pos rest (i + 1) (d0, b0) = (d, b)"
        by (simp add: d1_def Let_def)
      from Cons.IH [OF this] show ?thesis
      proof
        assume "b = b0"
        then show ?thesis by simp
      next
        assume "\<exists>j<length rest. b = Some (i + 1 + j) \<and> c_center (rest ! j) \<noteq> None"
        then obtain j where "j < length rest" "b = Some (i + 1 + j)" "c_center (rest ! j) \<noteq> None"
          by blast
        then have "Suc j < length (cluster # rest) \<and> b = Some (i + Suc j) \<and>
                 c_center ((cluster # rest) ! Suc j) \<noteq> None" by simp
        then show ?thesis by blast
      qed
    qed
  qed
qed

lemma nearest_scan_index:
  assumes "snd (nearest_scan h pos cls 0 (d0, None)) = Some i"
  shows "i < length cls \<and> c_center (cls ! i) \<noteq> None"
proof -
  obtain d b where r: "nearest_scan h pos cls 0 (d0, None) = (d, b)"
    by (cases "nearest_scan h pos cls 0 (d0, None)")
  with assms have "b = Some i" by simp
  with nearest_scan_result [OF r] show ?thesis by auto
qed

lemma Cluster_addMarker_new_live:
  assumes "c_markers c = Some ms" and "marker \<notin> set ms" and "cluster_live c"
  shows "\<exists>c1 st1. Cluster_addMarker h mc marker (c, st) = Inr (True, c1, st1) \<and>
           c_markers c1 = Some (ms @ [marker]) \<and> cluster_live c1"
  using assms
  by (auto simp: Cluster_addMarker_def isMarkerAlreadyAdded_def Cluster_updateIcon_def
      Let_def cluster_live_def split: option.splits)

lemma Cluster_addMarker_live:
  assumes "cluster_live c"
  shows "\<exists>r c1 st1 ms. Cluster_addMarker h mc marker (c, st) = Inr (r, c1, st1) \<and>
           cluster_live c1 \<and> c_markers c = Some ms \<and>
           c_markers c1 = Some (if marker \<in> set ms then ms else ms @ [marker])"
proof -
  from assms obtain ms where ms: "c_markers c = Some ms" by (auto simp: cluster_live_def)
  show ?thesis
  proof (cases "marker \<in> set ms")
    case True
    with ms assms Cluster_addMarker_member [OF ms True, of h mc st] show ?thesis by auto
  next
    case False
    from Cluster_addMarker_new_live [OF ms False assms, of h mc st] ms False
    show ?thesis by auto
  qed
qed

lemma Cluster_addMarker_fresh:
  "\<exists>c1 st1. Cluster_addMarker h mc marker (Cluster_constructor mc, st) = Inr (True, c1, st1) \<and>
     c_markers c1 = Some [marker] \<and> cluster_live c1"
proof -
  have f: "c_markers (Cluster_constructor mc) = Some []" "cluster_live (Cluster_constructor mc)"
    by (simp_all add: Cluster_constructor_def cluster_live_def)
  have "marker \<notin> set []" by simp
  from Cluster_addMarker_new_live [OF f(1) this f(2), of h mc st]
  show ?thesis by simp
qed

text \<open>
  On live clusters the default strategy completes, returns live clusters one of which has
  the marker as a member, and adds no member but the marker.
\<close>

lemma default_clusterizer_total:
  assumes live: "\<forall>c \<in> set cls. cluster_live c"
    and within: "members_within M cls" and inM: "marker \<in> M"
  shows "\<exists>cls1 st1. DEFAULT_CLUSTERIZER_FUNCTION h marker cls mc st = Inr (cls1, st1) \<and>
           (\<forall>c \<in> set cls1. cluster_live c) \<and> members_within M cls1 \<and>
           (\<exists>c \<in> set cls1. \<exists>ms. c_markers c = Some ms \<and> marker \<in> set ms)"
proof -
  define pos where "pos = position (st marker)"
  from Cluster_addMarker_fresh [of h mc marker st]
  obtain cn stn where fresh: "Cluster_addMarker h mc marker (Cluster_constructor mc, st) = Inr (True, cn, stn)"
    "c_markers cn = Some [marker]" "cluster_live cn" by blast
  have app: "(\<forall>c \<in> set (cls @ [cn]). cluster_live c) \<and> members_within M (cls @ [cn]) \<and>
           (\<exists>c \<in> set (cls @ [cn]). \<exists>ms. c_markers c = Some ms \<and> marker \<in> set ms)"
    using live within inM fresh by (auto simp: members_within_def)
  show ?thesis
  proof (cases "snd (nearest_scan h pos cls 0 (Fin 40000, None))")
    case None
    have "DEFAULT_CLUSTERIZER_FUNCTION h marker cls mc st = Inr (cls @ [cn], stn)"
      using None fresh(1) by (simp add: DEFAULT_CLUSTERIZER_FUNCTION_def Let_def pos_def)
    with app show ?thesis by blast
  next
    case (Some i)
    from nearest_scan_index [OF this] have i: "i < length cls" and "c_center (cls ! i) \<noteq> None"
      by simp_all
    with live have li: "cluster_live (cls ! i)" by simp
    with \<open>c_center (cls ! i) \<noteq> None\<close> obtain b where b: "c_bounds (cls ! i) = Some b"
      by (auto simp: cluster_live_def)
    show ?thesis
    proof (cases "bounds_contains h b pos")
      case True
      from Cluster_addMarker_live [OF li, of h mc marker st]
      obtain r c1 st1 ms where a: "Cluster_addMarker h mc marker (cls ! i, st) = Inr (r, c1, st1)"
        "cluster_live c1" "c_markers (cls ! i) = Some ms"
        "c_markers c1 = Some (if marker \<in> set ms then ms else ms @ [marker])"
        by blast
      have D: "DEFAULT_CLUSTERIZER_FUNCTION h marker cls mc st = Inr (cls[i := c1], st1)"
        using Some b True a(1)
        by (simp add: DEFAULT_CLUSTERIZER_FUNCTION_def Let_def pos_def isMarkerInClusterBounds_def)
      from i have "cls ! i \<in> set cls" by simp
      with within a(3) have "set ms \<subseteq> M" unfolding members_within_def by blast
      with a(4) inM have c1M: "\<forall>ms1. c_markers c1 = Some ms1 \<longrightarrow> set ms1 \<subseteq> M" by auto
      have sub: "set (cls[i := c1]) \<subseteq> insert c1 (set cls)" by (rule set_update_subset_insert)
      have "\<forall>c \<in> set (cls[i := c1]). cluster_live c"
        using sub live a(2) by auto
      moreover have "members_within M (cls[i := c1])"
        unfolding members_within_def
      proof (intro ballI allI impI)
        fix c ms1 assume "c \<in> set (cls[i := c1])" "c_markers c = Some ms1"
        with sub have "c = c1 \<or> c \<in> set cls" by auto
        with c1M within \<open>c_markers c = Some ms1\<close> show "set ms1 \<subseteq> M"
          by (auto simp: members_within_def)
      qed
      moreover have "\<exists>c \<in> set (cls[i := c1]). \<exists>ms. c_markers c = Some ms \<and> marker \<in> set ms"
        using a(4) i by (intro bexI [of _ c1]) (auto simp: set_update_memI)
      ultimately show ?thesis using D by blast
    next
      case False
      have "DEFAULT_CLUSTERIZER_FUNCTION h marker cls mc st = Inr (cls @ [cn], stn)"
        using Some b False fresh(1)
        by (simp add: DEFAULT_CLUSTERIZER_FUNCTION_def Let_def pos_def isMarkerInClusterBounds_def)
      with app show ?thesis by blast
    qed
  qed
qed

lemma default_strategy_keeps: "strategy_keeps DEFAULT_CLUSTERIZER_FUNCTION"
  unfolding strategy_keeps_def
proof (intro allI impI)
  fix h marker cls mc st M
  assume a: "(\<forall>c \<in> set cls. cluster_live c) \<and> members_within M cls \<and> marker \<in> M"
  then have "\<forall>c \<in> set cls. cluster_live c" "members_within M cls" "marker \<in> M" by simp_all
  from default_clusterizer_total [OF this, of h mc st]
  show "\<exists>cls1 st1. DEFAULT_CLUSTERIZER_FUNCTION h marker cls mc st = Inr (cls1, st1) \<and>
           (\<forall>c \<in> set cls1. cluster_live c) \<and> members_within M cls1"
    by blast
qed

lemma strategy_keepsD:
  assumes "strategy_keeps cf" and "\<forall>c \<in> set cls. cluster_live c"
    and "members_within M cls" and "marker \<in> M"
  shows "\<exists>cls1 st1. cf h marker cls mc st = Inr (cls1, st1) \<and>
           (\<forall>c \<in> set cls1. cluster_live c) \<and> members_within M cls1"
  using assms unfolding strategy_keeps_def by blast

lemma createClusters_loop_inv:
  assumes cf: "strategy_keeps cf"
  shows "set todo \<subseteq> set (markers mc) \<Longrightarrow> clusters_live mc \<Longrightarrow> members_known mc \<Longrightarrow>
   \<exists>mc1 st1. createClusters_loop cf h bounds todo (mc, st) = Inr (mc1, st1) \<and>
     markers mc1 = markers mc \<and> clusters_live mc1 \<and> members_known mc1"
proof (induction todo arbitrary: mc st)
  case Nil
  then show ?case by simp
next
  case (Cons marker rest)
  show ?case
  proof (cases "\<not> isAdded (st marker) \<and> isMarkerInBounds h (st marker) bounds")
    case False
    from Cons.prems have "set rest \<subseteq> set (markers mc)" by simp
    from Cons.IH [OF this Cons.prems(2,3), of st] False show ?thesis by auto
  next
    case True
    from Cons.prems have inM: "marker \<in> set (markers mc)" by simp
    from Cons.prems(2,3) have "\<forall>c \<in> set (clusters mc). cluster_live c"
      "members_within (set (markers mc)) (clusters mc)"
      by (simp_all add: clusters_live_def members_known_def)
    from strategy_keepsD [OF cf this inM, of h mc st]
    obtain cls1 st1 where D: "cf h marker (clusters mc) mc st = Inr (cls1, st1)"
      and l1: "\<forall>c \<in> set cls1. cluster_live c" and w1: "members_within (set (markers mc)) cls1"
      by blast
    define mc1 where "mc1 = mc\<lparr>clusters := cls1\<rparr>"
    have a: "addToClosestCluster cf h marker (mc, st) = Inr (mc1, st1)"
      using D by (simp add: addToClosestCluster_def mc1_def)
    have m1: "markers mc1 = markers mc" by (simp add: mc1_def)
    have "set rest \<subseteq> set (markers mc1)" using Cons.prems m1 by simp
    moreover have "clusters_live mc1" using l1 by (simp add: clusters_live_def mc1_def)
    moreover have "members_known mc1" using w1 by (simp add: members_known_def mc1_def)
    ultimately obtain mc2 st2 where
      "createClusters_loop cf h bounds rest (mc1, st1) = Inr (mc2, st2)"
      "markers mc2 = markers mc1" "clusters_live mc2" "members_known mc2"
      using Cons.IH [of mc1 st1] by blast
    with True a m1 show ?thesis by simp
  qed
qed

lemma createClusters_inv:
  assumes cf: "strategy_keeps cf" and "clusters_live mc" and "members_known mc"
  shows "\<exists>mc1 st1. createClusters cf h (mc, st) = Inr (mc1, st1) \<and>
           markers mc1 = markers mc \<and> clusters_live mc1 \<and> members_known mc1"
proof (cases "ready mc")
  case False
  with assms show ?thesis by (simp add: createClusters_def)
next
  case True
  have "set (markers mc) \<subseteq> set (markers mc)" by simp
  from createClusters_loop_inv [OF cf this assms(2,3)] True show ?thesis
    by (simp add: createClusters_def Let_def)
qed

lemma remove_each_live:
  "\<forall>c \<in> set cls. cluster_live c \<Longrightarrow> \<exists>cs. remove_each cls = Inr cs"
proof (induction cls)
  case Nil
  then show ?case by simp
next
  case (Cons c rest)
  then obtain cs where "remove_each rest = Inr cs" by auto
  moreover from Cons.prems obtain ms where "c_markers c = Some ms"
    by (auto simp: cluster_live_def)
  ultimately show ?case by (simp add: Cluster_remove_def Let_def)
qed

lemma resetViewport_live:
  assumes "clusters_live mc"
  shows "\<exists>st1. resetViewport hideMarker (mc, st) = Inr (mc\<lparr>clusters := []\<rparr>, st1)"
proof -
  from assms remove_each_live [of "clusters mc"] obtain cs where "remove_each (clusters mc) = Inr cs"
    by (auto simp: clusters_live_def)
  then show ?thesis by (simp add: resetViewport_def Let_def)
qed

lemma empty_clusters_inv:
  "clusters_live (mc\<lparr>clusters := []\<rparr>)" "members_known (mc\<lparr>clusters := []\<rparr>)"
  by (simp_all add: clusters_live_def members_known_def members_within_def)

lemma reset_then_redraw:
  assumes cf: "strategy_keeps cf" and "clusters_live mc"
  shows "\<exists>s2 mc1 st1. resetViewport False (mc, st) = Inr s2 \<and>
           redraw cf h s2 = Inr (mc1, st1) \<and>
           clusters_live mc1 \<and> members_known mc1"
proof -
  from resetViewport_live [OF assms(2), of False st]
  obtain st0 where r: "resetViewport False (mc, st) = Inr (mc\<lparr>clusters := []\<rparr>, st0)" by blast
  from createClusters_inv [OF cf empty_clusters_inv, of h mc st0] r
  show ?thesis by (auto simp: redraw_def)
qed

lemma fold_pushMarkerTo:
  "\<exists>st1. fold pushMarkerTo mks (mc, st) = (mc\<lparr>markers := markers mc @ mks\<rparr>, st1)"
proof (induction mks arbitrary: mc st)
  case Nil
  then show ?case by simp
next
  case (Cons marker rest)
  from Cons [of "mc\<lparr>markers := markers mc @ [marker]\<rparr>" "set_isAdded marker False st"]
  show ?case by (simp add: pushMarkerTo_def)
qed

lemma more_markers_inv:
  assumes "clusters_live mc" and "members_known mc"
  shows "clusters_live (mc\<lparr>markers := markers mc @ mks\<rparr>)"
    and "members_known (mc\<lparr>markers := markers mc @ mks\<rparr>)"
  using assms by (auto simp: clusters_live_def members_known_def members_within_def)

lemma removeMarker_private_clusters:
  "removeMarker_private marker (mc, st) = (r, mc1, st1) \<Longrightarrow>
   clusters mc1 = clusters mc \<and> (\<not> r \<longrightarrow> mc1 = mc)"
  by (auto simp: removeMarker_private_def split: if_splits)

lemma fold_removeMarker_private:
  "fold (\<lambda>marker (removed, s0).
           case removeMarker_private marker s0 of (r, s1) \<Rightarrow> (removed \<or> r, s1))
        mks (r0, (mc, st)) = (r, (mc1, st1)) \<Longrightarrow>
   clusters mc1 = clusters mc \<and> (\<not> r \<longrightarrow> mc1 = mc)"
proof (induction mks arbitrary: r0 mc st)
  case Nil
  then show ?case by simp
next
  case (Cons marker rest)
  obtain q mc0 st0 where p: "removeMarker_private marker (mc, st) = (q, mc0, st0)"
    by (cases "removeMarker_private marker (mc, st)")
  with Cons.prems have "fold (\<lambda>marker (removed, s0).
           case removeMarker_private marker s0 of (r, s1) \<Rightarrow> (removed \<or> r, s1))
        rest (r0 \<or> q, (mc0, st0)) = (r, (mc1, st1))" by simp
  from Cons.IH [OF this] removeMarker_private_clusters [OF p]
  have "clusters mc1 = clusters mc" "\<not> r \<longrightarrow> mc1 = mc0" by auto
  moreover have "r0 \<or> q \<longrightarrow> r"
  proof -
    have "b0 \<longrightarrow> b1" if "fold (\<lambda>marker (removed, s0).
           case removeMarker_private marker s0 of (r, s1) \<Rightarrow> (removed \<or> r, s1))
        xs (b0, s) = (b1, s')" for xs b0 b1 s s'
      using that by (induction xs arbitrary: b0 s) (auto split: prod.splits)
    with \<open>fold _ rest (r0 \<or> q, (mc0, st0)) = (r, (mc1, st1))\<close> show ?thesis by blast
  qed
  ultimately show ?case using removeMarker_private_clusters [OF p] by auto
qed

lemma removeMarker_private_found:
  "marker \<in> set (markers mc) \<Longrightarrow> \<exists>mc1 st1. removeMarker_private marker (mc, st) = (True, mc1, st1)"
  by (simp add: removeMarker_private_def)

lemma setupStyles_fields:
  "clusters (setupStyles m) = clusters m" "ready (setupStyles m) = ready m"
  by (simp_all add: setupStyles_def)

lemma addMarkers_not_ready:
  assumes "\<not> ready m" and "MarkerClusterer_addMarkers cf h mks noRedraw (m, st) = Inr (m2, s2)"
  shows "clusters m2 = clusters m \<and> \<not> ready m2"
proof -
  from fold_pushMarkerTo [of mks m st] obtain s where
    "fold pushMarkerTo mks (m, st) = (m\<lparr>markers := markers m @ mks\<rparr>, s)" by blast
  with assms show ?thesis
    by (auto simp: MarkerClusterer_addMarkers_def redraw_def createClusters_def Let_def
        split: if_splits)
qed

lemma constructor_clusters:
  assumes "MarkerClusterer_constructor h static_styles mp mks options calc cf st = Inr (mc, st1, static_styles1)"
  shows "clusters mc = [] \<and> \<not> ready mc"
proof -
  from assms show ?thesis
    unfolding MarkerClusterer_constructor_def Let_def
    by (auto simp: setupStyles_fields split: if_splits sum.splits
        dest!: addMarkers_not_ready [rotated])
qed

text \<open>
  The constructor returns a clusterer with no clusters, so both invariants hold of a new
  clusterer.
\<close>

lemma constructor_invariants:
  assumes "MarkerClusterer_constructor h static_styles mp mks options calc cf st = Inr (mc, st1, static_styles1)"
  shows "members_known mc \<and> clusters_live mc"
  using constructor_clusters [OF assms]
  by (simp add: members_known_def members_within_def clusters_live_def)

text \<open>
  C8, as the code has it.  The assignment strategy is one that keeps cluster members
  among the markers (\<open>strategy_keeps\<close>, which the default strategy does), and the clusters
  of the array are live.  Then \<^verbatim>\<open>resetViewport\<close>, \<^verbatim>\<open>repaint\<close>, and
  \<^verbatim>\<open>removeMarker\<close> of a marker of the collection with the recomputation not
  suppressed complete in a state where every cluster member is in the markers.  If every
  cluster member is in the markers before the call, then \<^verbatim>\<open>addMarker\<close> and
  \<^verbatim>\<open>addMarkers\<close> (redrawing or not), \<^verbatim>\<open>removeMarker\<close> and \<^verbatim>\<open>removeMarkers\<close>
  with the recomputation not suppressed, and the cluster recomputation (\<^verbatim>\<open>redraw\<close>)
  complete in a state where this holds again.  In each case the clusters are live
  afterwards.
\<close>

theorem engine_keeps_members_known:
  assumes "strategy_keeps cf" and "clusters_live mc"
  shows "(\<exists>mc1 st1. resetViewport hideMarker (mc, st) =
             Inr (mc1, st1) \<and> members_known mc1 \<and> clusters_live mc1) \<and>
         (\<exists>mc1 st1 old. repaint cf h (mc, st) =
             Inr ((mc1, st1), old) \<and> members_known mc1 \<and> clusters_live mc1) \<and>
         (marker \<in> set (markers mc) \<longrightarrow>
            (\<exists>mc1 st1. MarkerClusterer_removeMarker cf h marker False (mc, st) =
               Inr (True, mc1, st1) \<and> members_known mc1 \<and> clusters_live mc1)) \<and>
         (members_known mc \<longrightarrow>
            (\<exists>mc1 st1. MarkerClusterer_addMarker cf h marker noRedraw (mc, st) =
               Inr (mc1, st1) \<and> members_known mc1 \<and> clusters_live mc1) \<and>
            (\<exists>mc1 st1. MarkerClusterer_addMarkers cf h mks noRedraw (mc, st) =
               Inr (mc1, st1) \<and> members_known mc1 \<and> clusters_live mc1) \<and>
            (\<exists>r mc1 st1. MarkerClusterer_removeMarker cf h marker False (mc, st) =
               Inr (r, mc1, st1) \<and> members_known mc1 \<and> clusters_live mc1) \<and>
            (\<exists>mc1 st1. MarkerClusterer_removeMarkers cf h mks False (mc, st) =
               Inr (mc1, st1) \<and> members_known mc1 \<and> clusters_live mc1) \<and>
            (\<exists>mc1 st1. redraw cf h (mc, st) =
               Inr (mc1, st1) \<and> members_known mc1 \<and> clusters_live mc1))"
proof (intro conjI impI)
  note cf = assms(1) and live = assms(2)
  have redraw_ok: "\<exists>mc1 st1. redraw cf h (m, s) = Inr (mc1, st1) \<and>
      members_known mc1 \<and> clusters_live mc1" if "clusters_live m" "members_known m" for m s
    using createClusters_inv [OF cf that, of h s] by (auto simp: redraw_def)
  show "\<exists>mc1 st1. resetViewport hideMarker (mc, st) =
             Inr (mc1, st1) \<and> members_known mc1 \<and> clusters_live mc1"
    using resetViewport_live [OF live, of hideMarker st] empty_clusters_inv [of mc] by auto
  show "\<exists>mc1 st1 old. repaint cf h (mc, st) =
             Inr ((mc1, st1), old) \<and> members_known mc1 \<and> clusters_live mc1"
    using reset_then_redraw [OF cf empty_clusters_inv(1), of mc st h]
    by (auto simp: repaint_def Let_def)
  {
    assume "marker \<in> set (markers mc)"
    from removeMarker_private_found [OF this, of st]
    obtain m s where p: "removeMarker_private marker (mc, st) = (True, m, s)" by blast
    from removeMarker_private_clusters [OF p] live have "clusters_live m"
      by (simp add: clusters_live_def)
    from reset_then_redraw [OF cf this, of s h] p
    show "\<exists>mc1 st1. MarkerClusterer_removeMarker cf h marker False (mc, st) =
               Inr (True, mc1, st1) \<and> members_known mc1 \<and> clusters_live mc1"
      by (auto simp: MarkerClusterer_removeMarker_def)
  }
  {
    assume known: "members_known mc"
    show "\<exists>mc1 st1. redraw cf h (mc, st) =
               Inr (mc1, st1) \<and> members_known mc1 \<and> clusters_live mc1"
      using redraw_ok [OF live known] .
    show "\<exists>mc1 st1. MarkerClusterer_addMarker cf h marker noRedraw (mc, st) =
               Inr (mc1, st1) \<and> members_known mc1 \<and> clusters_live mc1"
    proof -
      define m where "m = mc\<lparr>markers := markers mc @ [marker]\<rparr>"
      have p: "pushMarkerTo marker (mc, st) = (m, set_isAdded marker False st)"
        by (simp add: pushMarkerTo_def m_def)
      have i: "clusters_live m" "members_known m"
        using more_markers_inv [OF live known, of "[marker]"] by (simp_all add: m_def)
      show ?thesis
        using p i redraw_ok [OF i, of "set_isAdded marker False st"]
        by (cases noRedraw) (auto simp: MarkerClusterer_addMarker_def Let_def)
    qed
    show "\<exists>mc1 st1. MarkerClusterer_addMarkers cf h mks noRedraw (mc, st) =
               Inr (mc1, st1) \<and> members_known mc1 \<and> clusters_live mc1"
    proof -
      define m where "m = mc\<lparr>markers := markers mc @ mks\<rparr>"
      from fold_pushMarkerTo [of mks mc st] obtain s where
        p: "fold pushMarkerTo mks (mc, st) = (m, s)" by (auto simp: m_def)
      have i: "clusters_live m" "members_known m"
        using more_markers_inv [OF live known, of mks] by (simp_all add: m_def)
      show ?thesis
        using p i redraw_ok [OF i, of s]
        by (cases noRedraw) (auto simp: MarkerClusterer_addMarkers_def Let_def)
    qed
    show "\<exists>r mc1 st1. MarkerClusterer_removeMarker cf h marker False (mc, st) =
               Inr (r, mc1, st1) \<and> members_known mc1 \<and> clusters_live mc1"
    proof -
      obtain q m s where p: "removeMarker_private marker (mc, st) = (q, m, s)"
        by (cases "removeMarker_private marker (mc, st)")
      from removeMarker_private_clusters [OF p]
      have c: "clusters m = clusters mc" "\<not> q \<longrightarrow> m = mc" by simp_all
      show ?thesis
      proof (cases q)
        case False
        with c p live known show ?thesis by (auto simp: MarkerClusterer_removeMarker_def)
      next
        case True
        from c live have "clusters_live m" by (simp add: clusters_live_def)
        from reset_then_redraw [OF cf this, of s h] True p show ?thesis
          by (auto simp: MarkerClusterer_removeMarker_def)
      qed
    qed
    show "\<exists>mc1 st1. MarkerClusterer_removeMarkers cf h mks False (mc, st) =
               Inr (mc1, st1) \<and> members_known mc1 \<and> clusters_live mc1"
    proof -
      obtain q m s where p: "fold (\<lambda>marker (removed, s0).
             case removeMarker_private marker s0 of (r, s1) \<Rightarrow> (removed \<or> r, s1))
          mks (False, (mc, st)) = (q, (m, s))"
        by (metis surj_pair)
      from fold_removeMarker_private [OF p]
      have c: "clusters m = clusters mc" "\<not> q \<longrightarrow> m = mc" by simp_all
      show ?thesis
      proof (cases q)
        case False
        with c p live known show ?thesis by (simp add: MarkerClusterer_removeMarkers_def)
      next
        case True
        from c live have "clusters_live m" by (simp add: clusters_live_def)
        from reset_then_redraw [OF cf this, of s h] True p show ?thesis
          by (auto simp: MarkerClusterer_removeMarkers_def)
      qed
    qed
  }
qed

text \<open>
  The state \<open>ex_engine\<close> is the one that the code reaches from \<open>ex_options\<close> with marker
  0, once the map surface is attached.
\<close>

lemma ex_engine_reached:
  "(case MarkerClusterer_constructor ex_host [] 0 [0] ex_options DEFAULT_SUMCALCULATOR_FUNCTION
           DEFAULT_CLUSTERIZER_FUNCTION ex_store of
      Inl e \<Rightarrow> Inl e
    | Inr (mc, st, static_styles) \<Rightarrow> onAdd DEFAULT_CLUSTERIZER_FUNCTION ex_host (mc, st)) =
   Inr (ex_engine, Marker_setMap 0 (Some 0) (set_isAdded 0 True ex_store))"
  by (simp add: MarkerClusterer_constructor_def Let_def setupStyles_def or_bool_def or_number_def
      truthy_num_def or_int_def or_int_null_def or_string_def or_array_def
      DEFAULT_MARKERCLUSTER_OPTIONS_def
      ex_options_def ex_mc_def ex_host_def ex_store_def ex_position_def ex_engine_def
      ex_cluster_def
      MarkerClusterer_addMarkers_def pushMarkerTo_def redraw_def createClusters_def onAdd_def
      setReady_def getExtendedBounds_def isMarkerInBounds_def addToClosestCluster_def
      DEFAULT_CLUSTERIZER_FUNCTION_def Cluster_addMarker_def isMarkerAlreadyAdded_def
      Cluster_updateIcon_def Cluster_constructor_def calculateBounds_def ClusterIcon_hide_def
      ClusterIcon_constructor_def set_isAdded_def Marker_setMap_def fun_eq_iff double_ops)

theorem engine_keeps_members_known_witness:
  "strategy_keeps DEFAULT_CLUSTERIZER_FUNCTION \<and> clusters_live ex_engine \<and>
   members_known ex_engine \<and> (0::nat) \<in> set (markers ex_engine) \<and>
   (\<exists>mc1 st1. MarkerClusterer_removeMarker DEFAULT_CLUSTERIZER_FUNCTION ex_host 0 False
                   (ex_engine, ex_store) = Inr (True, mc1, st1) \<and> members_known mc1) \<and>
   (\<exists>mc1 st1. MarkerClusterer_addMarker DEFAULT_CLUSTERIZER_FUNCTION ex_host 1 False
                   (ex_engine, ex_store) = Inr (mc1, st1) \<and> members_known mc1)"
proof -
  have l: "clusters_live ex_engine"
    by (simp add: clusters_live_def ex_engine_def cluster_live_def ex_cluster_def)
  have k: "members_known ex_engine"
    by (simp add: members_known_def members_within_def ex_engine_def ex_cluster_def)
  have m: "(0::nat) \<in> set (markers ex_engine)" by (simp add: ex_engine_def)
  from engine_keeps_members_known [OF default_strategy_keeps l, of False ex_store ex_host 0] m
  have "\<exists>mc1 st1. MarkerClusterer_removeMarker DEFAULT_CLUSTERIZER_FUNCTION ex_host 0 False
                   (ex_engine, ex_store) = Inr (True, mc1, st1) \<and> members_known mc1"
    by blast
  moreover from engine_keeps_members_known [OF default_strategy_keeps l, of False ex_store ex_host 1 False] k
  have "\<exists>mc1 st1. MarkerClusterer_addMarker DEFAULT_CLUSTERIZER_FUNCTION ex_host 1 False
                   (ex_engine, ex_store) = Inr (mc1, st1) \<and> members_known mc1"
    by blast
  ultimately show ?thesis using default_strategy_keeps l k m by blast
qed

text \<open>
  The claim fails for \<^verbatim>\<open>removeMarker\<close> with the recomputation suppressed: in the
  state \<open>ex_engine\<close>, removing marker 0 with \<^verbatim>\<open>noRedraw = true\<close> takes it out of the
  markers and leaves it a member of its cluster, and a cluster recomputation after that
  does not take it out of the cluster.  It also fails for a strategy that does not keep
  cluster members among the markers: with \<open>foreign_strategy\<close>, adding marker 1 in the
  state \<open>ex_engine\<close> creates a cluster whose member, marker 99, is not in the markers.
\<close>

theorem members_known_counterexample:
  "members_known ex_engine \<and>
   map_sum id (\<lambda>r. members_known (fst (snd r)))
     (MarkerClusterer_removeMarker DEFAULT_CLUSTERIZER_FUNCTION ex_host 0 True
        (ex_engine, Marker_setMap 0 (Some 0) (set_isAdded 0 True ex_store))) = Inr False \<and>
   map_sum id (\<lambda>s. members_known (fst s))
     (case MarkerClusterer_removeMarker DEFAULT_CLUSTERIZER_FUNCTION ex_host 0 True
             (ex_engine, Marker_setMap 0 (Some 0) (set_isAdded 0 True ex_store)) of
        Inl e \<Rightarrow> Inl e
      | Inr (r, s) \<Rightarrow> redraw DEFAULT_CLUSTERIZER_FUNCTION ex_host s) = Inr False \<and>
   map_sum id (\<lambda>s. members_known (fst s))
     (MarkerClusterer_addMarker foreign_strategy ex_host 1 False
        (ex_engine, Marker_setMap 0 (Some 0) (set_isAdded 0 True ex_store))) = Inr False"
  by (simp add: members_known_def members_within_def ex_engine_def ex_cluster_def
      MarkerClusterer_removeMarker_def removeMarker_private_def redraw_def createClusters_def
      MarkerClusterer_addMarker_def pushMarkerTo_def getExtendedBounds_def isMarkerInBounds_def
      addToClosestCluster_def foreign_strategy_def Cluster_constructor_def ex_mc_def ex_host_def
      ex_store_def ex_position_def set_isAdded_def Marker_setMap_def Let_def double_ops)

end
